theory Spec2Isabelle
  imports Main "HOL-Library.AList" "HOL-Library.Char_ord" "HOL-Library.List_Lexorder"
    "HOL-Library.Sublist"
begin

section \<open>PocketBase export and import scripts\<close>

text \<open>
  The two scripts \<^verbatim>\<open>export_data.py\<close> and \<^verbatim>\<open>import_data.py\<close> are
  modelled as functions over an explicit world (disk, standard output, the log of
  HTTP requests issued, the log of files opened for reading) and a fixed environment
  (the HTTP server, the JSON library, the paths the operating system refuses).
  Every \<^verbatim>\<open>raise\<close> of Python and every \<^verbatim>\<open>sys.exit\<close> is a value of the
  result type, returned together with the world reached at that point.
\<close>

subsection \<open>Python values\<close>

text \<open>
  What \<^verbatim>\<open>json.load\<close> and \<^verbatim>\<open>response.json()\<close> return. A \<^verbatim>\<open>dict\<close> is an
  association list in insertion order; the first binding of a key is the one looked
  up. A float is a mantissa and an exponent (only whether it is zero matters to the
  scripts); NaN and the infinities are not represented.
\<close>

datatype json =
    JNull
  | JBool bool
  | JInt int
  | JFloat int int
  | JStr string
  | JArr "json list"
  | JObj "(string \<times> json) list"

datatype exn =
    RequestException
  | JSONDecodeError
  | AttributeError
  | TypeError
  | FileExistsError
  | FileNotFoundError
  | NotADirectoryError
  | IsADirectoryError
  | PermissionError

text \<open>
  The outcome of a call: a normal return, an exception that nothing catches (neither
  script has a \<^verbatim>\<open>try\<close>), or \<^verbatim>\<open>sys.exit(n)\<close>.
\<close>

datatype 'a res = Returned 'a | Raised exn | Exited nat

text \<open>The exit status of the interpreter: 0 after a normal return of
  \<^verbatim>\<open>main\<close>, the argument of \<^verbatim>\<open>sys.exit\<close>, 1 after an uncaught exception.\<close>

fun exit_code :: "'a res \<Rightarrow> nat" where
  "exit_code (Returned u) = 0"
| "exit_code (Exited n) = n"
| "exit_code (Raised x) = 1"

text \<open>Truth value of an object, as \<^verbatim>\<open>not records\<close> tests it.\<close>

fun truthy :: "json \<Rightarrow> bool" where
  "truthy JNull = False"
| "truthy (JBool b) = b"
| "truthy (JInt n) = (n \<noteq> 0)"
| "truthy (JFloat m ex) = (m \<noteq> 0)"
| "truthy (JStr s) = (s \<noteq> [])"
| "truthy (JArr xs) = (xs \<noteq> [])"
| "truthy (JObj kvs) = (kvs \<noteq> [])"

text \<open>\<^verbatim>\<open>len(x)\<close>: defined on lists, strings and dicts, a \<^verbatim>\<open>TypeError\<close> otherwise.
  A string is its UTF-8 bytes here, so on a string this counts bytes where Python counts
  code points; no property below depends on the length of a string.\<close>

fun py_len :: "json \<Rightarrow> exn + nat" where
  "py_len (JArr xs) = Inr (length xs)"
| "py_len (JStr s) = Inr (length s)"
| "py_len (JObj kvs) = Inr (length (remdups (map fst kvs)))"
| "py_len v = Inl TypeError"

text \<open>\<^verbatim>\<open>for record in x\<close>: the elements of a list, the characters of a string, the
  keys of a dict; a \<^verbatim>\<open>TypeError\<close> on anything else.\<close>

fun py_iter :: "json \<Rightarrow> exn + json list" where
  "py_iter (JArr xs) = Inr xs"
| "py_iter (JStr s) = Inr (map (\<lambda>c. JStr [c]) s)"
| "py_iter (JObj kvs) = Inr (map JStr (remdups (map fst kvs)))"
| "py_iter v = Inl TypeError"

text \<open>\<^verbatim>\<open>data.get(key, default)\<close>: only a dict has the method.\<close>

fun dict_get :: "json \<Rightarrow> string \<Rightarrow> json \<Rightarrow> exn + json" where
  "dict_get (JObj kvs) k d = Inr (case map_of kvs k of None \<Rightarrow> d | Some v \<Rightarrow> v)"
| "dict_get v k d = Inl AttributeError"

text \<open>\<^verbatim>\<open>record.pop(key, None)\<close>, returning the object as mutated: a dict loses the
  key (no error when it is absent), \<^verbatim>\<open>list.pop\<close> rejects two arguments with a
  \<^verbatim>\<open>TypeError\<close>, and no other JSON value has a \<^verbatim>\<open>pop\<close> attribute.\<close>

fun dict_pop :: "json \<Rightarrow> string \<Rightarrow> exn + json" where
  "dict_pop (JObj kvs) k = Inr (JObj (AList.delete k kvs))"
| "dict_pop (JArr xs) k = Inl TypeError"
| "dict_pop v k = Inl AttributeError"

subsection \<open>Paths\<close>

text \<open>
  A \<^verbatim>\<open>pathlib.Path\<close> is its list of parts; an absolute path starts with the part
  \<^verbatim>\<open>/\<close>, and the empty list is the current directory. Paths are ordered as Python
  orders them, lexicographically by parts, each part compared as a string.
\<close>

type_synonym path = "string list"

fun split_slash :: "string \<Rightarrow> string list" where
  "split_slash [] = [[]]"
| "split_slash (c # cs) =
     (if c = CHR ''/'' then [] # split_slash cs
      else (case split_slash cs of [] \<Rightarrow> [[c]] | x # xs \<Rightarrow> (c # x) # xs))"

definition Path :: "string \<Rightarrow> path" where
  "Path s = (if s \<noteq> [] \<and> hd s = CHR ''/'' then [''/''] else [])
            @ filter (\<lambda>part. part \<noteq> [] \<and> part \<noteq> ''.'') (split_slash s)"

text \<open>\<^verbatim>\<open>Path(a) / b\<close>\<close>

definition joinpath :: "path \<Rightarrow> string \<Rightarrow> path" where
  "joinpath p s = (if s \<noteq> [] \<and> hd s = CHR ''/'' then Path s else p @ Path s)"

definition path_name :: "path \<Rightarrow> string" where
  "path_name p = (if p = [] then [] else last p)"

definition parent :: "path \<Rightarrow> path" where
  "parent p = butlast p"

text \<open>\<^verbatim>\<open>str.rfind('.')\<close>, with None for Python's -1.\<close>

definition rfind_dot :: "string \<Rightarrow> nat option" where
  "rfind_dot name =
     (let k = length (takeWhile (\<lambda>c. c \<noteq> CHR ''.'') (rev name))
      in if k = length name then None else Some (length name - 1 - k))"

text \<open>\<^verbatim>\<open>PurePath.stem\<close>: the name up to its last dot, when that dot is neither the
  first nor the last character.\<close>

definition stem :: "string \<Rightarrow> string" where
  "stem name =
     (case rfind_dot name of
        None \<Rightarrow> name
      | Some i \<Rightarrow> if 0 < i \<and> i < length name - 1 then take i name else name)"

text \<open>The pattern \<^verbatim>\<open>*.json\<close> on a name.\<close>

definition fnmatch_json :: "string \<Rightarrow> bool" where
  "fnmatch_json name = (take 5 (rev name) = rev ''.json'')"

text \<open>\<^verbatim>\<open>s.rstrip('/')\<close>\<close>

definition rstrip_slash :: "string \<Rightarrow> string" where
  "rstrip_slash s = rev (dropWhile (\<lambda>c. c = CHR ''/'') (rev s))"

subsection \<open>The world and the environment\<close>

datatype node = Dir | File string

datatype request = Get string | Post string json

text \<open>What \<^verbatim>\<open>requests.get\<close> and \<^verbatim>\<open>requests.post\<close> come back with: an exception
  (connection refused, invalid URL, a body that cannot be serialised), or a response
  with its \<^verbatim>\<open>status_code\<close> and \<^verbatim>\<open>text\<close>.\<close>

datatype reply = Fails exn | Response int string

text \<open>One constructor for each \<^verbatim>\<open>print\<close> of the two scripts, holding the values its
  f-string interpolates.\<close>

datatype msg =
    ExportUsage                    \<comment> \<open>\<^verbatim>\<open>Usage: python export_data.py <pocketbase_url> [output_dir]\<close>\<close>
  | ExportExample                  \<comment> \<open>\<^verbatim>\<open>Example: python export_data.py http://127.0.0.1:8090\<close>\<close>
  | ExportBanner string string     \<comment> \<open>\<^verbatim>\<open>Exporting from {base_url} to {output_dir}/\<close>\<close>
  | Rule                           \<comment> \<open>\<^verbatim>\<open>"-" * 50\<close>\<close>
  | Exported string nat            \<comment> \<open>\<^verbatim>\<open>Exported {collection_name}: {n} records\<close>\<close>
  | ExportFailed string int        \<comment> \<open>\<^verbatim>\<open>Failed to export {collection_name}: {status_code}\<close>\<close>
  | ExportComplete nat nat         \<comment> \<open>\<^verbatim>\<open>Export complete: {success_count}/{n} collections exported\<close>\<close>
  | OutputSaved string             \<comment> \<open>\<^verbatim>\<open>Output saved to: {output_dir}/\<close>\<close>
  | ImportUsage                    \<comment> \<open>\<^verbatim>\<open>Usage: python import_data.py <pocketbase_url> <import_dir>\<close>\<close>
  | ImportExample                  \<comment> \<open>\<^verbatim>\<open>Example: python import_data.py http://127.0.0.1:8090 pocketbase_export\<close>\<close>
  | DirMissing string              \<comment> \<open>\<^verbatim>\<open>Error: Directory {import_dir} does not exist\<close>\<close>
  | NoJsonFiles string             \<comment> \<open>\<^verbatim>\<open>Error: No JSON files found in {import_dir}\<close>\<close>
  | ImportBanner string string     \<comment> \<open>\<^verbatim>\<open>Importing to {base_url} from {import_dir}/\<close>\<close>
  | NoRecords string               \<comment> \<open>\<^verbatim>\<open>No records found in {collection_name}\<close>\<close>
  | RecordFailed int string        \<comment> \<open>\<^verbatim>\<open>Failed to import record: {status_code} - {text}\<close>\<close>
  | Imported nat nat string        \<comment> \<open>\<^verbatim>\<open>Imported {success_count}/{n} records to {collection_name}\<close>\<close>
  | ImportComplete nat nat         \<comment> \<open>\<^verbatim>\<open>Import complete: {success_count}/{n} collections imported\<close>\<close>

text \<open>
  The environment is what the scripts call but do not define. The server answers a
  request given everything sent so far (the request answered is the last of the list),
  so its answers may depend on the history. \<open>loads\<close> is \<^verbatim>\<open>json.loads\<close> (None: the
  text is not JSON), \<open>dumps\<close> is \<^verbatim>\<open>json.dumps(data, indent=2)\<close>, and \<open>denied\<close>
  holds of the paths the operating system refuses to create, write or read.
\<close>

record env =
  server :: "request list \<Rightarrow> reply"
  loads :: "string \<Rightarrow> json option"
  dumps :: "json \<Rightarrow> string"
  denied :: "path \<Rightarrow> bool"

text \<open>
  The disk is an association list from paths to nodes, in the order in which a
  directory scan yields its entries. \<open>stdout\<close> holds the lines printed, \<open>requests\<close>
  the HTTP requests attempted and \<open>opened\<close> the files opened for reading, each oldest
  first.
\<close>

record world =
  disk :: "(path \<times> node) list"
  stdout :: "msg list"
  requests :: "request list"
  opened :: "path list"

definition print :: "msg \<Rightarrow> world \<Rightarrow> world" where
  "print m w = w\<lparr>stdout := stdout w @ [m]\<rparr>"

definition requests_get :: "env \<Rightarrow> string \<Rightarrow> world \<Rightarrow> reply \<times> world" where
  "requests_get e url w =
     (let sent = requests w @ [Get url] in (server e sent, w\<lparr>requests := sent\<rparr>))"

definition requests_post :: "env \<Rightarrow> string \<Rightarrow> json \<Rightarrow> world \<Rightarrow> reply \<times> world" where
  "requests_post e url body w =
     (let sent = requests w @ [Post url body] in (server e sent, w\<lparr>requests := sent\<rparr>))"

text \<open>\<^verbatim>\<open>Path(p).exists()\<close>\<close>

definition path_exists :: "path \<Rightarrow> world \<Rightarrow> bool" where
  "path_exists p w = (map_of (disk w) p \<noteq> None)"

text \<open>\<^verbatim>\<open>Path(p).mkdir(exist_ok=True)\<close>: nothing happens when the directory exists; a
  path that exists and is not a directory is still a \<^verbatim>\<open>FileExistsError\<close>; and since
  \<^verbatim>\<open>parents\<close> is left False, the parent has to be a directory already.\<close>

definition mkdir_exist_ok :: "env \<Rightarrow> path \<Rightarrow> world \<Rightarrow> unit res \<times> world" where
  "mkdir_exist_ok e p w =
     (case map_of (disk w) p of
        Some Dir \<Rightarrow> (Returned (), w)
      | Some (File c) \<Rightarrow> (Raised FileExistsError, w)
      | None \<Rightarrow>
          (case map_of (disk w) (parent p) of
             None \<Rightarrow> (Raised FileNotFoundError, w)
           | Some (File c) \<Rightarrow> (Raised NotADirectoryError, w)
           | Some Dir \<Rightarrow>
               if denied e p then (Raised PermissionError, w)
               else (Returned (), w\<lparr>disk := disk w @ [(p, Dir)]\<rparr>)))"

text \<open>\<^verbatim>\<open>with open(p, 'w') as f: f.write(text)\<close>: the file is created or replaced.\<close>

definition write_file :: "env \<Rightarrow> path \<Rightarrow> string \<Rightarrow> world \<Rightarrow> unit res \<times> world" where
  "write_file e p text w =
     (case map_of (disk w) (parent p) of
        None \<Rightarrow> (Raised FileNotFoundError, w)
      | Some (File c) \<Rightarrow> (Raised NotADirectoryError, w)
      | Some Dir \<Rightarrow>
          (case map_of (disk w) p of
             Some Dir \<Rightarrow> (Raised IsADirectoryError, w)
           | other \<Rightarrow>
               if denied e p then (Raised PermissionError, w)
               else (Returned (), w\<lparr>disk := AList.update p (File text) (disk w)\<rparr>)))"

text \<open>\<^verbatim>\<open>with open(p, 'r') as f: f.read()\<close>; the attempt is logged in \<open>opened\<close>.\<close>

definition read_file :: "env \<Rightarrow> path \<Rightarrow> world \<Rightarrow> string res \<times> world" where
  "read_file e p w =
     (let w1 = w\<lparr>opened := opened w @ [p]\<rparr> in
      case map_of (disk w) p of
        None \<Rightarrow> (Raised FileNotFoundError, w1)
      | Some Dir \<Rightarrow> (Raised IsADirectoryError, w1)
      | Some (File text) \<Rightarrow>
          if denied e p then (Raised PermissionError, w1) else (Returned text, w1))"

text \<open>\<^verbatim>\<open>list(Path(d).glob("*.json"))\<close>: the entries of the directory whose name matches,
  in scan order; nothing when \<open>d\<close> is not a directory.\<close>

definition glob_json :: "path \<Rightarrow> world \<Rightarrow> path list" where
  "glob_json d w =
     (case map_of (disk w) d of
        Some Dir \<Rightarrow>
          filter (\<lambda>p. p \<noteq> [] \<and> parent p = d \<and> fnmatch_json (path_name p)) (map fst (disk w))
      | other \<Rightarrow> [])"

subsection \<open>\<^verbatim>\<open>export_data.py\<close>\<close>

definition records_url :: "string \<Rightarrow> string \<Rightarrow> string" where
  "records_url base_url collection_name =
     base_url @ ''/api/collections/'' @ collection_name @ ''/records''"

definition export_collection ::
  "env \<Rightarrow> string \<Rightarrow> string \<Rightarrow> string \<Rightarrow> world \<Rightarrow> bool res \<times> world" where
  "export_collection e base_url collection_name output_dir w =
     (case requests_get e (records_url base_url collection_name) w of
        (Fails x, w1) \<Rightarrow> (Raised x, w1)
      | (Response status_code body, w1) \<Rightarrow>
          if status_code = 200 then
            (case loads e body of
               None \<Rightarrow> (Raised JSONDecodeError, w1)
             | Some data \<Rightarrow>
                 (case write_file e (joinpath (Path output_dir) (collection_name @ ''.json''))
                         (dumps e data) w1 of
                    (Raised x, w2) \<Rightarrow> (Raised x, w2)
                  | (Exited n, w2) \<Rightarrow> (Exited n, w2)
                  | (Returned u, w2) \<Rightarrow>
                      (case dict_get data ''items'' (JArr []) of
                         Inl x \<Rightarrow> (Raised x, w2)
                       | Inr items \<Rightarrow>
                           (case py_len items of
                              Inl x \<Rightarrow> (Raised x, w2)
                            | Inr n \<Rightarrow>
                                (Returned True, print (Exported collection_name n) w2)))))
          else (Returned False, print (ExportFailed collection_name status_code) w1))"

text \<open>The \<^verbatim>\<open>for collection in collections\<close> loop of \<^verbatim>\<open>main\<close>, with its counter.\<close>

fun export_loop ::
  "env \<Rightarrow> string \<Rightarrow> string \<Rightarrow> string list \<Rightarrow> nat \<Rightarrow> world \<Rightarrow> nat res \<times> world" where
  "export_loop e base_url output_dir [] success_count w = (Returned success_count, w)"
| "export_loop e base_url output_dir (collection # rest) success_count w =
     (case export_collection e base_url collection output_dir w of
        (Returned ok, w1) \<Rightarrow>
          export_loop e base_url output_dir rest
            (if ok then success_count + 1 else success_count) w1
      | (Raised x, w1) \<Rightarrow> (Raised x, w1)
      | (Exited n, w1) \<Rightarrow> (Exited n, w1))"

definition collections :: "string list" where
  "collections = [''users'', ''posts'', ''comments'', ''products'', ''orders'']"

text \<open>\<^verbatim>\<open>main\<close> of the exporter; \<open>argv\<close> is \<^verbatim>\<open>sys.argv\<close>, the script name first.\<close>

definition export_main :: "env \<Rightarrow> string list \<Rightarrow> world \<Rightarrow> unit res \<times> world" where
  "export_main e argv w =
     (if length argv < 2 then (Exited 1, print ExportExample (print ExportUsage w))
      else
        let base_url = rstrip_slash (argv ! 1);
            output_dir = (if length argv > 2 then argv ! 2 else ''pocketbase_export'')
        in case mkdir_exist_ok e (Path output_dir) w of
             (Raised x, w1) \<Rightarrow> (Raised x, w1)
           | (Exited n, w1) \<Rightarrow> (Exited n, w1)
           | (Returned u, w1) \<Rightarrow>
               (case export_loop e base_url output_dir collections 0
                       (print Rule (print (ExportBanner base_url output_dir) w1)) of
                  (Raised x, w2) \<Rightarrow> (Raised x, w2)
                | (Exited n, w2) \<Rightarrow> (Exited n, w2)
                | (Returned success_count, w2) \<Rightarrow>
                    (Returned (),
                     print (OutputSaved output_dir)
                       (print (ExportComplete success_count (length collections))
                          (print Rule w2)))))"

subsection \<open>\<^verbatim>\<open>import_data.py\<close>\<close>

text \<open>The three \<^verbatim>\<open>pop\<close> calls at the head of the record loop.\<close>

definition strip_system_fields :: "json \<Rightarrow> exn + json" where
  "strip_system_fields record =
     (case dict_pop record ''id'' of
        Inl x \<Rightarrow> Inl x
      | Inr r1 \<Rightarrow>
          (case dict_pop r1 ''created'' of
             Inl x \<Rightarrow> Inl x
           | Inr r2 \<Rightarrow> dict_pop r2 ''updated''))"

text \<open>The \<^verbatim>\<open>for record in records\<close> loop of \<^verbatim>\<open>import_collection\<close>.\<close>

fun import_records ::
  "env \<Rightarrow> string \<Rightarrow> json list \<Rightarrow> nat \<Rightarrow> world \<Rightarrow> nat res \<times> world" where
  "import_records e url [] success_count w = (Returned success_count, w)"
| "import_records e url (record # rest) success_count w =
     (case strip_system_fields record of
        Inl x \<Rightarrow> (Raised x, w)
      | Inr body \<Rightarrow>
          (case requests_post e url body w of
             (Fails x, w1) \<Rightarrow> (Raised x, w1)
           | (Response status_code text, w1) \<Rightarrow>
               if status_code = 200 \<or> status_code = 201
               then import_records e url rest (success_count + 1) w1
               else import_records e url rest success_count
                      (print (RecordFailed status_code text) w1)))"

definition import_collection ::
  "env \<Rightarrow> string \<Rightarrow> string \<Rightarrow> path \<Rightarrow> world \<Rightarrow> bool res \<times> world" where
  "import_collection e base_url collection_name import_file w =
     (case read_file e import_file w of
        (Raised x, w1) \<Rightarrow> (Raised x, w1)
      | (Exited n, w1) \<Rightarrow> (Exited n, w1)
      | (Returned text, w1) \<Rightarrow>
          (case loads e text of
             None \<Rightarrow> (Raised JSONDecodeError, w1)
           | Some data \<Rightarrow>
               (case dict_get data ''items'' (JArr []) of
                  Inl x \<Rightarrow> (Raised x, w1)
                | Inr records \<Rightarrow>
                    if \<not> truthy records
                    then (Returned True, print (NoRecords collection_name) w1)
                    else
                      (case py_iter records of
                         Inl x \<Rightarrow> (Raised x, w1)
                       | Inr rs \<Rightarrow>
                           (case import_records e (records_url base_url collection_name)
                                   rs 0 w1 of
                              (Raised x, w2) \<Rightarrow> (Raised x, w2)
                            | (Exited n, w2) \<Rightarrow> (Exited n, w2)
                            | (Returned success_count, w2) \<Rightarrow>
                                (case py_len records of
                                   Inl x \<Rightarrow> (Raised x, w2)
                                 | Inr n \<Rightarrow>
                                     (Returned (success_count = n),
                                      print (Imported success_count n collection_name)
                                        w2)))))))"

text \<open>The \<^verbatim>\<open>for json_file in sorted(json_files)\<close> loop of \<^verbatim>\<open>main\<close>.\<close>

fun import_files ::
  "env \<Rightarrow> string \<Rightarrow> path list \<Rightarrow> nat \<Rightarrow> world \<Rightarrow> nat res \<times> world" where
  "import_files e base_url [] success_count w = (Returned success_count, w)"
| "import_files e base_url (json_file # rest) success_count w =
     (case import_collection e base_url (stem (path_name json_file)) json_file w of
        (Returned ok, w1) \<Rightarrow>
          import_files e base_url rest (if ok then success_count + 1 else success_count) w1
      | (Raised x, w1) \<Rightarrow> (Raised x, w1)
      | (Exited n, w1) \<Rightarrow> (Exited n, w1))"

text \<open>\<^verbatim>\<open>main\<close> of the importer.\<close>

definition import_main :: "env \<Rightarrow> string list \<Rightarrow> world \<Rightarrow> unit res \<times> world" where
  "import_main e argv w =
     (if length argv < 3 then (Exited 1, print ImportExample (print ImportUsage w))
      else
        let base_url = rstrip_slash (argv ! 1);
            import_dir = argv ! 2
        in if \<not> path_exists (Path import_dir) w
           then (Exited 1, print (DirMissing import_dir) w)
           else
             let json_files = glob_json (Path import_dir) w
             in if json_files = []
                then (Exited 1, print (NoJsonFiles import_dir) w)
                else
                  (case import_files e base_url (sort json_files) 0
                          (print Rule (print (ImportBanner base_url import_dir) w)) of
                     (Raised x, w1) \<Rightarrow> (Raised x, w1)
                   | (Exited n, w1) \<Rightarrow> (Exited n, w1)
                   | (Returned success_count, w1) \<Rightarrow>
                       (Returned (),
                        print (ImportComplete success_count (length json_files))
                          (print Rule w1))))"

subsection \<open>Vocabulary of the properties\<close>

text \<open>The replies the server gives to the requests \<open>sent\<close>, issued one after the other
  after the requests \<open>earlier\<close>.\<close>

fun replies_to :: "env \<Rightarrow> request list \<Rightarrow> request list \<Rightarrow> reply list" where
  "replies_to e earlier [] = []"
| "replies_to e earlier (rq # later) =
     server e (earlier @ [rq]) # replies_to e (earlier @ [rq]) later"

text \<open>The values that are a \<^verbatim>\<open>dict\<close>.\<close>

fun is_dict :: "json \<Rightarrow> bool" where
  "is_dict (JObj kvs) = True"
| "is_dict v = False"

text \<open>A creation response that counts as a success, and the line printed for one that
  does not.\<close>

fun accepted :: "reply \<Rightarrow> bool" where
  "accepted (Response status_code body) = (status_code = 200 \<or> status_code = 201)"
| "accepted (Fails x) = False"

fun failure_lines :: "reply \<Rightarrow> msg list" where
  "failure_lines (Response status_code body) =
     (if status_code = 200 \<or> status_code = 201 then [] else [RecordFailed status_code body])"
| "failure_lines (Fails x) = []"

text \<open>The body sent for a record (the record itself where the \<^verbatim>\<open>pop\<close> calls
  raise and nothing is sent), the creation requests for a list of records, and the
  replies that are responses.\<close>

definition strip_body :: "json \<Rightarrow> json" where
  "strip_body rcd = (case strip_system_fields rcd of Inr body \<Rightarrow> body | Inl x \<Rightarrow> rcd)"

definition creation_requests :: "string \<Rightarrow> json list \<Rightarrow> request list" where
  "creation_requests url recs = map (\<lambda>rcd. Post url (strip_body rcd)) recs"

fun is_response :: "reply \<Rightarrow> bool" where
  "is_response (Response status_code body) = True"
| "is_response (Fails x) = False"

text \<open>What \<^verbatim>\<open>json.load\<close> gives for a file of the disk (nothing when the file cannot
  be read or is not JSON), the records of a file (the elements of the \<^verbatim>\<open>items\<close>
  array of the object it holds), and the files that \<open>import_collection\<close> can take: those
  holding an object whose \<^verbatim>\<open>items\<close> is absent, an array of objects, or a value that
  \<^verbatim>\<open>not records\<close> takes for empty.\<close>

definition parsed_file :: "env \<Rightarrow> world \<Rightarrow> path \<Rightarrow> json option" where
  "parsed_file e w f =
     (case map_of (disk w) f of
        Some (File content) \<Rightarrow> if denied e f then None else loads e content
      | other \<Rightarrow> None)"

definition file_records :: "env \<Rightarrow> world \<Rightarrow> path \<Rightarrow> json list" where
  "file_records e w f =
     (case parsed_file e w f of
        Some (JObj obj) \<Rightarrow>
          (case map_of obj ''items'' of Some (JArr recs) \<Rightarrow> recs | other \<Rightarrow> [])
      | other \<Rightarrow> [])"

definition importable :: "env \<Rightarrow> world \<Rightarrow> path \<Rightarrow> bool" where
  "importable e w f =
     (case parsed_file e w f of
        Some (JObj obj) \<Rightarrow>
          (case map_of obj ''items'' of
             None \<Rightarrow> True
           | Some (JArr recs) \<Rightarrow> list_all is_dict recs
           | Some v \<Rightarrow> \<not> truthy v)
      | other \<Rightarrow> False)"

text \<open>The values that are a \<^verbatim>\<open>list\<close>, and the summary line of the importer.\<close>

fun is_list :: "json \<Rightarrow> bool" where
  "is_list (JArr xs) = True"
| "is_list v = False"

fun is_import_summary :: "msg \<Rightarrow> bool" where
  "is_import_summary (ImportComplete success_count n) = True"
| "is_import_summary m = False"

text \<open>Files and directories of the disk; the number of elements of the \<^verbatim>\<open>items\<close>
  array of a JSON object (0 when there is none); a response body that the exporter can
  take (a JSON object whose \<^verbatim>\<open>items\<close>, when present, has a length); the line the
  exporter prints for a collection given the reply of the server; the output directory
  chosen on the command line; and what the lines of the exporter say about the world.\<close>

definition is_file :: "path \<Rightarrow> world \<Rightarrow> bool" where
  "is_file p w = (case map_of (disk w) p of Some (File content) \<Rightarrow> True | other \<Rightarrow> False)"

definition is_dir :: "path \<Rightarrow> world \<Rightarrow> bool" where
  "is_dir p w = (map_of (disk w) p = Some Dir)"

text \<open>The paths at which \<^verbatim>\<open>open(p, 'w')\<close> succeeds: the parent is a directory, the
  path itself is not one, and the operating system does not refuse it.\<close>

definition writable :: "env \<Rightarrow> path \<Rightarrow> world \<Rightarrow> bool" where
  "writable e p w = (is_dir (parent p) w \<and> \<not> is_dir p w \<and> \<not> denied e p)"

fun items_count :: "json \<Rightarrow> nat" where
  "items_count (JObj obj) =
     (case map_of obj ''items'' of Some (JArr xs) \<Rightarrow> length xs | other \<Rightarrow> 0)"
| "items_count v = 0"

definition exportable :: "env \<Rightarrow> string \<Rightarrow> bool" where
  "exportable e body =
     (case loads e body of
        Some (JObj obj) \<Rightarrow>
          (case map_of obj ''items'' of
             None \<Rightarrow> True
           | Some v \<Rightarrow> (case py_len v of Inr n \<Rightarrow> True | Inl x \<Rightarrow> False))
      | other \<Rightarrow> False)"

fun export_report :: "string \<Rightarrow> reply \<Rightarrow> msg \<Rightarrow> bool" where
  "export_report c (Response status_code body) m =
     (if status_code = 200 then (case m of Exported c' n \<Rightarrow> c' = c | other \<Rightarrow> False)
      else m = ExportFailed c status_code)"
| "export_report c (Fails x) m = False"

definition output_dir_of :: "string list \<Rightarrow> string" where
  "output_dir_of argv = (if length argv > 2 then argv ! 2 else ''pocketbase_export'')"

fun summary_within :: "msg \<Rightarrow> bool" where
  "summary_within (ExportComplete success_count n) = (success_count \<le> 5 \<and> n = 5)"
| "summary_within m = True"

fun file_written :: "path \<Rightarrow> world \<Rightarrow> msg \<Rightarrow> bool" where
  "file_written out w (Exported c n) = is_file (joinpath out (c @ ''.json'')) w"
| "file_written out w m = True"

fun is_exported :: "msg \<Rightarrow> bool" where
  "is_exported (Exported c n) = True"
| "is_exported m = False"

fun export_line :: "path \<Rightarrow> string list \<Rightarrow> world \<Rightarrow> msg \<Rightarrow> bool" where
  "export_line out cs w (Exported c n) = (c \<in> set cs \<and> is_file (joinpath out (c @ ''.json'')) w)"
| "export_line out cs w (ExportFailed c status_code) = (c \<in> set cs \<and> status_code \<noteq> 200)"
| "export_line out cs w m = False"

subsection \<open>Concrete environments and worlds\<close>

text \<open>A small server, JSON library and disk on which the scripts are run below. The
  server knows the collection \<^verbatim>\<open>users\<close> only and accepts the record named \<^verbatim>\<open>x\<close>
  only; the text \<^verbatim>\<open>U\<close> stands for the JSON document \<open>users_json\<close>.\<close>

definition demo_records :: "json list" where
  "demo_records =
     [JObj [(''id'', JStr ''a''), (''created'', JStr ''c''), (''updated'', JStr ''u''),
            (''name'', JStr ''x'')],
      JObj [(''name'', JStr ''y'')]]"

definition users_json :: json where
  "users_json = JObj [(''items'', JArr demo_records)]"

definition demo_server :: "request list \<Rightarrow> reply" where
  "demo_server sent =
     (case rev sent of
        [] \<Rightarrow> Fails RequestException
      | Get url # earlier \<Rightarrow>
          if url = ''http://pb/api/collections/users/records'' then Response 200 ''U''
          else Response 404 ''NF''
      | Post url body # earlier \<Rightarrow>
          if body = JObj [(''name'', JStr ''x'')] then Response 201 ''ok''
          else Response 400 ''bad'')"

definition demo_loads :: "string \<Rightarrow> json option" where
  "demo_loads s =
     (if s = ''U'' then Some users_json
      else if s = ''E'' then Some (JObj [(''items'', JArr [])])
      else if s = ''M'' then Some (JObj [(''page'', JInt 1)])
      else if s = ''S'' then Some (JObj [(''items'', JArr [JObj [(''name'', JStr ''x'')], JStr ''stray''])])
      else None)"

definition demo_env :: env where
  "demo_env = \<lparr>server = demo_server, loads = demo_loads,
                dumps = (\<lambda>data. if data = users_json then ''U'' else ''?''),
                denied = (\<lambda>p. False)\<rparr>"

definition demo_world :: world where
  "demo_world = \<lparr>disk = [([], Dir), ([''backup''], Dir),
                         ([''backup'', ''users.json''], File ''U''),
                         ([''backup'', ''empty.json''], File ''E''),
                         ([''backup'', ''meta.json''], File ''M'')],
                  stdout = [], requests = [], opened = []\<rparr>"

text \<open>An import directory whose second file in sorted order is not JSON, one whose
  second file holds a record that is a string, the command line of the importer, and
  the worlds reached when the first file of each directory has been imported.\<close>

definition broken_world :: world where
  "broken_world = \<lparr>disk = [([], Dir), ([''backup''], Dir),
                           ([''backup'', ''c.json''], File ''U''),
                           ([''backup'', ''b.json''], File ''{''),
                           ([''backup'', ''a.json''], File ''E'')],
                    stdout = [], requests = [], opened = []\<rparr>"

definition import_argv :: "string list" where
  "import_argv = [''import_data.py'', ''http://pb/'', ''backup'']"

definition broken_world1 :: world where
  "broken_world1 =
     broken_world\<lparr>stdout := [ImportBanner ''http://pb'' ''backup'', Rule, NoRecords ''a''],
       opened := [[''backup'', ''a.json'']]\<rparr>"

definition mixed_world :: world where
  "mixed_world = \<lparr>disk = [([], Dir), ([''backup''], Dir),
                          ([''backup'', ''z.json''], File ''U''),
                          ([''backup'', ''s.json''], File ''S''),
                          ([''backup'', ''a.json''], File ''E'')],
                   stdout = [], requests = [], opened = []\<rparr>"

definition mixed_world1 :: world where
  "mixed_world1 =
     mixed_world\<lparr>stdout := [ImportBanner ''http://pb'' ''backup'', Rule, NoRecords ''a''],
       opened := [[''backup'', ''a.json'']]\<rparr>"

text \<open>The command line of the exporter, the disk before the export and after the
  output directory was made, a server that refuses the connection for the collection
  \<^verbatim>\<open>posts\<close>, and a disk on which the name of the output directory is taken by a
  file.\<close>

definition export_argv :: "string list" where
  "export_argv = [''export_data.py'', ''http://pb/'']"

definition export_world :: world where
  "export_world = \<lparr>disk = [([], Dir)], stdout = [], requests = [], opened = []\<rparr>"

definition flaky_server :: "request list \<Rightarrow> reply" where
  "flaky_server sent =
     (case rev sent of
        Get url # earlier \<Rightarrow>
          if url = ''http://pb/api/collections/posts/records'' then Fails RequestException
          else demo_server sent
      | other \<Rightarrow> demo_server sent)"

definition flaky_env :: env where
  "flaky_env = demo_env\<lparr>server := flaky_server\<rparr>"

definition clash_world :: world where
  "clash_world = \<lparr>disk = [([], Dir), ([''pocketbase_export''], File ''notes'')],
                   stdout = [], requests = [], opened = []\<rparr>"

definition export_world1 :: world where
  "export_world1 = \<lparr>disk = [([], Dir), ([''pocketbase_export''], Dir)],
                     stdout = [], requests = [], opened = []\<rparr>"

text \<open>A server whose answer has \<^verbatim>\<open>null\<close> for its \<^verbatim>\<open>items\<close>.\<close>

definition null_env :: env where
  "null_env = \<lparr>server = (\<lambda>sent. Response 200 ''N''),
                loads = (\<lambda>s. if s = ''N'' then Some (JObj [(''items'', JNull)]) else None),
                dumps = (\<lambda>data. ''N''),
                denied = (\<lambda>p. False)\<rparr>"

section \<open>Properties\<close>

subsection \<open>Projections of the primitive operations\<close>

lemma print_simps [simp]:
  "stdout (print m w) = stdout w @ [m]"
  "requests (print m w) = requests w"
  "disk (print m w) = disk w"
  "opened (print m w) = opened w"
  by (simp_all add: print_def)

lemma requests_post_simps [simp]:
  "fst (requests_post e url body w) = server e (requests w @ [Post url body])"
  "requests (snd (requests_post e url body w)) = requests w @ [Post url body]"
  "stdout (snd (requests_post e url body w)) = stdout w"
  "disk (snd (requests_post e url body w)) = disk w"
  "opened (snd (requests_post e url body w)) = opened w"
  by (simp_all add: requests_post_def Let_def)

lemma requests_get_simps [simp]:
  "fst (requests_get e url w) = server e (requests w @ [Get url])"
  "requests (snd (requests_get e url w)) = requests w @ [Get url]"
  "stdout (snd (requests_get e url w)) = stdout w"
  "disk (snd (requests_get e url w)) = disk w"
  "opened (snd (requests_get e url w)) = opened w"
  by (simp_all add: requests_get_def Let_def)

lemma strip_system_fields_obj:
  "strip_system_fields (JObj kvs) =
     Inr (JObj (AList.delete ''updated'' (AList.delete ''created'' (AList.delete ''id'' kvs))))"
  by (simp add: strip_system_fields_def)

lemma strip_system_fields_Inr:
  "strip_system_fields record = Inr body \<Longrightarrow>
     \<exists>kvs. record = JObj kvs \<and>
       body = JObj (AList.delete ''updated'' (AList.delete ''created'' (AList.delete ''id'' kvs)))"
  by (cases "record") (simp_all add: strip_system_fields_def)

lemma map_of_stripped:
  "map_of (AList.delete ''updated'' (AList.delete ''created'' (AList.delete ''id'' kvs))) key =
     (if key \<in> {''id'', ''created'', ''updated''} then None else map_of kvs key)"
  by (simp add: AList.delete_conv')

subsection \<open>The record loop of the importer\<close>

lemma import_records_requests:
  "import_records e url recs c w = (r, w') \<Longrightarrow>
   \<exists>bodies. length bodies \<le> length recs \<and>
     requests w' = requests w @ map (Post url) bodies \<and>
     list_all2 (\<lambda>record body. strip_system_fields record = Inr body)
       (take (length bodies) recs) bodies \<and>
     ((\<exists>n. r = Returned n) \<longrightarrow> length bodies = length recs)"
proof (induction recs arbitrary: c w)
  case Nil
  then show ?case by simp
next
  case (Cons rcd rest)
  show ?case
  proof (cases "strip_system_fields rcd")
    case (Inl x)
    with Cons.prems have "r = Raised x" "w' = w" by simp_all
    then show ?thesis by (intro exI [of _ "[]"]) simp
  next
    case (Inr body)
    obtain rp w1 where post: "requests_post e url body w = (rp, w1)"
      by (cases "requests_post e url body w")
    have w1: "requests w1 = requests w @ [Post url body]"
      using requests_post_simps(2) [of e url body w] post by simp
    show ?thesis
    proof (cases rp)
      case (Fails x)
      with Cons.prems Inr post have "r = Raised x" "w' = w1" by simp_all
      with w1 Inr show ?thesis by (intro exI [of _ "[body]"]) simp
    next
      case (Response status_code rtext)
      define c1 where "c1 = (if status_code = 200 \<or> status_code = 201 then c + 1 else c)"
      define w2 where "w2 = (if status_code = 200 \<or> status_code = 201 then w1
                              else print (RecordFailed status_code rtext) w1)"
      from Cons.prems Inr post Response
      have "import_records e url rest c1 w2 = (r, w')"
        by (auto simp add: c1_def w2_def split: if_splits)
      from Cons.IH [OF this] obtain bodies where b:
        "length bodies \<le> length rest"
        "requests w' = requests w2 @ map (Post url) bodies"
        "list_all2 (\<lambda>record body. strip_system_fields record = Inr body)
           (take (length bodies) rest) bodies"
        "(\<exists>n. r = Returned n) \<longrightarrow> length bodies = length rest"
        by blast
      have "requests w2 = requests w @ [Post url body]"
        using w1 by (simp add: w2_def)
      with b Inr show ?thesis by (intro exI [of _ "body # bodies"]) simp
    qed
  qed
qed


lemma read_file_ok:
  "map_of (disk w) p = Some (File content) \<Longrightarrow> \<not> denied e p \<Longrightarrow>
     read_file e p w = (Returned content, w\<lparr>opened := opened w @ [p]\<rparr>)"
  by (simp add: read_file_def Let_def)

lemma import_collection_empty:
  assumes "map_of (disk w) f = Some (File content)" and "\<not> denied e f"
    and "loads e content = Some (JObj obj)"
    and "map_of obj ''items'' = None \<or> map_of obj ''items'' = Some (JArr [])"
  shows "import_collection e base_url name f w =
           (Returned True, print (NoRecords name) (w\<lparr>opened := opened w @ [f]\<rparr>))"
  using assms by (auto simp add: import_collection_def read_file_ok)

lemma import_collection_array:
  assumes "map_of (disk w) f = Some (File content)" and "\<not> denied e f"
    and "loads e content = Some (JObj obj)"
    and "map_of obj ''items'' = Some (JArr recs)" and "recs \<noteq> []"
  shows "import_collection e base_url name f w =
           (case import_records e (records_url base_url name) recs 0
                   (w\<lparr>opened := opened w @ [f]\<rparr>) of
              (Returned c, w2) \<Rightarrow>
                (Returned (c = length recs), print (Imported c (length recs) name) w2)
            | (Raised x, w2) \<Rightarrow> (Raised x, w2)
            | (Exited n, w2) \<Rightarrow> (Exited n, w2))"
  using assms by (simp add: import_collection_def read_file_ok split: prod.splits res.splits)

lemma import_records_not_Exited:
  "import_records e url recs c w \<noteq> (Exited n, w')"
proof (induction recs arbitrary: c w)
  case Nil
  show ?case by simp
next
  case (Cons rcd rest)
  show ?case
    using Cons.IH
    by (simp split: sum.splits prod.splits reply.splits)
qed

lemma import_collection_demo:
  "import_collection demo_env ''http://pb'' ''users'' [''backup'', ''users.json''] demo_world =
     (Returned False,
      \<lparr>disk = disk demo_world,
       stdout = [RecordFailed 400 ''bad'', Imported 1 2 ''users''],
       requests = [Post ''http://pb/api/collections/users/records'' (JObj [(''name'', JStr ''x'')]),
                   Post ''http://pb/api/collections/users/records'' (JObj [(''name'', JStr ''y'')])],
       opened = [[''backup'', ''users.json'']]\<rparr>)"
  by (simp add: import_collection_def demo_env_def demo_world_def read_file_def demo_loads_def
      users_json_def demo_records_def strip_system_fields_def requests_post_def demo_server_def
      records_url_def print_def)



subsection \<open>Runs of the importer in which nothing raises\<close>

lemma import_records_total:
  assumes "list_all is_dict recs"
    and "\<forall>earlier url body. \<exists>status_code rtext.
           server e (earlier @ [Post url body]) = Response status_code rtext"
  shows "\<exists>bodies w'. length bodies = length recs \<and>
           import_records e url recs c w =
             (Returned (c + length (filter accepted
                 (replies_to e (requests w) (map (Post url) bodies)))), w') \<and>
           requests w' = requests w @ map (Post url) bodies \<and>
           stdout w' = stdout w @
             concat (map failure_lines (replies_to e (requests w) (map (Post url) bodies))) \<and>
           disk w' = disk w \<and> opened w' = opened w"
  using assms(1)
proof (induction recs arbitrary: c w)
  case Nil
  show ?case by simp
next
  case (Cons rcd rest)
  from Cons.prems have "is_dict rcd" by simp
  then obtain kvs where rcd: "rcd = JObj kvs" by (cases rcd) simp_all
  define body where
    "body = JObj (AList.delete ''updated'' (AList.delete ''created'' (AList.delete ''id'' kvs)))"
  have strip: "strip_system_fields rcd = Inr body"
    by (simp add: rcd body_def strip_system_fields_obj)
  from assms(2) obtain status_code rtext where
    rp: "server e (requests w @ [Post url body]) = Response status_code rtext"
    by blast
  define w1 where "w1 = snd (requests_post e url body w)"
  have post: "requests_post e url body w = (Response status_code rtext, w1)"
    using rp by (simp add: w1_def requests_post_def Let_def)
  define c1 where "c1 = (if status_code = 200 \<or> status_code = 201 then c + 1 else c)"
  define w2 where "w2 = (if status_code = 200 \<or> status_code = 201 then w1
                          else print (RecordFailed status_code rtext) w1)"
  have step: "import_records e url (rcd # rest) c w = import_records e url rest c1 w2"
    using strip post by (auto simp add: c1_def w2_def)
  have w2: "requests w2 = requests w @ [Post url body]" "disk w2 = disk w"
    "opened w2 = opened w"
    "stdout w2 = stdout w @ failure_lines (Response status_code rtext)"
    by (simp_all add: w2_def w1_def)
  from Cons.prems have "list_all is_dict rest" by simp
  from Cons.IH [OF this, of c1 w2] obtain bodies w' where ih:
    "length bodies = length rest"
    "import_records e url rest c1 w2 =
       (Returned (c1 + length (filter accepted
           (replies_to e (requests w2) (map (Post url) bodies)))), w')"
    "requests w' = requests w2 @ map (Post url) bodies"
    "stdout w' = stdout w2 @
       concat (map failure_lines (replies_to e (requests w2) (map (Post url) bodies)))"
    "disk w' = disk w2" "opened w' = opened w2"
    by blast
  have cnt: "c1 + length (filter accepted (replies_to e (requests w2) (map (Post url) bodies)))
      = c + length (filter accepted (replies_to e (requests w) (map (Post url) (body # bodies))))"
    using rp w2(1) by (simp add: c1_def)
  show ?case
    using ih w2 rp cnt step
    by (intro exI [of _ "body # bodies"] exI [of _ w']) simp
qed


lemma replies_to_length [simp]: "length (replies_to e earlier sent) = length sent"
  by (induction sent arbitrary: earlier) simp_all

lemma length_filter_eq_iff: "length (filter P xs) = length xs \<longleftrightarrow> list_all P xs"
proof (induction xs)
  case Nil
  show ?case by simp
next
  case (Cons x xs)
  have "length (filter P xs) \<le> length xs" by simp
  then have "length (filter P xs) \<noteq> Suc (length xs)" by arith
  with Cons show ?case by auto
qed

lemma strip_system_fields_Inl:
  "strip_system_fields rcd = Inl x \<Longrightarrow> \<not> is_dict rcd"
  by (cases "rcd") (simp_all add: strip_system_fields_def)

lemma strip_system_fields_Inr_body:
  "strip_system_fields rcd = Inr body \<Longrightarrow> is_dict rcd \<and> strip_body rcd = body"
  by (cases "rcd") (simp_all add: strip_system_fields_def strip_body_def)

lemma creation_requests_simps [simp]:
  "creation_requests url [] = []"
  "creation_requests url (rcd # recs) = Post url (strip_body rcd) # creation_requests url recs"
  "length (creation_requests url recs) = length recs"
  by (simp_all add: creation_requests_def)

lemma import_records_run:
  "import_records e url recs c w = (r, w') \<Longrightarrow>
   \<exists>k \<le> length recs.
     list_all is_dict (take k recs) \<and>
     requests w' = requests w @ creation_requests url (take k recs) \<and>
     stdout w' = stdout w @
       concat (map failure_lines
         (replies_to e (requests w) (creation_requests url (take k recs)))) \<and>
     (k = length recs \<and>
        list_all is_response (replies_to e (requests w) (creation_requests url (take k recs))) \<and>
        r = Returned (c + length (filter accepted
              (replies_to e (requests w) (creation_requests url (take k recs)))))
      \<or> 0 < k \<and>
        (\<exists>x. last (replies_to e (requests w) (creation_requests url (take k recs))) = Fails x \<and>
             r = Raised x)
      \<or> k < length recs \<and>
        list_all is_response (replies_to e (requests w) (creation_requests url (take k recs))) \<and>
        (\<exists>x. strip_system_fields (recs ! k) = Inl x \<and> r = Raised x))"
proof (induction recs arbitrary: c w)
  case Nil
  then show ?case by simp
next
  case (Cons rcd rest)
  show ?case
  proof (cases "strip_system_fields rcd")
    case (Inl x)
    with Cons.prems have "r = Raised x" "w' = w" by simp_all
    with Inl show ?thesis by (intro exI [of _ 0]) simp
  next
    case (Inr body)
    from strip_system_fields_Inr_body [OF Inr]
    have dict: "is_dict rcd" and body: "strip_body rcd = body" by simp_all
    define w1 where "w1 = snd (requests_post e url body w)"
    have post: "requests_post e url body w = (server e (requests w @ [Post url body]), w1)"
      by (simp add: w1_def requests_post_def Let_def)
    have w1: "requests w1 = requests w @ [Post url body]" "stdout w1 = stdout w"
      by (simp_all add: w1_def)
    show ?thesis
    proof (cases "server e (requests w @ [Post url body])")
      case (Fails x)
      with Cons.prems Inr post have "r = Raised x" "w' = w1" by simp_all
      with w1 Fails dict body show ?thesis by (intro exI [of _ "Suc 0"]) simp
    next
      case (Response status_code rtext)
      define c1 where "c1 = (if status_code = 200 \<or> status_code = 201 then c + 1 else c)"
      define w2 where "w2 = (if status_code = 200 \<or> status_code = 201 then w1
                              else print (RecordFailed status_code rtext) w1)"
      from Cons.prems Inr post Response
      have run: "import_records e url rest c1 w2 = (r, w')"
        by (auto simp add: c1_def w2_def split: if_splits)
      have w2: "requests w2 = requests w @ [Post url body]"
        "stdout w2 = stdout w @ failure_lines (Response status_code rtext)"
        using w1 by (simp_all add: w2_def)
      have c1: "c1 = c + length (filter accepted [Response status_code rtext])"
        by (simp add: c1_def)
      from Cons.IH [OF run] obtain k where k: "k \<le> length rest"
        and ih1: "list_all is_dict (take k rest)"
        and ih2: "requests w' = requests w2 @ creation_requests url (take k rest)"
        and ih3: "stdout w' = stdout w2 @
           concat (map failure_lines
             (replies_to e (requests w2) (creation_requests url (take k rest))))"
        and ih4: "k = length rest \<and>
            list_all is_response (replies_to e (requests w2) (creation_requests url (take k rest))) \<and>
            r = Returned (c1 + length (filter accepted
                  (replies_to e (requests w2) (creation_requests url (take k rest)))))
          \<or> 0 < k \<and>
            (\<exists>x. last (replies_to e (requests w2) (creation_requests url (take k rest))) = Fails x \<and>
                 r = Raised x)
          \<or> k < length rest \<and>
            list_all is_response (replies_to e (requests w2) (creation_requests url (take k rest))) \<and>
            (\<exists>x. strip_system_fields (rest ! k) = Inl x \<and> r = Raised x)"
        by blast
      define rs' where "rs' = replies_to e (requests w2) (creation_requests url (take k rest))"
      have rs: "replies_to e (requests w)
          (creation_requests url (take (Suc k) (rcd # rest))) = Response status_code rtext # rs'"
        using Response w2(1) body by (simp add: rs'_def)
      have len: "length rs' = k"
        using k by (simp add: rs'_def)
      have a: "list_all is_dict (take (Suc k) (rcd # rest))"
        using ih1 dict by simp
      have b: "requests w' = requests w @ creation_requests url (take (Suc k) (rcd # rest))"
        using ih2 w2(1) body by simp
      have d: "stdout w' = stdout w @ concat (map failure_lines (Response status_code rtext # rs'))"
        using ih3 w2(2) by (simp add: rs'_def)
      have f: "Suc k = length (rcd # rest) \<and>
            list_all is_response (Response status_code rtext # rs') \<and>
            r = Returned (c + length (filter accepted (Response status_code rtext # rs')))
          \<or> 0 < Suc k \<and>
            (\<exists>x. last (Response status_code rtext # rs') = Fails x \<and> r = Raised x)
          \<or> Suc k < length (rcd # rest) \<and>
            list_all is_response (Response status_code rtext # rs') \<and>
            (\<exists>x. strip_system_fields ((rcd # rest) ! Suc k) = Inl x \<and> r = Raised x)"
        using ih4 [folded rs'_def]
      proof (elim disjE conjE exE)
        assume "k = length rest" "list_all is_response rs'"
          "r = Returned (c1 + length (filter accepted rs'))"
        then show ?thesis using c1 by simp
      next
        fix x assume "0 < k" "last rs' = Fails x" "r = Raised x"
        moreover from \<open>0 < k\<close> len have "rs' \<noteq> []" by auto
        ultimately show ?thesis by simp
      next
        fix x assume "k < length rest" "list_all is_response rs'"
          "strip_system_fields (rest ! k) = Inl x" "r = Raised x"
        then show ?thesis by simp
      qed
      have le: "Suc k \<le> length (rcd # rest)" using k by simp
      show ?thesis
        apply (intro exI [of _ "Suc k"] conjI)
        subgoal by (rule le)
        subgoal by (rule a)
        subgoal by (rule b)
        subgoal unfolding rs by (rule d)
        subgoal unfolding rs by (rule f)
        done
    qed
  qed
qed


lemma last_replies_to:
  "sent \<noteq> [] \<Longrightarrow> last (replies_to e earlier sent) = server e (earlier @ sent)"
proof (induction sent arbitrary: earlier)
  case Nil
  then show ?case by simp
next
  case (Cons rq sent)
  show ?case
  proof (cases "sent = []")
    case True
    then show ?thesis by simp
  next
    case False
    then have "replies_to e (earlier @ [rq]) sent \<noteq> []"
      by (cases sent) simp_all
    with Cons.IH [OF False, of "earlier @ [rq]"] show ?thesis by simp
  qed
qed

lemma last_Fails_not_all_responses:
  assumes "rs \<noteq> []" and "last rs = Fails x"
  shows "\<not> list_all is_response rs" and "\<not> list_all accepted rs"
proof -
  from assms(1) have "last rs \<in> set rs" by simp
  with assms(2) have "Fails x \<in> set rs" by simp
  moreover have "\<not> is_response (Fails x)" "\<not> accepted (Fails x)" by simp_all
  ultimately show "\<not> list_all is_response rs" and "\<not> list_all accepted rs"
    unfolding list_all_iff by blast+
qed

lemma import_collection_run:
  assumes "map_of (disk w) f = Some (File content)" and "\<not> denied e f"
    and "loads e content = Some (JObj obj)"
    and "map_of obj ''items'' = Some (JArr recs)" and "recs \<noteq> []"
  shows "\<exists>k \<le> length recs.
     list_all is_dict (take k recs) \<and>
     requests (snd (import_collection e base_url name f w)) =
       requests w @ creation_requests (records_url base_url name) (take k recs) \<and>
     stdout (snd (import_collection e base_url name f w)) = stdout w @
       concat (map failure_lines
         (replies_to e (requests w)
            (creation_requests (records_url base_url name) (take k recs)))) @
       (if k = length recs \<and>
           list_all is_response (replies_to e (requests w)
             (creation_requests (records_url base_url name) (take k recs)))
        then [Imported (length (filter accepted (replies_to e (requests w)
                (creation_requests (records_url base_url name) (take k recs)))))
                (length recs) name]
        else []) \<and>
     (k = length recs \<and>
        list_all is_response (replies_to e (requests w)
          (creation_requests (records_url base_url name) (take k recs))) \<and>
        fst (import_collection e base_url name f w) =
          Returned (list_all accepted (replies_to e (requests w)
            (creation_requests (records_url base_url name) (take k recs))))
      \<or> 0 < k \<and>
        (\<exists>x. last (replies_to e (requests w)
                (creation_requests (records_url base_url name) (take k recs))) = Fails x \<and>
             fst (import_collection e base_url name f w) = Raised x)
      \<or> k < length recs \<and>
        list_all is_response (replies_to e (requests w)
          (creation_requests (records_url base_url name) (take k recs))) \<and>
        (\<exists>x. strip_system_fields (recs ! k) = Inl x \<and>
             fst (import_collection e base_url name f w) = Raised x))"
proof -
  define url where "url = records_url base_url name"
  define w0 where "w0 = w\<lparr>opened := opened w @ [f]\<rparr>"
  have w0: "requests w0 = requests w" "stdout w0 = stdout w"
    by (simp_all add: w0_def)
  obtain r w2 where run: "import_records e url recs 0 w0 = (r, w2)"
    by (cases "import_records e url recs 0 w0")
  from import_records_run [OF run] obtain k where k: "k \<le> length recs"
    and dicts: "list_all is_dict (take k recs)"
    and rq: "requests w2 = requests w @ creation_requests url (take k recs)"
    and out: "stdout w2 = stdout w @
       concat (map failure_lines (replies_to e (requests w) (creation_requests url (take k recs))))"
    and tri: "k = length recs \<and>
        list_all is_response (replies_to e (requests w) (creation_requests url (take k recs))) \<and>
        r = Returned (0 + length (filter accepted
              (replies_to e (requests w) (creation_requests url (take k recs)))))
      \<or> 0 < k \<and>
        (\<exists>x. last (replies_to e (requests w) (creation_requests url (take k recs))) = Fails x \<and>
             r = Raised x)
      \<or> k < length recs \<and>
        list_all is_response (replies_to e (requests w) (creation_requests url (take k recs))) \<and>
        (\<exists>x. strip_system_fields (recs ! k) = Inl x \<and> r = Raised x)"
    unfolding w0 by blast
  define rs where "rs = replies_to e (requests w) (creation_requests url (take k recs))"
  have len: "length rs = k" using k by (simp add: rs_def)
  have ic: "import_collection e base_url name f w =
      (case (r, w2) of
         (Returned c, w2) \<Rightarrow>
           (Returned (c = length recs), print (Imported c (length recs) name) w2)
       | (Raised x, w2) \<Rightarrow> (Raised x, w2)
       | (Exited n, w2) \<Rightarrow> (Exited n, w2))"
    using import_collection_array [OF assms, of base_url name] run
    by (simp add: w0_def url_def)
  have goal: "requests (snd (import_collection e base_url name f w)) =
       requests w @ creation_requests url (take k recs) \<and>
     stdout (snd (import_collection e base_url name f w)) = stdout w @
       concat (map failure_lines rs) @
       (if k = length recs \<and> list_all is_response rs
        then [Imported (length (filter accepted rs)) (length recs) name] else []) \<and>
     (k = length recs \<and> list_all is_response rs \<and>
        fst (import_collection e base_url name f w) = Returned (list_all accepted rs)
      \<or> 0 < k \<and>
        (\<exists>x. last rs = Fails x \<and> fst (import_collection e base_url name f w) = Raised x)
      \<or> k < length recs \<and> list_all is_response rs \<and>
        (\<exists>x. strip_system_fields (recs ! k) = Inl x \<and>
             fst (import_collection e base_url name f w) = Raised x))"
    using tri [folded rs_def]
  proof (elim disjE conjE exE)
    assume a: "k = length recs" "list_all is_response rs"
      "r = Returned (0 + length (filter accepted rs))"
    have "(length (filter accepted rs) = length recs) = list_all accepted rs"
      using length_filter_eq_iff [of accepted rs] len a(1) by simp
    with a rq out show ?thesis
      by (simp add: ic rs_def)
  next
    fix x assume a: "0 < k" "last rs = Fails x" "r = Raised x"
    from a(1) len have "rs \<noteq> []" by auto
    from last_Fails_not_all_responses(1) [OF this a(2)] a rq out show ?thesis
      by (simp add: ic rs_def)
  next
    fix x assume a: "k < length recs" "list_all is_response rs"
      "strip_system_fields (recs ! k) = Inl x" "r = Raised x"
    with rq out show ?thesis
      by (simp add: ic rs_def)
  qed
  show ?thesis
    apply (intro exI [of _ k] conjI)
    subgoal by (rule k)
    subgoal by (rule dicts)
    subgoal using goal by (simp add: url_def)
    subgoal using goal by (simp add: url_def rs_def)
    subgoal using goal unfolding url_def rs_def by blast
    done
qed


lemma replies_all_responses:
  assumes "\<forall>earlier url body. is_response (server e (earlier @ [Post url body]))"
  shows "list_all is_response (replies_to e earlier (creation_requests url recs))"
  using assms by (induction recs arbitrary: earlier) simp_all

lemma strip_body_dict:
  assumes "is_dict rcd"
  shows "\<exists>kvs kvs'. rcd = JObj kvs \<and> strip_system_fields rcd = Inr (JObj kvs') \<and>
     strip_body rcd = JObj kvs' \<and>
     (\<forall>key. map_of kvs' key =
        (if key \<in> {''id'', ''created'', ''updated''} then None else map_of kvs key))"
proof -
  from assms obtain kvs where rcd: "rcd = JObj kvs" by (cases rcd) simp_all
  define kvs' where
    "kvs' = AList.delete ''updated'' (AList.delete ''created'' (AList.delete ''id'' kvs))"
  have "strip_system_fields rcd = Inr (JObj kvs')"
    by (simp add: rcd kvs'_def strip_system_fields_obj)
  moreover from this have "strip_body rcd = JObj kvs'"
    by (simp add: strip_body_def)
  moreover have "\<forall>key. map_of kvs' key =
        (if key \<in> {''id'', ''created'', ''updated''} then None else map_of kvs key)"
    unfolding kvs'_def using map_of_stripped by blast
  ultimately show ?thesis using rcd by blast
qed

text \<open>
  Claim C2. The three \<^verbatim>\<open>pop\<close> calls succeed on every JSON object, whether or not it
  has the keys, and give the object without the keys \<^verbatim>\<open>id\<close>, \<^verbatim>\<open>created\<close> and
  \<^verbatim>\<open>updated\<close>: looking up one of the three in the result finds nothing, and every
  other key has the value it had. Let the collection file parse to a JSON object whose
  \<^verbatim>\<open>items\<close> is a sequence \<open>recs\<close>. The requests that \<open>import_collection\<close> issues
  are creation requests to the records URL of the collection, one for each of the
  first \<open>k\<close> records, in order, each with the stripped record as its body. All records
  are sent (\<open>k\<close> is the length of \<open>recs\<close>) unless the last request sent raised, or the
  record after the last one sent is not a JSON object.
\<close>

theorem import_strips_system_fields:
  assumes "map_of (disk w) import_file = Some (File content)"
    and "\<not> denied e import_file"
    and "loads e content = Some (JObj obj)"
    and "map_of obj ''items'' = Some (JArr recs)"
  shows "(\<forall>kvs. \<exists>kvs'. strip_system_fields (JObj kvs) = Inr (JObj kvs') \<and>
       (\<forall>key. map_of kvs' key =
          (if key \<in> {''id'', ''created'', ''updated''} then None else map_of kvs key))) \<and>
   (\<exists>k \<le> length recs.
      requests (snd (import_collection e base_url name import_file w)) =
        requests w @ map (\<lambda>rcd. Post (records_url base_url name) (strip_body rcd)) (take k recs) \<and>
      list_all
        (\<lambda>rcd. \<exists>kvs kvs'. rcd = JObj kvs \<and> strip_system_fields rcd = Inr (JObj kvs') \<and>
           strip_body rcd = JObj kvs' \<and>
           (\<forall>key. map_of kvs' key =
              (if key \<in> {''id'', ''created'', ''updated''} then None else map_of kvs key)))
        (take k recs) \<and>
      (k = length recs
       \<or> 0 < k \<and>
         (\<exists>x. server e (requests (snd (import_collection e base_url name import_file w))) =
                Fails x)
       \<or> k < length recs \<and> \<not> is_dict (recs ! k)))"
proof (intro conjI allI)
  fix kvs
  from strip_body_dict [of "JObj kvs"]
  show "\<exists>kvs'. strip_system_fields (JObj kvs) = Inr (JObj kvs') \<and>
       (\<forall>key. map_of kvs' key =
          (if key \<in> {''id'', ''created'', ''updated''} then None else map_of kvs key))"
    by auto
next
  define url where "url = records_url base_url name"
  define R where "R = import_collection e base_url name import_file w"
  have stripped: "list_all
        (\<lambda>rcd. \<exists>kvs kvs'. rcd = JObj kvs \<and> strip_system_fields rcd = Inr (JObj kvs') \<and>
           strip_body rcd = JObj kvs' \<and>
           (\<forall>key. map_of kvs' key =
              (if key \<in> {''id'', ''created'', ''updated''} then None else map_of kvs key))) xs"
    if "list_all is_dict xs" for xs
    using that strip_body_dict unfolding list_all_iff by blast
  have "\<exists>k \<le> length recs.
      requests (snd R) = requests w @ map (\<lambda>rcd. Post url (strip_body rcd)) (take k recs) \<and>
      list_all is_dict (take k recs) \<and>
      (k = length recs \<or> 0 < k \<and> (\<exists>x. server e (requests (snd R)) = Fails x)
       \<or> k < length recs \<and> \<not> is_dict (recs ! k))"
  proof (cases "recs = []")
    case True
    with assms have "R = (Returned True, print (NoRecords name)
        (w\<lparr>opened := opened w @ [import_file]\<rparr>))"
      unfolding R_def by (intro import_collection_empty) auto
    with True show ?thesis by (intro exI [of _ 0]) simp
  next
    case False
    from import_collection_run [OF assms False, of base_url name, folded url_def R_def]
    obtain k where k: "k \<le> length recs"
      and dicts: "list_all is_dict (take k recs)"
      and rq: "requests (snd R) = requests w @ creation_requests url (take k recs)"
      and tri: "k = length recs \<and>
          list_all is_response (replies_to e (requests w) (creation_requests url (take k recs))) \<and>
          fst R = Returned (list_all accepted (replies_to e (requests w)
              (creation_requests url (take k recs))))
        \<or> 0 < k \<and>
          (\<exists>x. last (replies_to e (requests w) (creation_requests url (take k recs))) = Fails x \<and>
               fst R = Raised x)
        \<or> k < length recs \<and>
          list_all is_response (replies_to e (requests w) (creation_requests url (take k recs))) \<and>
          (\<exists>x. strip_system_fields (recs ! k) = Inl x \<and> fst R = Raised x)"
      by blast
    have lastrp: "last (replies_to e (requests w) (creation_requests url (take k recs))) =
        server e (requests (snd R))" if "0 < k"
    proof -
      from that k have "creation_requests url (take k recs) \<noteq> []"
        by (auto simp add: creation_requests_def)
      from last_replies_to [OF this] rq show ?thesis by simp
    qed
    have stop: "k = length recs \<or> 0 < k \<and> (\<exists>x. server e (requests (snd R)) = Fails x)
       \<or> k < length recs \<and> \<not> is_dict (recs ! k)"
      using tri lastrp strip_system_fields_Inl by metis
    from k rq dicts stop show ?thesis
      by (intro exI [of _ k]) (simp add: creation_requests_def)
  qed
  then obtain k where "k \<le> length recs"
    "requests (snd R) = requests w @ map (\<lambda>rcd. Post url (strip_body rcd)) (take k recs)"
    "list_all is_dict (take k recs)"
    "k = length recs \<or> 0 < k \<and> (\<exists>x. server e (requests (snd R)) = Fails x)
       \<or> k < length recs \<and> \<not> is_dict (recs ! k)"
    by blast
  with stripped [of "take k recs"]
  show "\<exists>k \<le> length recs.
      requests (snd (import_collection e base_url name import_file w)) =
        requests w @ map (\<lambda>rcd. Post (records_url base_url name) (strip_body rcd)) (take k recs) \<and>
      list_all
        (\<lambda>rcd. \<exists>kvs kvs'. rcd = JObj kvs \<and> strip_system_fields rcd = Inr (JObj kvs') \<and>
           strip_body rcd = JObj kvs' \<and>
           (\<forall>key. map_of kvs' key =
              (if key \<in> {''id'', ''created'', ''updated''} then None else map_of kvs key)))
        (take k recs) \<and>
      (k = length recs
       \<or> 0 < k \<and>
         (\<exists>x. server e (requests (snd (import_collection e base_url name import_file w))) =
                Fails x)
       \<or> k < length recs \<and> \<not> is_dict (recs ! k))"
    unfolding R_def url_def by blast
qed


theorem import_strips_system_fields_witness:
  "map_of (disk demo_world) [''backup'', ''users.json''] = Some (File ''U'') \<and>
   \<not> denied demo_env [''backup'', ''users.json''] \<and>
   loads demo_env ''U'' = Some (JObj [(''items'', JArr demo_records)]) \<and>
   map_of [(''items'', JArr demo_records)] ''items'' = Some (JArr demo_records) \<and>
   (\<forall>kvs. \<exists>kvs'. strip_system_fields (JObj kvs) = Inr (JObj kvs') \<and>
       (\<forall>key. map_of kvs' key =
          (if key \<in> {''id'', ''created'', ''updated''} then None else map_of kvs key))) \<and>
   (\<exists>k \<le> length demo_records.
      requests (snd (import_collection demo_env ''http://pb'' ''users''
                       [''backup'', ''users.json''] demo_world)) =
        requests demo_world @
          map (\<lambda>rcd. Post (records_url ''http://pb'' ''users'') (strip_body rcd))
            (take k demo_records) \<and>
      list_all
        (\<lambda>rcd. \<exists>kvs kvs'. rcd = JObj kvs \<and> strip_system_fields rcd = Inr (JObj kvs') \<and>
           strip_body rcd = JObj kvs' \<and>
           (\<forall>key. map_of kvs' key =
              (if key \<in> {''id'', ''created'', ''updated''} then None else map_of kvs key)))
        (take k demo_records) \<and>
      (k = length demo_records
       \<or> 0 < k \<and>
         (\<exists>x. server demo_env
                 (requests (snd (import_collection demo_env ''http://pb'' ''users''
                                   [''backup'', ''users.json''] demo_world))) = Fails x)
       \<or> k < length demo_records \<and> \<not> is_dict (demo_records ! k)))"
proof -
  have h1: "map_of (disk demo_world) [''backup'', ''users.json''] = Some (File ''U'')"
    by (simp add: demo_world_def)
  have h2: "\<not> denied demo_env [''backup'', ''users.json'']"
    by (simp add: demo_env_def)
  have h3: "loads demo_env ''U'' = Some (JObj [(''items'', JArr demo_records)])"
    by (simp add: demo_env_def demo_loads_def users_json_def)
  have h4: "map_of [(''items'', JArr demo_records)] ''items'' = Some (JArr demo_records)"
    by simp
  note t = import_strips_system_fields [OF h1 h2 h3 h4, of "''http://pb''" "''users''"]
  show ?thesis
    by (intro conjI h1 h2 h3 h4 t [THEN conjunct1] t [THEN conjunct2])
qed

lemma strip_demo_records:
  "map strip_body demo_records = [JObj [(''name'', JStr ''x'')], JObj [(''name'', JStr ''y'')]]"
  by (simp add: demo_records_def strip_body_def strip_system_fields_def)

text \<open>
  Claim C4. Let the collection file parse to a JSON object whose \<^verbatim>\<open>items\<close> is a
  non-empty sequence \<open>recs\<close>, and let \<open>k\<close> be the number of creation requests sent.
  \<open>import_collection\<close> returns True exactly when a request was sent for every record
  and every reply has status 200 or 201; it returns at all exactly when a request was
  sent for every record and none raised, and its result is then whether all replies
  were accepted. For every reply with another status one line with the status and the
  response text is printed, in order, and a run that returns ends with the line giving
  the number of accepted records out of the number of records. A reply with another
  status never stops the loop: fewer than all records are sent only when a request
  raised or the next record is not a JSON object, and then the call ends with an
  exception. When all records are objects and no request raises, the call returns.
\<close>

theorem import_collection_success_iff:
  assumes "map_of (disk w) import_file = Some (File content)"
    and "\<not> denied e import_file"
    and "loads e content = Some (JObj obj)"
    and "map_of obj ''items'' = Some (JArr recs)"
    and "recs \<noteq> []"
  shows "\<exists>k \<le> length recs.
     requests (snd (import_collection e base_url name import_file w)) =
       requests w @ creation_requests (records_url base_url name) (take k recs) \<and>
     (fst (import_collection e base_url name import_file w) = Returned True \<longleftrightarrow>
        k = length recs \<and>
        list_all accepted (replies_to e (requests w)
          (creation_requests (records_url base_url name) (take k recs)))) \<and>
     (\<forall>ok. fst (import_collection e base_url name import_file w) = Returned ok \<longleftrightarrow>
        k = length recs \<and>
        list_all is_response (replies_to e (requests w)
          (creation_requests (records_url base_url name) (take k recs))) \<and>
        ok = list_all accepted (replies_to e (requests w)
          (creation_requests (records_url base_url name) (take k recs)))) \<and>
     stdout (snd (import_collection e base_url name import_file w)) = stdout w @
       concat (map failure_lines
         (replies_to e (requests w)
            (creation_requests (records_url base_url name) (take k recs)))) @
       (if k = length recs \<and>
           list_all is_response (replies_to e (requests w)
             (creation_requests (records_url base_url name) (take k recs)))
        then [Imported (length (filter accepted (replies_to e (requests w)
                (creation_requests (records_url base_url name) (take k recs)))))
                (length recs) name]
        else []) \<and>
     (k = length recs \<and>
        list_all is_response (replies_to e (requests w)
          (creation_requests (records_url base_url name) (take k recs)))
      \<or> 0 < k \<and>
        (\<exists>x. last (replies_to e (requests w)
                (creation_requests (records_url base_url name) (take k recs))) = Fails x \<and>
             fst (import_collection e base_url name import_file w) = Raised x)
      \<or> k < length recs \<and> \<not> is_dict (recs ! k) \<and>
        (\<exists>x. fst (import_collection e base_url name import_file w) = Raised x)) \<and>
     (list_all is_dict recs \<and>
      (\<forall>earlier url body. is_response (server e (earlier @ [Post url body])))
      \<longrightarrow> k = length recs \<and>
          (\<exists>ok. fst (import_collection e base_url name import_file w) = Returned ok))"
proof -
  define url where "url = records_url base_url name"
  define R where "R = import_collection e base_url name import_file w"
  from import_collection_run [OF assms, of base_url name, folded url_def R_def]
  obtain k where k: "k \<le> length recs"
    and dicts: "list_all is_dict (take k recs)"
    and rq: "requests (snd R) = requests w @ creation_requests url (take k recs)"
    and out: "stdout (snd R) = stdout w @
       concat (map failure_lines
         (replies_to e (requests w) (creation_requests url (take k recs)))) @
       (if k = length recs \<and>
           list_all is_response (replies_to e (requests w) (creation_requests url (take k recs)))
        then [Imported (length (filter accepted (replies_to e (requests w)
                (creation_requests url (take k recs))))) (length recs) name]
        else [])"
    and tri: "k = length recs \<and>
        list_all is_response (replies_to e (requests w) (creation_requests url (take k recs))) \<and>
        fst R = Returned (list_all accepted (replies_to e (requests w)
            (creation_requests url (take k recs))))
      \<or> 0 < k \<and>
        (\<exists>x. last (replies_to e (requests w) (creation_requests url (take k recs))) = Fails x \<and>
             fst R = Raised x)
      \<or> k < length recs \<and>
        list_all is_response (replies_to e (requests w) (creation_requests url (take k recs))) \<and>
        (\<exists>x. strip_system_fields (recs ! k) = Inl x \<and> fst R = Raised x)"
    by blast
  define rs where "rs = replies_to e (requests w) (creation_requests url (take k recs))"
  have len: "length rs = k" using k by (simp add: rs_def)
  have acc: "list_all accepted rs \<Longrightarrow> list_all is_response rs"
  proof -
    have "is_response rp" if "accepted rp" for rp using that by (cases rp) simp_all
    then show "list_all accepted rs \<Longrightarrow> list_all is_response rs"
      by (auto simp add: list_all_iff)
  qed
  note tri' = tri [folded rs_def]
  have iff_all: "\<forall>ok. fst R = Returned ok \<longleftrightarrow>
        k = length recs \<and> list_all is_response rs \<and> ok = list_all accepted rs"
    using tri'
  proof (elim disjE conjE exE)
    assume "k = length recs" "list_all is_response rs" "fst R = Returned (list_all accepted rs)"
    then show ?thesis by auto
  next
    fix x assume a: "0 < k" "last rs = Fails x" "fst R = Raised x"
    from a(1) len have "rs \<noteq> []" by auto
    from last_Fails_not_all_responses(1) [OF this a(2)] a(3) show ?thesis by simp
  next
    fix x assume "k < length recs" "fst R = Raised x"
    then show ?thesis by simp
  qed
  have iff_true: "fst R = Returned True \<longleftrightarrow> k = length recs \<and> list_all accepted rs"
    using iff_all acc by auto
  have stop: "k = length recs \<and> list_all is_response rs
      \<or> 0 < k \<and> (\<exists>x. last rs = Fails x \<and> fst R = Raised x)
      \<or> k < length recs \<and> \<not> is_dict (recs ! k) \<and> (\<exists>x. fst R = Raised x)"
    using tri' strip_system_fields_Inl by blast
  have total: "list_all is_dict recs \<and>
      (\<forall>earlier url body. is_response (server e (earlier @ [Post url body])))
      \<longrightarrow> k = length recs \<and> (\<exists>ok. fst R = Returned ok)"
  proof (intro impI, elim conjE)
    assume d: "list_all is_dict recs"
      and srv: "\<forall>earlier url body. is_response (server e (earlier @ [Post url body]))"
    from replies_all_responses [OF srv] have all: "list_all is_response rs"
      by (simp add: rs_def)
    from tri' show "k = length recs \<and> (\<exists>ok. fst R = Returned ok)"
    proof (elim disjE conjE exE)
      assume "k = length recs" "fst R = Returned (list_all accepted rs)"
      then show ?thesis by blast
    next
      fix x assume a: "0 < k" "last rs = Fails x"
      from a(1) len have "rs \<noteq> []" by auto
      from last_Fails_not_all_responses(1) [OF this a(2)] all show ?thesis by simp
    next
      fix x assume a: "k < length recs" "strip_system_fields (recs ! k) = Inl x"
      from d a(1) have "is_dict (recs ! k)" by (simp add: list_all_length)
      with strip_system_fields_Inl [OF a(2)] show ?thesis by simp
    qed
  qed
  show ?thesis
    unfolding R_def [symmetric] url_def [symmetric]
    apply (intro exI [of _ k] conjI)
    subgoal by (rule k)
    subgoal by (rule rq)
    subgoal unfolding rs_def [symmetric] by (rule iff_true)
    subgoal unfolding rs_def [symmetric] by (rule iff_all)
    subgoal by (rule out)
    subgoal unfolding rs_def [symmetric] by (rule stop)
    subgoal by (rule total)
    done
qed


theorem import_collection_success_iff_witness:
  "map_of (disk demo_world) [''backup'', ''users.json''] = Some (File ''U'') \<and>
   \<not> denied demo_env [''backup'', ''users.json''] \<and>
   loads demo_env ''U'' = Some (JObj [(''items'', JArr demo_records)]) \<and>
   map_of [(''items'', JArr demo_records)] ''items'' = Some (JArr demo_records) \<and>
   demo_records \<noteq> [] \<and>
   fst (import_collection demo_env ''http://pb'' ''users'' [''backup'', ''users.json'']
          demo_world) = Returned False \<and>
   (\<exists>k \<le> length demo_records.
     requests (snd (import_collection demo_env ''http://pb'' ''users''
                      [''backup'', ''users.json''] demo_world)) =
       requests demo_world @
         creation_requests (records_url ''http://pb'' ''users'') (take k demo_records) \<and>
     (fst (import_collection demo_env ''http://pb'' ''users'' [''backup'', ''users.json'']
             demo_world) = Returned True \<longleftrightarrow>
        k = length demo_records \<and>
        list_all accepted (replies_to demo_env (requests demo_world)
          (creation_requests (records_url ''http://pb'' ''users'') (take k demo_records)))) \<and>
     (\<forall>ok. fst (import_collection demo_env ''http://pb'' ''users'' [''backup'', ''users.json'']
                  demo_world) = Returned ok \<longleftrightarrow>
        k = length demo_records \<and>
        list_all is_response (replies_to demo_env (requests demo_world)
          (creation_requests (records_url ''http://pb'' ''users'') (take k demo_records))) \<and>
        ok = list_all accepted (replies_to demo_env (requests demo_world)
          (creation_requests (records_url ''http://pb'' ''users'') (take k demo_records)))) \<and>
     stdout (snd (import_collection demo_env ''http://pb'' ''users''
                    [''backup'', ''users.json''] demo_world)) = stdout demo_world @
       concat (map failure_lines
         (replies_to demo_env (requests demo_world)
            (creation_requests (records_url ''http://pb'' ''users'') (take k demo_records)))) @
       (if k = length demo_records \<and>
           list_all is_response (replies_to demo_env (requests demo_world)
             (creation_requests (records_url ''http://pb'' ''users'') (take k demo_records)))
        then [Imported (length (filter accepted (replies_to demo_env (requests demo_world)
                (creation_requests (records_url ''http://pb'' ''users'') (take k demo_records)))))
                (length demo_records) ''users'']
        else []) \<and>
     (k = length demo_records \<and>
        list_all is_response (replies_to demo_env (requests demo_world)
          (creation_requests (records_url ''http://pb'' ''users'') (take k demo_records)))
      \<or> 0 < k \<and>
        (\<exists>x. last (replies_to demo_env (requests demo_world)
                (creation_requests (records_url ''http://pb'' ''users'') (take k demo_records))) =
              Fails x \<and>
             fst (import_collection demo_env ''http://pb'' ''users''
                    [''backup'', ''users.json''] demo_world) = Raised x)
      \<or> k < length demo_records \<and> \<not> is_dict (demo_records ! k) \<and>
        (\<exists>x. fst (import_collection demo_env ''http://pb'' ''users''
                    [''backup'', ''users.json''] demo_world) = Raised x)) \<and>
     (list_all is_dict demo_records \<and>
      (\<forall>earlier url body. is_response (server demo_env (earlier @ [Post url body])))
      \<longrightarrow> k = length demo_records \<and>
          (\<exists>ok. fst (import_collection demo_env ''http://pb'' ''users''
                       [''backup'', ''users.json''] demo_world) = Returned ok)))"
proof -
  have h1: "map_of (disk demo_world) [''backup'', ''users.json''] = Some (File ''U'')"
    by (simp add: demo_world_def)
  have h2: "\<not> denied demo_env [''backup'', ''users.json'']"
    by (simp add: demo_env_def)
  have h3: "loads demo_env ''U'' = Some (JObj [(''items'', JArr demo_records)])"
    by (simp add: demo_env_def demo_loads_def users_json_def)
  have h4: "map_of [(''items'', JArr demo_records)] ''items'' = Some (JArr demo_records)"
    by simp
  have h5: "demo_records \<noteq> []"
    by (simp add: demo_records_def)
  have h6: "fst (import_collection demo_env ''http://pb'' ''users'' [''backup'', ''users.json'']
          demo_world) = Returned False"
    by (simp add: import_collection_demo)
  show ?thesis
    by (intro conjI h1 h2 h3 h4 h5 h6
          import_collection_success_iff [OF h1 h2 h3 h4 h5, of "''http://pb''" "''users''"])
qed

subsection \<open>Collections without records\<close>

text \<open>
  Claim C3, as the code has it. Let the collection file parse to a JSON object whose
  \<^verbatim>\<open>items\<close> is absent or an empty sequence. Then \<open>import_collection\<close> returns True
  without issuing a request, the only line it prints is \<^verbatim>\<open>No records found in\<close>
  followed by the collection name, and the loop of \<^verbatim>\<open>main\<close> goes on to the other
  files with its success counter increased by one.
\<close>

theorem import_collection_no_records:
  assumes "map_of (disk w) import_file = Some (File content)"
    and "\<not> denied e import_file"
    and "loads e content = Some (JObj obj)"
    and "map_of obj ''items'' = None \<or> map_of obj ''items'' = Some (JArr [])"
  shows "\<exists>w'.
     import_collection e base_url (stem (path_name import_file)) import_file w =
       (Returned True, w') \<and>
     requests w' = requests w \<and>
     stdout w' = stdout w @ [NoRecords (stem (path_name import_file))] \<and>
     import_files e base_url (import_file # rest) success_count w =
       import_files e base_url rest (success_count + 1) w'"
proof -
  define w1 where "w1 = print (NoRecords (stem (path_name import_file)))
                          (w\<lparr>opened := opened w @ [import_file]\<rparr>)"
  have run: "import_collection e base_url (stem (path_name import_file)) import_file w =
      (Returned True, w1)"
    using import_collection_empty [OF assms] by (simp add: w1_def)
  have "requests w1 = requests w"
    and "stdout w1 = stdout w @ [NoRecords (stem (path_name import_file))]"
    by (simp_all add: w1_def)
  moreover have "import_files e base_url (import_file # rest) success_count w =
      import_files e base_url rest (success_count + 1) w1"
    using run by simp
  ultimately show ?thesis
    using run by (intro exI [of _ w1]) simp
qed

theorem import_collection_no_records_witness:
  "map_of (disk demo_world) [''backup'', ''meta.json''] = Some (File ''M'') \<and>
   \<not> denied demo_env [''backup'', ''meta.json''] \<and>
   loads demo_env ''M'' = Some (JObj [(''page'', JInt 1)]) \<and>
   (map_of [(''page'', JInt 1)] ''items'' = None \<or>
    map_of [(''page'', JInt 1)] ''items'' = Some (JArr [])) \<and>
   (\<exists>w'.
     import_collection demo_env ''http://pb'' (stem (path_name [''backup'', ''meta.json'']))
         [''backup'', ''meta.json''] demo_world = (Returned True, w') \<and>
     requests w' = requests demo_world \<and>
     stdout w' = stdout demo_world @ [NoRecords (stem (path_name [''backup'', ''meta.json'']))] \<and>
     import_files demo_env ''http://pb'' [[''backup'', ''meta.json'']] 0 demo_world =
       import_files demo_env ''http://pb'' [] (0 + 1) w')"
proof -
  have h1: "map_of (disk demo_world) [''backup'', ''meta.json''] = Some (File ''M'')"
    by (simp add: demo_world_def)
  have h2: "\<not> denied demo_env [''backup'', ''meta.json'']"
    by (simp add: demo_env_def)
  have h3: "loads demo_env ''M'' = Some (JObj [(''page'', JInt 1)])"
    by (simp add: demo_env_def demo_loads_def)
  have h4: "map_of [(''page'', JInt 1)] ''items'' = None \<or>
    map_of [(''page'', JInt 1)] ''items'' = Some (JArr [])"
    by simp
  show ?thesis
    by (intro conjI h1 h2 h3 h4
          import_collection_no_records [OF h1 h2 h3 h4, of "''http://pb''" "[]" 0])
qed

text \<open>
  Claim C3 as stated fails: on the file \<^verbatim>\<open>empty.json\<close>, whose \<^verbatim>\<open>items\<close> is the
  empty sequence, the importer prints the line \<^verbatim>\<open>No records found in empty\<close> and no
  line reporting 0/0 records.
\<close>

theorem import_collection_empty_prints_no_count:
  "import_collection demo_env ''http://pb'' ''empty'' [''backup'', ''empty.json''] demo_world =
     (Returned True,
      demo_world\<lparr>stdout := [NoRecords ''empty''], opened := [[''backup'', ''empty.json'']]\<rparr>) \<and>
   Imported 0 0 ''empty'' \<notin>
     set (stdout (snd (import_collection demo_env ''http://pb'' ''empty''
                         [''backup'', ''empty.json''] demo_world)))"
  by (simp add: import_collection_def read_file_def demo_env_def demo_world_def demo_loads_def
      print_def)



subsection \<open>What a run of the importer touches\<close>

lemma read_file_simps [simp]:
  "opened (snd (read_file e p w)) = opened w @ [p]"
  "disk (snd (read_file e p w)) = disk w"
  "requests (snd (read_file e p w)) = requests w"
  "stdout (snd (read_file e p w)) = stdout w"
  by (simp_all add: read_file_def Let_def split: option.splits node.splits)

lemma import_records_frame:
  "import_records e url recs c w = (r, w') \<Longrightarrow>
     disk w' = disk w \<and> opened w' = opened w \<and>
     (\<exists>ms. stdout w' = stdout w @ ms \<and> \<not> list_ex is_import_summary ms)"
proof (induction recs arbitrary: c w)
  case Nil
  then show ?case by auto
next
  case (Cons rcd rest)
  show ?case
  proof (cases "strip_system_fields rcd")
    case (Inl x)
    with Cons.prems show ?thesis by auto
  next
    case (Inr body)
    define w1 where "w1 = snd (requests_post e url body w)"
    have post: "requests_post e url body w = (server e (requests w @ [Post url body]), w1)"
      by (simp add: w1_def requests_post_def Let_def)
    have w1: "disk w1 = disk w" "opened w1 = opened w" "stdout w1 = stdout w"
      by (simp_all add: w1_def)
    show ?thesis
    proof (cases "server e (requests w @ [Post url body])")
      case (Fails x)
      with Cons.prems Inr post w1 show ?thesis by auto
    next
      case (Response status_code rtext)
      show ?thesis
      proof (cases "status_code = 200 \<or> status_code = 201")
        case True
        with Cons.prems Inr post Response
        have "import_records e url rest (c + 1) w1 = (r, w')" by auto
        from Cons.IH [OF this] w1 show ?thesis by simp
      next
        case False
        with Cons.prems Inr post Response
        have "import_records e url rest c (print (RecordFailed status_code rtext) w1) = (r, w')"
          by auto
        from Cons.IH [OF this] obtain ms where
          "disk w' = disk w1" "opened w' = opened w1"
          "stdout w' = stdout w1 @ RecordFailed status_code rtext # ms"
          "\<not> list_ex is_import_summary ms"
          by auto
        with w1 show ?thesis
          by (intro conjI exI [of _ "RecordFailed status_code rtext # ms"]) simp_all
      qed
    qed
  qed
qed

lemma import_collection_frame:
  assumes "import_collection e base_url name f w = (r, w')"
  shows "disk w' = disk w \<and> opened w' = opened w @ [f] \<and>
     (\<exists>ms. stdout w' = stdout w @ ms \<and> \<not> list_ex is_import_summary ms)"
proof -
  define w1 where "w1 = snd (read_file e f w)"
  obtain r1 where rd: "read_file e f w = (r1, w1)"
    by (cases "read_file e f w") (simp add: w1_def)
  have w1: "disk w1 = disk w" "opened w1 = opened w @ [f]" "stdout w1 = stdout w"
    by (simp_all add: w1_def)
  show ?thesis
  proof (cases r1)
    case (Raised x)
    with assms rd w1 show ?thesis by (auto simp add: import_collection_def)
  next
    case (Exited n)
    with assms rd w1 show ?thesis by (auto simp add: import_collection_def)
  next
    case (Returned content)
    show ?thesis
    proof (cases "loads e content")
      case None
      with assms rd w1 Returned show ?thesis by (auto simp add: import_collection_def)
    next
      case (Some data)
      show ?thesis
      proof (cases "dict_get data ''items'' (JArr [])")
        case (Inl x)
        with assms rd w1 Returned Some show ?thesis by (auto simp add: import_collection_def)
      next
        case (Inr records)
        show ?thesis
        proof (cases "truthy records")
          case False
          with assms rd w1 Returned Some Inr show ?thesis
            by (auto simp add: import_collection_def)
        next
          case True
          show ?thesis
          proof (cases "py_iter records")
            case (Inl x)
            with assms rd w1 Returned Some Inr True show ?thesis
              by (auto simp add: import_collection_def)
          next
            case rs: (Inr rs)
            obtain rr w2 where run:
              "import_records e (records_url base_url name) rs 0 w1 = (rr, w2)"
              by (cases "import_records e (records_url base_url name) rs 0 w1")
            from import_records_frame [OF run] w1 obtain ms where w2:
              "disk w2 = disk w" "opened w2 = opened w @ [f]"
              "stdout w2 = stdout w @ ms" "\<not> list_ex is_import_summary ms"
              by auto
            from assms rd Returned Some Inr True rs run
            have "w' = w2 \<or> (\<exists>k n. w' = print (Imported k n name) w2)"
              by (auto simp add: import_collection_def split: res.splits sum.splits)
            then show ?thesis
            proof
              assume "w' = w2"
              with w2 show ?thesis by simp
            next
              assume "\<exists>k n. w' = print (Imported k n name) w2"
              then obtain k n where "w' = print (Imported k n name) w2" by blast
              with w2 show ?thesis
                by (intro conjI exI [of _ "ms @ [Imported k n name]"]) simp_all
            qed
          qed
        qed
      qed
    qed
  qed
qed

lemma import_files_frame:
  "import_files e base_url files c w = (r, w') \<Longrightarrow>
     disk w' = disk w \<and>
     (\<exists>k \<le> length files. opened w' = opened w @ take k files \<and>
        ((\<exists>n. r = Returned n) \<longrightarrow> k = length files)) \<and>
     (\<exists>ms. stdout w' = stdout w @ ms \<and> \<not> list_ex is_import_summary ms)"
proof (induction files arbitrary: c w)
  case Nil
  then show ?case by auto
next
  case (Cons f rest)
  obtain r1 w1 where one:
    "import_collection e base_url (stem (path_name f)) f w = (r1, w1)"
    by (cases "import_collection e base_url (stem (path_name f)) f w")
  from import_collection_frame [OF one] obtain ms1 where w1:
    "disk w1 = disk w" "opened w1 = opened w @ [f]"
    "stdout w1 = stdout w @ ms1" "\<not> list_ex is_import_summary ms1"
    by auto
  show ?case
  proof (cases r1)
    case (Returned ok)
    with Cons.prems one
    have "import_files e base_url rest (if ok then c + 1 else c) w1 = (r, w')" by simp
    from Cons.IH [OF this] obtain k ms where ih:
      "disk w' = disk w1" "k \<le> length rest" "opened w' = opened w1 @ take k rest"
      "(\<exists>n. r = Returned n) \<longrightarrow> k = length rest"
      "stdout w' = stdout w1 @ ms" "\<not> list_ex is_import_summary ms"
      by auto
    with w1 show ?thesis
      by (intro conjI exI [of _ "Suc k"] exI [of _ "ms1 @ ms"]) simp_all
  next
    case (Raised x)
    with Cons.prems one have "r = Raised x" "w' = w1" by simp_all
    with w1 show ?thesis
      by (intro conjI exI [of _ "Suc 0"] exI [of _ ms1]) simp_all
  next
    case (Exited n)
    with Cons.prems one have "r = Exited n" "w' = w1" by simp_all
    with w1 show ?thesis
      by (intro conjI exI [of _ "Suc 0"] exI [of _ ms1]) simp_all
  qed
qed


lemma import_files_append:
  "import_files e base_url before c w = (Returned c1, w1) \<Longrightarrow>
     import_files e base_url (before @ rest) c w = import_files e base_url rest c1 w1"
proof (induction before arbitrary: c w)
  case Nil
  then show ?case by simp
next
  case (Cons f before)
  obtain r0 w0 where one:
    "import_collection e base_url (stem (path_name f)) f w = (r0, w0)"
    by (cases "import_collection e base_url (stem (path_name f)) f w")
  show ?case
  proof (cases r0)
    case (Returned ok)
    with Cons.prems one
    have "import_files e base_url before (if ok then c + 1 else c) w0 = (Returned c1, w1)"
      by simp
    from Cons.IH [OF this] one Returned show ?thesis by simp
  next
    case (Raised x)
    with Cons.prems one show ?thesis by simp
  next
    case (Exited n)
    with Cons.prems one show ?thesis by simp
  qed
qed

lemma import_main_run:
  assumes "3 \<le> length argv" and "path_exists (Path (argv ! 2)) w"
    and "glob_json (Path (argv ! 2)) w \<noteq> []"
  shows "import_main e argv w =
     (case import_files e (rstrip_slash (argv ! 1)) (sort (glob_json (Path (argv ! 2)) w)) 0
             (print Rule (print (ImportBanner (rstrip_slash (argv ! 1)) (argv ! 2)) w)) of
        (Raised x, w1) \<Rightarrow> (Raised x, w1)
      | (Exited n, w1) \<Rightarrow> (Exited n, w1)
      | (Returned success_count, w1) \<Rightarrow>
          (Returned (),
           print (ImportComplete success_count (length (glob_json (Path (argv ! 2)) w)))
             (print Rule w1)))"
  using assms by (simp add: import_main_def Let_def)

lemma import_collection_bad_json:
  assumes "map_of (disk w) f = Some (File content)" and "\<not> denied e f"
    and "loads e content = None"
  shows "import_collection e base_url name f w =
           (Raised JSONDecodeError, w\<lparr>opened := opened w @ [f]\<rparr>)"
  using assms by (simp add: import_collection_def read_file_ok)

lemma sort_eq_Nil_iff: "sort xs = [] \<longleftrightarrow> xs = []"
  by (metis length_sort length_0_conv)

text \<open>
  Claim C9. Let the import directory exist and hold, in sorted order, the files
  \<open>before\<close>, then \<open>bad\<close>, then \<open>later\<close>; let the files \<open>before\<close> be imported
  without an exception, and let \<open>bad\<close> be a readable file whose text is not JSON. Then
  \<^verbatim>\<open>main\<close> ends with an uncaught \<^verbatim>\<open>JSONDecodeError\<close> (exit status 1): the files
  opened are \<open>before\<close> and \<open>bad\<close> and none of \<open>later\<close>, no request is sent after
  those of \<open>before\<close>, and no summary line is printed.
\<close>

theorem import_invalid_json_aborts:
  assumes "3 \<le> length argv"
    and "path_exists (Path (argv ! 2)) w"
    and "sort (glob_json (Path (argv ! 2)) w) = before @ bad # later"
    and "import_files e (rstrip_slash (argv ! 1)) before 0
           (print Rule (print (ImportBanner (rstrip_slash (argv ! 1)) (argv ! 2)) w)) =
         (Returned c, w1)"
    and "map_of (disk w) bad = Some (File content)"
    and "\<not> denied e bad"
    and "loads e content = None"
  shows "\<exists>w'. import_main e argv w = (Raised JSONDecodeError, w') \<and>
     exit_code (fst (import_main e argv w)) = 1 \<and>
     opened w' = opened w @ before @ [bad] \<and>
     requests w' = requests w1 \<and>
     (\<exists>ms. stdout w' = stdout w @ ms \<and> \<not> list_ex is_import_summary ms)"
proof -
  define w0 where
    "w0 = print Rule (print (ImportBanner (rstrip_slash (argv ! 1)) (argv ! 2)) w)"
  define w' where "w' = w1\<lparr>opened := opened w1 @ [bad]\<rparr>"
  from import_files_frame [OF assms(4)] obtain ms where w1:
    "disk w1 = disk w" "opened w1 = opened w @ before"
    "stdout w1 = stdout w @ [ImportBanner (rstrip_slash (argv ! 1)) (argv ! 2), Rule] @ ms"
    "\<not> list_ex is_import_summary ms"
    by auto
  have "import_collection e (rstrip_slash (argv ! 1)) (stem (path_name bad)) bad w1 =
      (Raised JSONDecodeError, w')"
    unfolding w'_def using assms(5-7) w1(1) by (intro import_collection_bad_json) simp_all
  then have "import_files e (rstrip_slash (argv ! 1)) (bad # later) c w1 =
      (Raised JSONDecodeError, w')"
    by simp
  with import_files_append [OF assms(4), of "bad # later"]
  have loop: "import_files e (rstrip_slash (argv ! 1)) (before @ bad # later) 0
      (print Rule (print (ImportBanner (rstrip_slash (argv ! 1)) (argv ! 2)) w)) =
      (Raised JSONDecodeError, w')"
    by simp
  have "glob_json (Path (argv ! 2)) w \<noteq> []"
    using assms(3) sort_eq_Nil_iff [of "glob_json (Path (argv ! 2)) w"] by auto
  from import_main_run [OF assms(1,2) this, of e] loop assms(3)
  have run: "import_main e argv w = (Raised JSONDecodeError, w')"
    by simp
  have "stdout w' = stdout w @ ([ImportBanner (rstrip_slash (argv ! 1)) (argv ! 2), Rule] @ ms)"
    "\<not> list_ex is_import_summary ([ImportBanner (rstrip_slash (argv ! 1)) (argv ! 2), Rule] @ ms)"
    using w1 by (simp_all add: w'_def)
  then have "\<exists>ms. stdout w' = stdout w @ ms \<and> \<not> list_ex is_import_summary ms"
    by blast
  moreover have "opened w' = opened w @ before @ [bad]" "requests w' = requests w1"
    using w1 by (simp_all add: w'_def)
  ultimately show ?thesis
    using run by (intro exI [of _ w']) simp
qed

theorem import_invalid_json_aborts_witness:
  "3 \<le> length import_argv \<and>
   path_exists (Path (import_argv ! 2)) broken_world \<and>
   sort (glob_json (Path (import_argv ! 2)) broken_world) =
     [[''backup'', ''a.json'']] @ [''backup'', ''b.json''] # [[''backup'', ''c.json'']] \<and>
   import_files demo_env (rstrip_slash (import_argv ! 1)) [[''backup'', ''a.json'']] 0
      (print Rule (print (ImportBanner (rstrip_slash (import_argv ! 1)) (import_argv ! 2))
         broken_world)) = (Returned 1, broken_world1) \<and>
   map_of (disk broken_world) [''backup'', ''b.json''] = Some (File ''{'') \<and>
   \<not> denied demo_env [''backup'', ''b.json''] \<and>
   loads demo_env ''{'' = None \<and>
   (\<exists>w'. import_main demo_env import_argv broken_world = (Raised JSONDecodeError, w') \<and>
     exit_code (fst (import_main demo_env import_argv broken_world)) = 1 \<and>
     opened w' = opened broken_world @ [[''backup'', ''a.json'']] @ [[''backup'', ''b.json'']] \<and>
     requests w' = requests broken_world1 \<and>
     (\<exists>ms. stdout w' = stdout broken_world @ ms \<and> \<not> list_ex is_import_summary ms))"
proof -
  have h1: "3 \<le> length import_argv" by (simp add: import_argv_def)
  have h2: "path_exists (Path (import_argv ! 2)) broken_world"
    by (simp add: path_exists_def Path_def broken_world_def import_argv_def)
  have h3: "sort (glob_json (Path (import_argv ! 2)) broken_world) =
     [[''backup'', ''a.json'']] @ [''backup'', ''b.json''] # [[''backup'', ''c.json'']]"
    by (simp add: glob_json_def Path_def broken_world_def parent_def path_name_def
        fnmatch_json_def import_argv_def)
  have h4: "import_files demo_env (rstrip_slash (import_argv ! 1)) [[''backup'', ''a.json'']] 0
      (print Rule (print (ImportBanner (rstrip_slash (import_argv ! 1)) (import_argv ! 2))
         broken_world)) = (Returned 1, broken_world1)"
    by (simp add: import_collection_def read_file_def demo_env_def broken_world_def
        demo_loads_def print_def rstrip_slash_def stem_def rfind_dot_def path_name_def
        import_argv_def broken_world1_def)
  have h5: "map_of (disk broken_world) [''backup'', ''b.json''] = Some (File ''{'')"
    by (simp add: broken_world_def)
  have h6: "\<not> denied demo_env [''backup'', ''b.json'']"
    by (simp add: demo_env_def)
  have h7: "loads demo_env ''{'' = None"
    by (simp add: demo_env_def demo_loads_def)
  show ?thesis
    by (intro conjI h1 h2 h3 h4 h5 h6 h7 import_invalid_json_aborts [OF h1 h2 h3 h4 h5 h6 h7])
qed

lemma import_main_broken_run:
  "import_main demo_env import_argv broken_world =
     (Raised JSONDecodeError,
      broken_world\<lparr>stdout := [ImportBanner ''http://pb'' ''backup'', Rule, NoRecords ''a''],
        opened := [[''backup'', ''a.json''], [''backup'', ''b.json'']]\<rparr>)"
  by (simp add: import_main_def Let_def path_exists_def glob_json_def Path_def parent_def
      fnmatch_json_def import_collection_def read_file_def stem_def rfind_dot_def path_name_def
      broken_world_def import_argv_def demo_env_def demo_loads_def print_def rstrip_slash_def)


subsection \<open>Records that are not objects\<close>

lemma import_records_append:
  "import_records e url good c w = (Returned c1, w1) \<Longrightarrow>
     import_records e url (good @ rest) c w = import_records e url rest c1 w1"
proof (induction good arbitrary: c w)
  case Nil
  then show ?case by simp
next
  case (Cons rcd good)
  show ?case
  proof (cases "strip_system_fields rcd")
    case (Inl x)
    with Cons.prems show ?thesis by simp
  next
    case (Inr body)
    define w0 where "w0 = snd (requests_post e url body w)"
    have post: "requests_post e url body w = (server e (requests w @ [Post url body]), w0)"
      by (simp add: w0_def requests_post_def Let_def)
    show ?thesis
    proof (cases "server e (requests w @ [Post url body])")
      case (Fails x)
      with Cons.prems Inr post show ?thesis by simp
    next
      case (Response status_code rtext)
      show ?thesis
      proof (cases "status_code = 200 \<or> status_code = 201")
        case True
        with Cons.prems Inr post Response
        have "import_records e url good (c + 1) w0 = (Returned c1, w1)" by auto
        from Cons.IH [OF this] Inr post Response True show ?thesis by auto
      next
        case False
        with Cons.prems Inr post Response
        have "import_records e url good c (print (RecordFailed status_code rtext) w0) =
            (Returned c1, w1)" by auto
        from Cons.IH [OF this] Inr post Response False show ?thesis by auto
      qed
    qed
  qed
qed

lemma strip_system_fields_not_dict:
  "\<not> is_dict x \<Longrightarrow>
     strip_system_fields x = Inl (if is_list x then TypeError else AttributeError)"
  by (cases x) (simp_all add: strip_system_fields_def)

lemma import_collection_bad_record:
  assumes "map_of (disk w) f = Some (File content)" and "\<not> denied e f"
    and "loads e content = Some (JObj obj)"
    and "map_of obj ''items'' = Some (JArr (good @ x # rest))"
    and "list_all is_dict good" and "\<not> is_dict x"
    and "\<forall>earlier url body. \<exists>status_code rtext.
           server e (earlier @ [Post url body]) = Response status_code rtext"
  shows "\<exists>w' sent.
     import_collection e base_url name f w =
       (Raised (if is_list x then TypeError else AttributeError), w') \<and>
     requests w' = requests w @ sent \<and> length sent = length good \<and>
     stdout w' = stdout w @ concat (map failure_lines (replies_to e (requests w) sent))"
proof -
  define w0 where "w0 = w\<lparr>opened := opened w @ [f]\<rparr>"
  define url where "url = records_url base_url name"
  from import_records_total [OF assms(5) assms(7), of url 0 w0]
  obtain bodies w2 where run:
    "length bodies = length good"
    "import_records e url good 0 w0 =
       (Returned (0 + length (filter accepted
           (replies_to e (requests w0) (map (Post url) bodies)))), w2)"
    "requests w2 = requests w0 @ map (Post url) bodies"
    "stdout w2 = stdout w0 @
       concat (map failure_lines (replies_to e (requests w0) (map (Post url) bodies)))"
    by blast
  have "import_records e url (good @ x # rest) 0 w0 =
      (Raised (if is_list x then TypeError else AttributeError), w2)"
    using import_records_append [OF run(2), of "x # rest"]
      strip_system_fields_not_dict [OF assms(6)] by simp
  moreover have "good @ x # rest \<noteq> []" by simp
  ultimately have "import_collection e base_url name f w =
      (Raised (if is_list x then TypeError else AttributeError), w2)"
    using import_collection_array [OF assms(1-4), of base_url name]
    by (simp add: w0_def url_def)
  with run show ?thesis
    by (intro exI [of _ w2] exI [of _ "map (Post url) bodies"]) (simp add: w0_def)
qed

text \<open>
  Claim C10. Let the import directory exist and hold, in sorted order, the files
  \<open>before\<close>, then \<open>f\<close>, then \<open>later\<close>; let the files \<open>before\<close> be imported without
  an exception; let \<open>f\<close> parse to a JSON object whose \<^verbatim>\<open>items\<close> is a sequence in
  which the objects \<open>good\<close> are followed by a value \<open>x\<close> that is not an object, and
  let no creation request raise. Then \<^verbatim>\<open>main\<close> ends with an uncaught exception
  raised by the first \<^verbatim>\<open>pop\<close> on \<open>x\<close> (a \<^verbatim>\<open>TypeError\<close> when \<open>x\<close> is a list, an
  \<^verbatim>\<open>AttributeError\<close> otherwise; exit status 1). Requests were sent for the records
  \<open>good\<close> only, the lines printed for \<open>f\<close> are the failure lines of those requests,
  so neither a failure line for \<open>x\<close> nor a count for \<open>f\<close>, and no summary line is
  printed.
\<close>

theorem import_non_object_record_aborts:
  assumes "3 \<le> length argv"
    and "path_exists (Path (argv ! 2)) w"
    and "sort (glob_json (Path (argv ! 2)) w) = before @ f # later"
    and "import_files e (rstrip_slash (argv ! 1)) before 0
           (print Rule (print (ImportBanner (rstrip_slash (argv ! 1)) (argv ! 2)) w)) =
         (Returned c, w1)"
    and "map_of (disk w) f = Some (File content)"
    and "\<not> denied e f"
    and "loads e content = Some (JObj obj)"
    and "map_of obj ''items'' = Some (JArr (good @ x # rest))"
    and "list_all is_dict good"
    and "\<not> is_dict x"
    and "\<forall>earlier url body. \<exists>status_code rtext.
           server e (earlier @ [Post url body]) = Response status_code rtext"
  shows "\<exists>w' sent.
     import_main e argv w = (Raised (if is_list x then TypeError else AttributeError), w') \<and>
     exit_code (fst (import_main e argv w)) = 1 \<and>
     opened w' = opened w @ before @ [f] \<and>
     requests w' = requests w1 @ sent \<and> length sent = length good \<and>
     stdout w' = stdout w1 @ concat (map failure_lines (replies_to e (requests w1) sent)) \<and>
     (\<exists>ms. stdout w' = stdout w @ ms \<and> \<not> list_ex is_import_summary ms)"
proof -
  let ?exn = "if is_list x then TypeError else AttributeError"
  let ?w0 = "print Rule (print (ImportBanner (rstrip_slash (argv ! 1)) (argv ! 2)) w)"
  from import_files_frame [OF assms(4)] have w1: "disk w1 = disk w" by simp
  with assms(5) have fl: "map_of (disk w1) f = Some (File content)" by simp
  from import_collection_bad_record [OF fl assms(6-11),
      of "rstrip_slash (argv ! 1)" "stem (path_name f)"]
  obtain w' sent where one:
    "import_collection e (rstrip_slash (argv ! 1)) (stem (path_name f)) f w1 = (Raised ?exn, w')"
    "requests w' = requests w1 @ sent" "length sent = length good"
    "stdout w' = stdout w1 @ concat (map failure_lines (replies_to e (requests w1) sent))"
    by blast
  then have "import_files e (rstrip_slash (argv ! 1)) (f # later) c w1 = (Raised ?exn, w')"
    by simp
  with import_files_append [OF assms(4), of "f # later"]
  have loop: "import_files e (rstrip_slash (argv ! 1)) (before @ f # later) 0 ?w0 =
      (Raised ?exn, w')"
    by simp
  from import_files_frame [OF loop] obtain k ms where fr:
    "k \<le> length (before @ f # later)" "opened w' = opened ?w0 @ take k (before @ f # later)"
    "stdout w' = stdout ?w0 @ ms" "\<not> list_ex is_import_summary ms"
    by auto
  from import_files_frame [OF assms(4)] have "opened w1 = opened ?w0 @ before" by auto
  with import_collection_frame [OF one(1)]
  have op: "opened w' = opened w @ before @ [f]" by simp
  have "stdout w' = stdout w @ ([ImportBanner (rstrip_slash (argv ! 1)) (argv ! 2), Rule] @ ms)"
    "\<not> list_ex is_import_summary ([ImportBanner (rstrip_slash (argv ! 1)) (argv ! 2), Rule] @ ms)"
    using fr by simp_all
  then have out: "\<exists>ms. stdout w' = stdout w @ ms \<and> \<not> list_ex is_import_summary ms"
    by blast
  have "glob_json (Path (argv ! 2)) w \<noteq> []"
    using assms(3) sort_eq_Nil_iff [of "glob_json (Path (argv ! 2)) w"] by auto
  from import_main_run [OF assms(1,2) this, of e] loop assms(3)
  have run: "import_main e argv w = (Raised ?exn, w')"
    by simp
  show ?thesis
    using run op one(2-4) out by (intro exI [of _ w'] exI [of _ sent]) simp
qed


theorem import_non_object_record_aborts_witness:
  "3 \<le> length import_argv \<and>
   path_exists (Path (import_argv ! 2)) mixed_world \<and>
   sort (glob_json (Path (import_argv ! 2)) mixed_world) =
     [[''backup'', ''a.json'']] @ [''backup'', ''s.json''] # [[''backup'', ''z.json'']] \<and>
   import_files demo_env (rstrip_slash (import_argv ! 1)) [[''backup'', ''a.json'']] 0
      (print Rule (print (ImportBanner (rstrip_slash (import_argv ! 1)) (import_argv ! 2))
         mixed_world)) = (Returned 1, mixed_world1) \<and>
   map_of (disk mixed_world) [''backup'', ''s.json''] = Some (File ''S'') \<and>
   \<not> denied demo_env [''backup'', ''s.json''] \<and>
   loads demo_env ''S'' =
     Some (JObj [(''items'', JArr ([JObj [(''name'', JStr ''x'')]] @ JStr ''stray'' # []))]) \<and>
   map_of [(''items'', JArr ([JObj [(''name'', JStr ''x'')]] @ JStr ''stray'' # []))] ''items'' =
     Some (JArr ([JObj [(''name'', JStr ''x'')]] @ JStr ''stray'' # [])) \<and>
   list_all is_dict [JObj [(''name'', JStr ''x'')]] \<and>
   \<not> is_dict (JStr ''stray'') \<and>
   (\<forall>earlier url body. \<exists>status_code rtext.
      server demo_env (earlier @ [Post url body]) = Response status_code rtext) \<and>
   (\<exists>w' sent.
     import_main demo_env import_argv mixed_world =
       (Raised (if is_list (JStr ''stray'') then TypeError else AttributeError), w') \<and>
     exit_code (fst (import_main demo_env import_argv mixed_world)) = 1 \<and>
     opened w' = opened mixed_world @ [[''backup'', ''a.json'']] @ [[''backup'', ''s.json'']] \<and>
     requests w' = requests mixed_world1 @ sent \<and>
     length sent = length [JObj [(''name'', JStr ''x'')]] \<and>
     stdout w' = stdout mixed_world1 @
       concat (map failure_lines (replies_to demo_env (requests mixed_world1) sent)) \<and>
     (\<exists>ms. stdout w' = stdout mixed_world @ ms \<and> \<not> list_ex is_import_summary ms))"
proof -
  have h1: "3 \<le> length import_argv" by (simp add: import_argv_def)
  have h2: "path_exists (Path (import_argv ! 2)) mixed_world"
    by (simp add: path_exists_def Path_def mixed_world_def import_argv_def)
  have h3: "sort (glob_json (Path (import_argv ! 2)) mixed_world) =
     [[''backup'', ''a.json'']] @ [''backup'', ''s.json''] # [[''backup'', ''z.json'']]"
    by (simp add: glob_json_def Path_def mixed_world_def parent_def path_name_def
        fnmatch_json_def import_argv_def)
  have h4: "import_files demo_env (rstrip_slash (import_argv ! 1)) [[''backup'', ''a.json'']] 0
      (print Rule (print (ImportBanner (rstrip_slash (import_argv ! 1)) (import_argv ! 2))
         mixed_world)) = (Returned 1, mixed_world1)"
    by (simp add: import_collection_def read_file_def demo_env_def mixed_world_def
        demo_loads_def print_def rstrip_slash_def stem_def rfind_dot_def path_name_def
        import_argv_def mixed_world1_def)
  have h5: "map_of (disk mixed_world) [''backup'', ''s.json''] = Some (File ''S'')"
    by (simp add: mixed_world_def)
  have h6: "\<not> denied demo_env [''backup'', ''s.json'']"
    by (simp add: demo_env_def)
  have h7: "loads demo_env ''S'' =
     Some (JObj [(''items'', JArr ([JObj [(''name'', JStr ''x'')]] @ JStr ''stray'' # []))])"
    by (simp add: demo_env_def demo_loads_def)
  have h8: "map_of [(''items'', JArr ([JObj [(''name'', JStr ''x'')]] @ JStr ''stray'' # []))]
      ''items'' = Some (JArr ([JObj [(''name'', JStr ''x'')]] @ JStr ''stray'' # []))"
    by simp
  have h9: "list_all is_dict [JObj [(''name'', JStr ''x'')]]" by simp
  have h10: "\<not> is_dict (JStr ''stray'')" by simp
  have h11: "\<forall>earlier url body. \<exists>status_code rtext.
      server demo_env (earlier @ [Post url body]) = Response status_code rtext"
    by (simp add: demo_env_def demo_server_def)
  show ?thesis
    by (intro conjI h1 h2 h3 h4 h5 h6 h7 h8 h9 h10 h11
          import_non_object_record_aborts [OF h1 h2 h3 h4 h5 h6 h7 h8 h9 h10 h11])
qed

lemma import_main_mixed_run:
  "import_main demo_env import_argv mixed_world =
     (Raised AttributeError,
      mixed_world\<lparr>stdout := [ImportBanner ''http://pb'' ''backup'', Rule, NoRecords ''a''],
        requests := [Post ''http://pb/api/collections/s/records'' (JObj [(''name'', JStr ''x'')])],
        opened := [[''backup'', ''a.json''], [''backup'', ''s.json'']]\<rparr>)"
  by (simp add: import_main_def Let_def path_exists_def glob_json_def Path_def parent_def
      fnmatch_json_def import_collection_def read_file_def stem_def rfind_dot_def path_name_def
      mixed_world_def import_argv_def demo_env_def demo_loads_def print_def rstrip_slash_def
      strip_system_fields_def requests_post_def demo_server_def records_url_def)



subsection \<open>The order in which the importer takes the files\<close>

lemma append_le_append_iff:
  fixes a b :: "'a :: linorder list"
  shows "d @ [a] \<le> d @ [b] \<longleftrightarrow> a \<le> b"
  by (induction d) (auto simp add: less_le)

lemma glob_json_member:
  "p \<in> set (glob_json d w) \<Longrightarrow> p = d @ [path_name p] \<and> fnmatch_json (path_name p)"
  by (auto simp add: glob_json_def parent_def path_name_def split: option.splits node.splits)

lemma sorted_names:
  assumes "\<forall>p \<in> set ps. p = d @ [path_name p]"
  shows "sorted (map path_name (sort ps))"
proof -
  have "sorted_wrt (\<le>) (sort ps)" by simp
  then have "sorted_wrt (\<lambda>p q. path_name p \<le> path_name q) (sort ps)"
  proof (rule sorted_wrt_mono_rel [rotated])
    fix p q
    assume "p \<in> set (sort ps)" "q \<in> set (sort ps)" "p \<le> q"
    with assms have "p = d @ [path_name p]" "q = d @ [path_name q]" by simp_all
    with \<open>p \<le> q\<close> have "d @ [path_name p] \<le> d @ [path_name q]" by simp
    then show "path_name p \<le> path_name q" by (simp only: append_le_append_iff)
  qed
  then show ?thesis by (simp add: sorted_map)
qed

lemma sort_scan_order:
  fixes xs ys :: "path list"
  assumes "distinct xs" and "distinct ys" and "set xs = set ys"
  shows "sort xs = sort ys"
  using assms by (intro sorted_distinct_set_unique) simp_all

lemma stem_json:
  assumes "fnmatch_json name" and "name \<noteq> ''.json''"
  shows "stem name @ ''.json'' = name"
proof -
  define b where "b = rev (drop 5 (rev name))"
  have "rev name = take 5 (rev name) @ drop 5 (rev name)" by simp
  with assms(1) have "rev name = rev ''.json'' @ rev b"
    by (simp add: fnmatch_json_def b_def)
  then have "rev name = rev (b @ ''.json'')" by (simp only: rev_append)
  then have name: "name = b @ ''.json''" by (simp only: rev_is_rev_conv)
  with assms(2) have b: "b \<noteq> []" by auto
  have "rfind_dot name = Some (length b)"
    by (simp add: rfind_dot_def name Let_def)
  with b show ?thesis
    by (simp add: stem_def name)
qed


lemma import_collection_requests:
  assumes "import_collection e base_url name f w = (r, w')"
  shows "\<exists>bodies. requests w' = requests w @ map (Post (records_url base_url name)) bodies"
proof -
  define w1 where "w1 = snd (read_file e f w)"
  obtain r1 where rd: "read_file e f w = (r1, w1)"
    by (cases "read_file e f w") (simp add: w1_def)
  have w1: "requests w1 = requests w"
    by (simp add: w1_def)
  have none: "requests w' = requests w \<Longrightarrow> ?thesis"
    by (intro exI [of _ "[]"]) simp
  show ?thesis
  proof (cases r1)
    case (Raised x)
    with assms rd w1 none show ?thesis by (auto simp add: import_collection_def)
  next
    case (Exited n)
    with assms rd w1 none show ?thesis by (auto simp add: import_collection_def)
  next
    case (Returned content)
    show ?thesis
    proof (cases "loads e content")
      case None
      with assms rd w1 none Returned show ?thesis by (auto simp add: import_collection_def)
    next
      case (Some data)
      show ?thesis
      proof (cases "dict_get data ''items'' (JArr [])")
        case (Inl x)
        with assms rd w1 none Returned Some show ?thesis
          by (auto simp add: import_collection_def)
      next
        case (Inr records)
        show ?thesis
        proof (cases "truthy records")
          case False
          with assms rd w1 none Returned Some Inr show ?thesis
            by (auto simp add: import_collection_def)
        next
          case True
          show ?thesis
          proof (cases "py_iter records")
            case (Inl x)
            with assms rd w1 none Returned Some Inr True show ?thesis
              by (auto simp add: import_collection_def)
          next
            case rs: (Inr rs)
            obtain rr w2 where run:
              "import_records e (records_url base_url name) rs 0 w1 = (rr, w2)"
              by (cases "import_records e (records_url base_url name) rs 0 w1")
            from import_records_requests [OF run] w1 obtain bodies where w2:
              "requests w2 = requests w @ map (Post (records_url base_url name)) bodies"
              by auto
            from assms rd Returned Some Inr True rs run
            have "w' = w2 \<or> (\<exists>k n. w' = print (Imported k n name) w2)"
              by (auto simp add: import_collection_def split: res.splits sum.splits)
            then have "requests w' = requests w2" by auto
            with w2 show ?thesis by auto
          qed
        qed
      qed
    qed
  qed
qed

lemma import_files_trace:
  "import_files e base_url files c w = (r, w') \<Longrightarrow>
     \<exists>bss. length bss \<le> length files \<and>
       opened w' = opened w @ take (length bss) files \<and>
       ((\<exists>n. r = Returned n) \<longrightarrow> length bss = length files) \<and>
       requests w' = requests w @
         concat (map (\<lambda>(f, bodies). map (Post (records_url base_url (stem (path_name f)))) bodies)
                   (zip files bss))"
proof (induction files arbitrary: c w)
  case Nil
  then show ?case by auto
next
  case (Cons f rest)
  obtain r1 w1 where one:
    "import_collection e base_url (stem (path_name f)) f w = (r1, w1)"
    by (cases "import_collection e base_url (stem (path_name f)) f w")
  from import_collection_frame [OF one] have op: "opened w1 = opened w @ [f]" by simp
  from import_collection_requests [OF one] obtain bodies where rq:
    "requests w1 = requests w @ map (Post (records_url base_url (stem (path_name f)))) bodies"
    by blast
  show ?case
  proof (cases r1)
    case (Returned ok)
    with Cons.prems one
    have "import_files e base_url rest (if ok then c + 1 else c) w1 = (r, w')" by simp
    from Cons.IH [OF this] obtain bss where ih:
      "length bss \<le> length rest"
      "opened w' = opened w1 @ take (length bss) rest"
      "(\<exists>n. r = Returned n) \<longrightarrow> length bss = length rest"
      "requests w' = requests w1 @
         concat (map (\<lambda>(f, bodies). map (Post (records_url base_url (stem (path_name f)))) bodies)
                   (zip rest bss))"
      by blast
    with op rq show ?thesis
      by (intro exI [of _ "bodies # bss"]) simp
  next
    case (Raised x)
    with Cons.prems one have "r = Raised x" "w' = w1" by simp_all
    with op rq show ?thesis
      by (intro exI [of _ "[bodies]"]) simp
  next
    case (Exited n)
    with Cons.prems one have "r = Exited n" "w' = w1" by simp_all
    with op rq show ?thesis
      by (intro exI [of _ "[bodies]"]) simp
  qed
qed

lemma parsed_file_disk:
  "disk w' = disk w \<Longrightarrow> parsed_file e w' f = parsed_file e w f"
  "disk w' = disk w \<Longrightarrow> file_records e w' f = file_records e w f"
  "disk w' = disk w \<Longrightarrow> importable e w' f = importable e w f"
  "disk w' = disk w \<Longrightarrow> importable e w' = importable e w"
  by (simp_all add: parsed_file_def file_records_def importable_def fun_eq_iff)

lemma import_records_head_not_dict:
  "\<not> is_dict rcd \<Longrightarrow> \<exists>x. import_records e url (rcd # rest) c w = (Raised x, w)"
  by (simp add: strip_system_fields_not_dict)

lemma import_collection_unparsed:
  assumes "parsed_file e w f = None"
  shows "\<exists>x w'. import_collection e base_url name f w = (Raised x, w') \<and>
           requests w' = requests w"
  using assms
  by (auto simp add: import_collection_def read_file_def Let_def parsed_file_def
        split: option.splits node.splits if_splits)

lemma parsed_file_Some:
  assumes "parsed_file e w f = Some data"
  shows "\<exists>content. map_of (disk w) f = Some (File content) \<and> \<not> denied e f \<and>
           loads e content = Some data"
  using assms
  by (auto simp add: parsed_file_def split: option.splits node.splits if_splits)

lemma import_collection_other_items:
  assumes "map_of (disk w) f = Some (File content)" and "\<not> denied e f"
    and "loads e content = Some (JObj obj)"
    and "map_of obj ''items'' = Some v" and "\<not> is_list v" and "truthy v"
  shows "\<exists>x. import_collection e base_url name f w =
           (Raised x, w\<lparr>opened := opened w @ [f]\<rparr>)"
proof (cases v)
  case (JStr s)
  with assms(6) obtain c cs where "s = c # cs" by (cases s) simp_all
  with assms JStr show ?thesis
    by (simp add: import_collection_def read_file_ok strip_system_fields_def)
next
  case (JObj kvs)
  with assms(6) obtain k ks where "remdups (map fst kvs) = k # ks"
    by (cases "remdups (map fst kvs)") simp_all
  with assms JObj show ?thesis
    by (simp add: import_collection_def read_file_ok strip_system_fields_def)
qed (use assms in \<open>simp_all add: import_collection_def read_file_ok\<close>)

lemma import_collection_trace:
  assumes "import_collection e base_url name f w = (r, w')"
  shows "(\<exists>ok. r = Returned ok) \<and> importable e w f \<and>
          requests w' = requests w @
            creation_requests (records_url base_url name) (file_records e w f)
       \<or> (\<exists>x j. r = Raised x \<and> j \<le> length (file_records e w f) \<and>
            requests w' = requests w @
              creation_requests (records_url base_url name) (take j (file_records e w f)) \<and>
            (\<not> importable e w f \<or> 0 < j \<and> server e (requests w') = Fails x))"
proof (cases "parsed_file e w f")
  case None
  from import_collection_unparsed [OF None, of base_url name] assms
  obtain x where "r = Raised x" "requests w' = requests w" by auto
  moreover have "\<not> importable e w f" by (simp add: importable_def None)
  ultimately show ?thesis by (intro disjI2 exI [of _ x] exI [of _ 0]) simp
next
  case (Some data)
  from parsed_file_Some [OF Some] obtain content where
    fl: "map_of (disk w) f = Some (File content)" and ok: "\<not> denied e f"
    and ld: "loads e content = Some data" by blast
  define w1 where "w1 = w\<lparr>opened := opened w @ [f]\<rparr>"
  have w1: "requests w1 = requests w" by (simp add: w1_def)
  show ?thesis
  proof (cases "is_dict data")
    case False
    then have "dict_get data ''items'' (JArr []) = Inl AttributeError"
      by (cases data) simp_all
    with assms fl ok ld have "r = Raised AttributeError" "requests w' = requests w"
      by (auto simp add: import_collection_def read_file_ok)
    moreover from False have "\<not> importable e w f"
      by (cases data) (simp_all add: importable_def Some)
    ultimately show ?thesis
      by (intro disjI2 exI [of _ AttributeError] exI [of _ 0]) simp
  next
    case True
    then obtain obj where data: "data = JObj obj" by (cases data) simp_all
    note ld = ld [unfolded data]
    have pf: "parsed_file e w f = Some (JObj obj)" using Some data by simp
    show ?thesis
    proof (cases "map_of obj ''items'' = None \<or> map_of obj ''items'' = Some (JArr [])")
      case True
      from import_collection_empty [OF fl ok ld True, of base_url name] assms
      have "r = Returned True" "requests w' = requests w" by auto
      moreover from True have "importable e w f" "file_records e w f = []"
        by (auto simp add: importable_def file_records_def pf)
      ultimately show ?thesis by (intro disjI1) auto
    next
      case False
      then obtain v where v: "map_of obj ''items'' = Some v" "v \<noteq> JArr []" by auto
      show ?thesis
      proof (cases "is_list v")
        case False
        then have fr: "file_records e w f = []"
          using v by (cases v) (simp_all add: file_records_def pf)
        show ?thesis
        proof (cases "truthy v")
          case True
          from import_collection_other_items [OF fl ok ld v(1) False True, of base_url name]
            assms
          obtain x where "r = Raised x" "requests w' = requests w" by auto
          moreover from False True v have "\<not> importable e w f"
            by (cases v) (simp_all add: importable_def pf)
          ultimately show ?thesis
            by (intro disjI2 exI [of _ x] exI [of _ 0]) simp
        next
          case nt: False
          with assms fl ok ld v have "r = Returned True" "requests w' = requests w"
            by (auto simp add: import_collection_def read_file_ok)
          moreover from False nt v have "importable e w f"
            by (cases v) (simp_all add: importable_def pf)
          ultimately show ?thesis using fr by (intro disjI1) auto
        qed
      next
        case True
        with v obtain recs where recs: "map_of obj ''items'' = Some (JArr recs)" "recs \<noteq> []"
          by (cases v) simp_all
        have fr: "file_records e w f = recs" by (simp add: file_records_def pf recs)
        have im: "importable e w f = list_all is_dict recs"
          by (simp add: importable_def pf recs)
        define url where "url = records_url base_url name"
        obtain rr w2 where run: "import_records e url recs 0 w1 = (rr, w2)"
          by (cases "import_records e url recs 0 w1")
        have ic: "(r, w') =
           (case (rr, w2) of
              (Returned c, w2) \<Rightarrow>
                (Returned (c = length recs), print (Imported c (length recs) name) w2)
            | (Raised x, w2) \<Rightarrow> (Raised x, w2)
            | (Exited n, w2) \<Rightarrow> (Exited n, w2))"
          using import_collection_array [OF fl ok ld recs, of base_url name] assms run
          by (simp add: url_def w1_def)
        from import_records_run [OF run] obtain k where k: "k \<le> length recs"
          and dicts: "list_all is_dict (take k recs)"
          and rq: "requests w2 = requests w @ creation_requests url (take k recs)"
          and tri: "k = length recs \<and> (\<exists>n. rr = Returned n)
            \<or> 0 < k \<and>
              (\<exists>x. last (replies_to e (requests w) (creation_requests url (take k recs))) =
                   Fails x \<and> rr = Raised x)
            \<or> k < length recs \<and> (\<exists>x. strip_system_fields (recs ! k) = Inl x \<and> rr = Raised x)"
          unfolding w1 by blast
        from tri show ?thesis
        proof (elim disjE conjE exE)
          fix n assume a: "k = length recs" "rr = Returned n"
          with ic have "r = Returned (n = length recs)" "requests w' = requests w2" by simp_all
          with a dicts rq show ?thesis
            unfolding fr im url_def by (intro disjI1) auto
        next
          fix x assume a: "0 < k"
            "last (replies_to e (requests w) (creation_requests url (take k recs))) = Fails x"
            "rr = Raised x"
          with ic have b: "r = Raised x" "w' = w2" by simp_all
          from a(1) k have "creation_requests url (take k recs) \<noteq> []"
            by (auto simp add: creation_requests_def)
          from last_replies_to [OF this, of e "requests w"] a(2) rq
          have "server e (requests w2) = Fails x" by simp
          with a(1) b k rq show ?thesis
            unfolding fr im url_def by (intro disjI2 exI [of _ x] exI [of _ k]) simp
        next
          fix x assume a: "k < length recs" "strip_system_fields (recs ! k) = Inl x"
            "rr = Raised x"
          with ic have b: "r = Raised x" "w' = w2" by simp_all
          from strip_system_fields_Inl [OF a(2)] a(1) have "\<not> list_all is_dict recs"
            by (auto simp add: list_all_length)
          with b k rq show ?thesis
            unfolding fr im url_def by (intro disjI2 exI [of _ x] exI [of _ k]) simp
        qed
      qed
    qed
  qed
qed


lemma import_files_run:
  "import_files e base_url files c w = (r, w') \<Longrightarrow>
   (\<exists>n. r = Returned n) \<and> list_all (importable e w) files \<and>
     opened w' = opened w @ files \<and>
     requests w' = requests w @
       concat (map (\<lambda>f. creation_requests (records_url base_url (stem (path_name f)))
                           (file_records e w f)) files)
   \<or> (\<exists>x n j. r = Raised x \<and> n < length files \<and>
         j \<le> length (file_records e w (files ! n)) \<and>
         list_all (importable e w) (take n files) \<and>
         opened w' = opened w @ take (Suc n) files \<and>
         requests w' = requests w @
           concat (map (\<lambda>f. creation_requests (records_url base_url (stem (path_name f)))
                               (file_records e w f)) (take n files)) @
           creation_requests (records_url base_url (stem (path_name (files ! n))))
             (take j (file_records e w (files ! n))) \<and>
         (\<not> importable e w (files ! n) \<or> 0 < j \<and> server e (requests w') = Fails x))"
proof (induction files arbitrary: c w)
  case Nil
  then show ?case by auto
next
  case (Cons f rest)
  obtain r1 w1 where one:
    "import_collection e base_url (stem (path_name f)) f w = (r1, w1)"
    by (cases "import_collection e base_url (stem (path_name f)) f w")
  from import_collection_frame [OF one]
  have dk: "disk w1 = disk w" and op: "opened w1 = opened w @ [f]" by simp_all
  note same = parsed_file_disk(2,3) [OF dk, of e]
  from import_collection_trace [OF one]
  show ?case
  proof (rule disjE)
    assume "(\<exists>ok. r1 = Returned ok) \<and> importable e w f \<and>
      requests w1 = requests w @
         creation_requests (records_url base_url (stem (path_name f))) (file_records e w f)"
    then obtain ok where a: "r1 = Returned ok" "importable e w f"
      "requests w1 = requests w @
         creation_requests (records_url base_url (stem (path_name f))) (file_records e w f)"
      by blast
    with Cons.prems one
    have "import_files e base_url rest (if ok then c + 1 else c) w1 = (r, w')" by simp
    from Cons.IH [OF this, unfolded same]
    show ?thesis
    proof (rule disjE)
      assume "(\<exists>n. r = Returned n) \<and> list_all (importable e w) rest \<and>
        opened w' = opened w1 @ rest \<and>
        requests w' = requests w1 @
           concat (map (\<lambda>f. creation_requests (records_url base_url (stem (path_name f)))
                               (file_records e w f)) rest)"
      with a op show ?thesis by (intro disjI1) auto
    next
      assume "\<exists>x n j. r = Raised x \<and> n < length rest \<and>
         j \<le> length (file_records e w (rest ! n)) \<and>
         list_all (importable e w) (take n rest) \<and>
         opened w' = opened w1 @ take (Suc n) rest \<and>
         requests w' = requests w1 @
           concat (map (\<lambda>f. creation_requests (records_url base_url (stem (path_name f)))
                               (file_records e w f)) (take n rest)) @
           creation_requests (records_url base_url (stem (path_name (rest ! n))))
             (take j (file_records e w (rest ! n))) \<and>
         (\<not> importable e w (rest ! n) \<or> 0 < j \<and> server e (requests w') = Fails x)"
      then obtain x n j where b: "r = Raised x" "n < length rest"
        "j \<le> length (file_records e w (rest ! n))"
        "list_all (importable e w) (take n rest)"
        "opened w' = opened w1 @ take (Suc n) rest"
        "requests w' = requests w1 @
           concat (map (\<lambda>f. creation_requests (records_url base_url (stem (path_name f)))
                               (file_records e w f)) (take n rest)) @
           creation_requests (records_url base_url (stem (path_name (rest ! n))))
             (take j (file_records e w (rest ! n)))"
        "\<not> importable e w (rest ! n) \<or> 0 < j \<and> server e (requests w') = Fails x"
        by blast
      with a op show ?thesis
        by (intro disjI2 exI [of _ x] exI [of _ "Suc n"] exI [of _ j]) simp
    qed
  next
    assume "\<exists>x j. r1 = Raised x \<and> j \<le> length (file_records e w f) \<and>
      requests w1 = requests w @
         creation_requests (records_url base_url (stem (path_name f)))
           (take j (file_records e w f)) \<and>
      (\<not> importable e w f \<or> 0 < j \<and> server e (requests w1) = Fails x)"
    then obtain x j where a: "r1 = Raised x" "j \<le> length (file_records e w f)"
      "requests w1 = requests w @
         creation_requests (records_url base_url (stem (path_name f)))
           (take j (file_records e w f))"
      "\<not> importable e w f \<or> 0 < j \<and> server e (requests w1) = Fails x"
      by blast
    with Cons.prems one have "r = Raised x" "w' = w1" by simp_all
    with a op show ?thesis
      by (intro disjI2 exI [of _ x] exI [of _ 0] exI [of _ j]) simp
  qed
qed


lemma creation_requests_last:
  assumes "0 < j" and "j \<le> length recs"
  shows "\<exists>earlier body. pre @ creation_requests url (take j recs) = earlier @ [Post url body]"
proof -
  from assms have "take j recs \<noteq> []" by auto
  then have "take j recs = butlast (take j recs) @ [last (take j recs)]" by simp
  then have "pre @ creation_requests url (take j recs) =
      (pre @ creation_requests url (butlast (take j recs))) @
        [Post url (strip_body (last (take j recs)))]"
    by (metis append_assoc creation_requests_def list.simps(8,9) map_append)
  then show ?thesis by blast
qed

lemma import_files_total:
  assumes "import_files e base_url files c w = (r, w')"
    and "list_all (importable e w) files"
    and "\<forall>earlier url body. is_response (server e (earlier @ [Post url body]))"
  shows "\<exists>n. r = Returned n"
  using import_files_run [OF assms(1)]
proof (rule disjE)
  assume "(\<exists>n. r = Returned n) \<and> list_all (importable e w) files \<and>
     opened w' = opened w @ files \<and>
     requests w' = requests w @
       concat (map (\<lambda>f. creation_requests (records_url base_url (stem (path_name f)))
                           (file_records e w f)) files)"
  then show ?thesis by blast
next
  assume "\<exists>x n j. r = Raised x \<and> n < length files \<and>
         j \<le> length (file_records e w (files ! n)) \<and>
         list_all (importable e w) (take n files) \<and>
         opened w' = opened w @ take (Suc n) files \<and>
         requests w' = requests w @
           concat (map (\<lambda>f. creation_requests (records_url base_url (stem (path_name f)))
                               (file_records e w f)) (take n files)) @
           creation_requests (records_url base_url (stem (path_name (files ! n))))
             (take j (file_records e w (files ! n))) \<and>
         (\<not> importable e w (files ! n) \<or> 0 < j \<and> server e (requests w') = Fails x)"
  then obtain x n j where b: "n < length files"
    "j \<le> length (file_records e w (files ! n))"
    "requests w' = requests w @
           concat (map (\<lambda>f. creation_requests (records_url base_url (stem (path_name f)))
                               (file_records e w f)) (take n files)) @
           creation_requests (records_url base_url (stem (path_name (files ! n))))
             (take j (file_records e w (files ! n)))"
    "\<not> importable e w (files ! n) \<or> 0 < j \<and> server e (requests w') = Fails x"
    by blast
  from assms(2) b(1) have "importable e w (files ! n)" by (simp add: list_all_length)
  with b(4) have j: "0 < j" and fails: "server e (requests w') = Fails x" by simp_all
  from creation_requests_last [OF j b(2),
      of "requests w @
           concat (map (\<lambda>f. creation_requests (records_url base_url (stem (path_name f)))
                               (file_records e w f)) (take n files))"
         "records_url base_url (stem (path_name (files ! n)))"]
  obtain earlier body where
    "requests w' = earlier @ [Post (records_url base_url (stem (path_name (files ! n)))) body]"
    unfolding b(3) append_assoc by blast
  with assms(3) have "is_response (server e (requests w'))" by simp
  with fails show ?thesis by simp
qed

text \<open>
  Claim C7. Let the importer be given its two arguments, let the import directory exist
  and let it hold at least one file matching \<^verbatim>\<open>*.json\<close>. The files are taken in the
  order \<open>sort\<close> gives the discovered paths, which is the ascending lexicographic order
  of their file names, whatever the order in which the directory scan yields them; each
  of them lies in the import directory and has a name matching the pattern, and the stem
  followed by \<^verbatim>\<open>.json\<close> is the file name (but for the file named \<^verbatim>\<open>.json\<close>
  alone, which \<^verbatim>\<open>pathlib\<close> takes to have no extension). The run goes one of two
  ways, and never leaves through \<^verbatim>\<open>sys.exit\<close>:

  \<^item> \<^verbatim>\<open>main\<close> returns: every file has been opened, in sorted order, and the requests
    of the run are, file by file in that order, one creation request for each record of
    the file, sent to the records URL of the collection named by the stem of the file
    name;

  \<^item> an exception leaves \<^verbatim>\<open>main\<close> at the file of some index \<open>n\<close> of the sorted list:
    the files opened are the first \<open>n + 1\<close> of the list, the files before it have been
    imported in full as above, and of the file itself the first \<open>j\<close> records have been
    sent, to the URL of its stem; either that file is one that \<open>import_collection\<close>
    cannot take, or the last request was sent and is the one the server failed on.

  When every file can be taken and the server answers every creation request,
  \<^verbatim>\<open>main\<close> returns.
\<close>

theorem import_main_sorted_order:
  assumes "3 \<le> length argv"
    and "path_exists (Path (argv ! 2)) w"
    and "glob_json (Path (argv ! 2)) w \<noteq> []"
  shows "\<exists>files.
     files = sort (glob_json (Path (argv ! 2)) w) \<and>
     sorted (map path_name files) \<and>
     list_all (\<lambda>f. f = Path (argv ! 2) @ [path_name f] \<and> fnmatch_json (path_name f) \<and>
                 (path_name f = ''.json'' \<or> stem (path_name f) @ ''.json'' = path_name f))
       files \<and>
     (fst (import_main e argv w) = Returned () \<and>
      list_all (importable e w) files \<and>
      opened (snd (import_main e argv w)) = opened w @ files \<and>
      requests (snd (import_main e argv w)) = requests w @
        concat (map (\<lambda>f. creation_requests
                             (records_url (rstrip_slash (argv ! 1)) (stem (path_name f)))
                             (file_records e w f)) files)
      \<or> (\<exists>x n j.
           fst (import_main e argv w) = Raised x \<and>
           n < length files \<and>
           j \<le> length (file_records e w (files ! n)) \<and>
           list_all (importable e w) (take n files) \<and>
           opened (snd (import_main e argv w)) = opened w @ take (Suc n) files \<and>
           requests (snd (import_main e argv w)) = requests w @
             concat (map (\<lambda>f. creation_requests
                                  (records_url (rstrip_slash (argv ! 1)) (stem (path_name f)))
                                  (file_records e w f)) (take n files)) @
             creation_requests
               (records_url (rstrip_slash (argv ! 1)) (stem (path_name (files ! n))))
               (take j (file_records e w (files ! n))) \<and>
           (\<not> importable e w (files ! n) \<or>
            0 < j \<and> server e (requests (snd (import_main e argv w))) = Fails x))) \<and>
     (list_all (importable e w) files \<and>
      (\<forall>earlier url body. is_response (server e (earlier @ [Post url body])))
        \<longrightarrow> fst (import_main e argv w) = Returned ()) \<and>
     (\<forall>scan. distinct scan \<and> distinct (glob_json (Path (argv ! 2)) w) \<and>
        set scan = set (glob_json (Path (argv ! 2)) w)
        \<longrightarrow> sort scan = files)"
proof -
  let ?d = "Path (argv ! 2)"
  define files where "files = sort (glob_json ?d w)"
  define base where "base = rstrip_slash (argv ! 1)"
  define w0 where "w0 = print Rule (print (ImportBanner base (argv ! 2)) w)"
  define R where "R = import_main e argv w"
  have w0: "disk w0 = disk w" "opened w0 = opened w" "requests w0 = requests w"
    by (simp_all add: w0_def)
  note same = parsed_file_disk(2,3) [OF w0(1), of e]
  have mem: "\<forall>p \<in> set (glob_json ?d w). p = ?d @ [path_name p] \<and> fnmatch_json (path_name p)"
    using glob_json_member by blast
  then have srt: "sorted (map path_name files)"
    unfolding files_def by (intro sorted_names [of _ ?d]) simp
  have names: "list_all (\<lambda>f. f = ?d @ [path_name f] \<and> fnmatch_json (path_name f) \<and>
                 (path_name f = ''.json'' \<or> stem (path_name f) @ ''.json'' = path_name f)) files"
    using mem stem_json by (auto simp add: list_all_iff files_def)
  obtain r1 w1 where loop: "import_files e base files 0 w0 = (r1, w1)"
    by (cases "import_files e base files 0 w0")
  have run: "R =
     (case (r1, w1) of
        (Raised x, w1) \<Rightarrow> (Raised x, w1)
      | (Exited n, w1) \<Rightarrow> (Exited n, w1)
      | (Returned success_count, w1) \<Rightarrow>
          (Returned (),
           print (ImportComplete success_count (length (glob_json ?d w))) (print Rule w1)))"
    using import_main_run [OF assms, of e] loop
    unfolding R_def files_def base_def w0_def by simp
  have R: "opened (snd R) = opened w1" "requests (snd R) = requests w1"
    "\<And>n. r1 = Returned n \<Longrightarrow> fst R = Returned ()"
    "\<And>x. r1 = Raised x \<Longrightarrow> fst R = Raised x"
    by (simp_all add: run split: res.splits)
  have tri: "fst R = Returned () \<and>
      list_all (importable e w) files \<and>
      opened (snd R) = opened w @ files \<and>
      requests (snd R) = requests w @
        concat (map (\<lambda>f. creation_requests (records_url base (stem (path_name f)))
                             (file_records e w f)) files)
      \<or> (\<exists>x n j.
           fst R = Raised x \<and>
           n < length files \<and>
           j \<le> length (file_records e w (files ! n)) \<and>
           list_all (importable e w) (take n files) \<and>
           opened (snd R) = opened w @ take (Suc n) files \<and>
           requests (snd R) = requests w @
             concat (map (\<lambda>f. creation_requests (records_url base (stem (path_name f)))
                                  (file_records e w f)) (take n files)) @
             creation_requests (records_url base (stem (path_name (files ! n))))
               (take j (file_records e w (files ! n))) \<and>
           (\<not> importable e w (files ! n) \<or>
            0 < j \<and> server e (requests (snd R)) = Fails x))"
    using import_files_run [OF loop, unfolded same w0]
  proof (rule disjE)
    assume "(\<exists>n. r1 = Returned n) \<and> list_all (importable e w) files \<and>
      opened w1 = opened w @ files \<and>
      requests w1 = requests w @
        concat (map (\<lambda>f. creation_requests (records_url base (stem (path_name f)))
                            (file_records e w f)) files)"
    with R show ?thesis by (intro disjI1) auto
  next
    assume "\<exists>x n j. r1 = Raised x \<and> n < length files \<and>
         j \<le> length (file_records e w (files ! n)) \<and>
         list_all (importable e w) (take n files) \<and>
         opened w1 = opened w @ take (Suc n) files \<and>
         requests w1 = requests w @
           concat (map (\<lambda>f. creation_requests (records_url base (stem (path_name f)))
                               (file_records e w f)) (take n files)) @
           creation_requests (records_url base (stem (path_name (files ! n))))
             (take j (file_records e w (files ! n))) \<and>
         (\<not> importable e w (files ! n) \<or> 0 < j \<and> server e (requests w1) = Fails x)"
    then obtain x n j where b: "r1 = Raised x" "n < length files"
         "j \<le> length (file_records e w (files ! n))"
         "list_all (importable e w) (take n files)"
         "opened w1 = opened w @ take (Suc n) files"
         "requests w1 = requests w @
           concat (map (\<lambda>f. creation_requests (records_url base (stem (path_name f)))
                               (file_records e w f)) (take n files)) @
           creation_requests (records_url base (stem (path_name (files ! n))))
             (take j (file_records e w (files ! n)))"
         "\<not> importable e w (files ! n) \<or> 0 < j \<and> server e (requests w1) = Fails x"
      by blast
    from R(4) [OF b(1)] b(2-7) show ?thesis
      unfolding R(1,2)
      by (intro disjI2)
        (rule exI [of _ x], rule exI [of _ n], rule exI [of _ j], intro conjI, assumption+)
  qed
  have tot: "list_all (importable e w) files \<and>
      (\<forall>earlier url body. is_response (server e (earlier @ [Post url body])))
        \<longrightarrow> fst R = Returned ()"
  proof
    assume a: "list_all (importable e w) files \<and>
      (\<forall>earlier url body. is_response (server e (earlier @ [Post url body])))"
    then have "list_all (importable e w0) files"
      by (simp add: parsed_file_disk(4) [OF w0(1)])
    from import_files_total [OF loop this] a obtain n where "r1 = Returned n" by blast
    then show "fst R = Returned ()" by (rule R(3))
  qed
  have det: "\<forall>scan. distinct scan \<and> distinct (glob_json ?d w) \<and>
        set scan = set (glob_json ?d w) \<longrightarrow> sort scan = files"
    unfolding files_def by (intro allI impI sort_scan_order) simp_all
  show ?thesis
    unfolding R_def [symmetric] base_def [symmetric]
    by (intro exI [of _ files] conjI files_def srt names tri tot det)
qed

theorem import_main_sorted_order_witness:
  "3 \<le> length import_argv \<and>
   path_exists (Path (import_argv ! 2)) demo_world \<and>
   glob_json (Path (import_argv ! 2)) demo_world \<noteq> [] \<and>
   glob_json (Path (import_argv ! 2)) demo_world =
     [[''backup'', ''users.json''], [''backup'', ''empty.json''], [''backup'', ''meta.json'']] \<and>
   sort (glob_json (Path (import_argv ! 2)) demo_world) =
     [[''backup'', ''empty.json''], [''backup'', ''meta.json''], [''backup'', ''users.json'']] \<and>
   list_all (importable demo_env demo_world)
     (sort (glob_json (Path (import_argv ! 2)) demo_world)) \<and>
   (\<forall>earlier url body. is_response (server demo_env (earlier @ [Post url body]))) \<and>
   fst (import_main demo_env import_argv demo_world) = Returned () \<and>
   opened (snd (import_main demo_env import_argv demo_world)) =
     opened demo_world @ sort (glob_json (Path (import_argv ! 2)) demo_world) \<and>
   requests (snd (import_main demo_env import_argv demo_world)) =
     requests demo_world @
       concat (map (\<lambda>f. creation_requests
                            (records_url (rstrip_slash (import_argv ! 1)) (stem (path_name f)))
                            (file_records demo_env demo_world f))
                 (sort (glob_json (Path (import_argv ! 2)) demo_world))) \<and>
   requests demo_world @
       concat (map (\<lambda>f. creation_requests
                            (records_url (rstrip_slash (import_argv ! 1)) (stem (path_name f)))
                            (file_records demo_env demo_world f))
                 (sort (glob_json (Path (import_argv ! 2)) demo_world))) =
     [Post ''http://pb/api/collections/users/records'' (JObj [(''name'', JStr ''x'')]),
      Post ''http://pb/api/collections/users/records'' (JObj [(''name'', JStr ''y'')])] \<and>
   path_exists (Path (import_argv ! 2)) broken_world \<and>
   glob_json (Path (import_argv ! 2)) broken_world \<noteq> [] \<and>
   sort (glob_json (Path (import_argv ! 2)) broken_world) =
     [[''backup'', ''a.json''], [''backup'', ''b.json''], [''backup'', ''c.json'']] \<and>
   \<not> list_all (importable demo_env broken_world)
     (sort (glob_json (Path (import_argv ! 2)) broken_world)) \<and>
   (\<exists>x. fst (import_main demo_env import_argv broken_world) = Raised x)"
proof -
  have h1: "3 \<le> length import_argv" by (simp add: import_argv_def)
  have h2: "path_exists (Path (import_argv ! 2)) demo_world"
    by (simp add: path_exists_def Path_def demo_world_def import_argv_def)
  have g: "glob_json (Path (import_argv ! 2)) demo_world =
     [[''backup'', ''users.json''], [''backup'', ''empty.json''], [''backup'', ''meta.json'']]"
    by (simp add: glob_json_def Path_def demo_world_def parent_def path_name_def
        fnmatch_json_def import_argv_def)
  have h3: "glob_json (Path (import_argv ! 2)) demo_world \<noteq> []"
    by (simp add: g)
  have s: "sort (glob_json (Path (import_argv ! 2)) demo_world) =
     [[''backup'', ''empty.json''], [''backup'', ''meta.json''], [''backup'', ''users.json'']]"
    by (simp add: g)
  have fr: "file_records demo_env demo_world [''backup'', ''empty.json''] = []"
    "file_records demo_env demo_world [''backup'', ''meta.json''] = []"
    "file_records demo_env demo_world [''backup'', ''users.json''] = demo_records"
    by (simp_all add: file_records_def parsed_file_def demo_env_def demo_world_def
        demo_loads_def users_json_def)
  have im: "list_all (importable demo_env demo_world)
     (sort (glob_json (Path (import_argv ! 2)) demo_world))"
    unfolding s
    by (simp add: importable_def parsed_file_def demo_env_def demo_world_def
        demo_loads_def users_json_def demo_records_def)
  have an: "\<forall>earlier url body. is_response (server demo_env (earlier @ [Post url body]))"
    by (simp add: demo_env_def demo_server_def)
  note t = import_main_sorted_order [OF h1 h2 h3, of demo_env]
  from t im an have r1: "fst (import_main demo_env import_argv demo_world) = Returned ()"
    by blast
  from t r1 have r2: "opened (snd (import_main demo_env import_argv demo_world)) =
     opened demo_world @ sort (glob_json (Path (import_argv ! 2)) demo_world)"
    by auto
  from t r1 have r3: "requests (snd (import_main demo_env import_argv demo_world)) =
     requests demo_world @
       concat (map (\<lambda>f. creation_requests
                            (records_url (rstrip_slash (import_argv ! 1)) (stem (path_name f)))
                            (file_records demo_env demo_world f))
                 (sort (glob_json (Path (import_argv ! 2)) demo_world)))"
    by auto
  have r4: "requests demo_world @
       concat (map (\<lambda>f. creation_requests
                            (records_url (rstrip_slash (import_argv ! 1)) (stem (path_name f)))
                            (file_records demo_env demo_world f))
                 (sort (glob_json (Path (import_argv ! 2)) demo_world))) =
     [Post ''http://pb/api/collections/users/records'' (JObj [(''name'', JStr ''x'')]),
      Post ''http://pb/api/collections/users/records'' (JObj [(''name'', JStr ''y'')])]"
  proof -
    have "requests demo_world = []" by (simp add: demo_world_def)
    then show ?thesis
      unfolding s
      by (simp add: fr demo_records_def strip_body_def strip_system_fields_def records_url_def
          rstrip_slash_def import_argv_def stem_def rfind_dot_def path_name_def)
  qed
  have b2: "path_exists (Path (import_argv ! 2)) broken_world"
    by (simp add: path_exists_def Path_def broken_world_def import_argv_def)
  have bg: "glob_json (Path (import_argv ! 2)) broken_world =
     [[''backup'', ''c.json''], [''backup'', ''b.json''], [''backup'', ''a.json'']]"
    by (simp add: glob_json_def Path_def broken_world_def parent_def path_name_def
        fnmatch_json_def import_argv_def)
  have b3: "glob_json (Path (import_argv ! 2)) broken_world \<noteq> []"
    by (simp add: bg)
  have bs: "sort (glob_json (Path (import_argv ! 2)) broken_world) =
     [[''backup'', ''a.json''], [''backup'', ''b.json''], [''backup'', ''c.json'']]"
    by (simp add: bg)
  have bi: "\<not> list_all (importable demo_env broken_world)
     (sort (glob_json (Path (import_argv ! 2)) broken_world))"
    unfolding bs
    by (simp add: importable_def parsed_file_def demo_env_def broken_world_def demo_loads_def)
  from import_main_sorted_order [OF h1 b2 b3, of demo_env] bi
  have r5: "\<exists>x. fst (import_main demo_env import_argv broken_world) = Raised x"
    by blast
  show ?thesis
    by (intro conjI h1 h2 h3 g s im an r1 r2 r3 r4 b2 b3 bs bi r5)
qed

lemma import_main_demo_run:
  "import_main demo_env import_argv demo_world =
     (Returned (),
      demo_world\<lparr>stdout := [ImportBanner ''http://pb'' ''backup'', Rule, NoRecords ''empty'',
           NoRecords ''meta'', RecordFailed 400 ''bad'', Imported 1 2 ''users'', Rule,
           ImportComplete 2 3],
        requests := [Post ''http://pb/api/collections/users/records'' (JObj [(''name'', JStr ''x'')]),
           Post ''http://pb/api/collections/users/records'' (JObj [(''name'', JStr ''y'')])],
        opened := [[''backup'', ''empty.json''], [''backup'', ''meta.json''],
           [''backup'', ''users.json'']]\<rparr>)"
  by (simp add: import_main_def Let_def path_exists_def glob_json_def Path_def parent_def
      fnmatch_json_def import_collection_def read_file_def stem_def rfind_dot_def path_name_def
      demo_world_def import_argv_def demo_env_def demo_loads_def print_def rstrip_slash_def
      strip_system_fields_def requests_post_def demo_server_def records_url_def users_json_def
      demo_records_def)



subsection \<open>What a run of the exporter touches\<close>

lemma write_file_frame:
  assumes "write_file e p content w = (r, w')"
  shows "r \<noteq> Exited n"
    and "requests w' = requests w" and "stdout w' = stdout w" and "opened w' = opened w"
    and "is_dir q w \<Longrightarrow> is_dir q w'"
    and "is_file q w \<Longrightarrow> is_file q w'"
    and "q \<noteq> p \<Longrightarrow> map_of (disk w') q = map_of (disk w) q"
    and "r = Returned u \<Longrightarrow> map_of (disk w') p = Some (File content)"
    and "is_dir q w' \<Longrightarrow> is_dir q w"
  using assms
  by (auto simp add: write_file_def is_dir_def is_file_def AList.update_conv'
      split: option.splits node.splits if_splits)

lemma mkdir_frame:
  assumes "mkdir_exist_ok e p w = (r, w')"
  shows "r \<noteq> Exited n"
    and "requests w' = requests w" and "stdout w' = stdout w" and "opened w' = opened w"
    and "is_dir q w \<Longrightarrow> is_dir q w'"
    and "is_file q w \<Longrightarrow> is_file q w'"
    and "q \<noteq> p \<Longrightarrow> map_of (disk w') q = map_of (disk w) q"
    and "r = Returned u \<Longrightarrow> is_dir p w'"
  using assms
  by (auto simp add: mkdir_exist_ok_def is_dir_def is_file_def map_add_def
      split: option.splits node.splits if_splits)


lemma export_collection_shape:
  assumes "export_collection e base_url c output_dir w = (r, w')"
    and "w1 = snd (requests_get e (records_url base_url c) w)"
  shows "(\<exists>x. r = Raised x \<and> w' = w1) \<or>
     (\<exists>status_code. status_code \<noteq> 200 \<and> r = Returned False \<and>
        w' = print (ExportFailed c status_code) w1) \<or>
     (\<exists>content r2 w2.
        write_file e (joinpath (Path output_dir) (c @ ''.json'')) content w1 = (r2, w2) \<and>
        ((\<exists>x. r = Raised x \<and> w' = w2) \<or>
         (\<exists>n u. r2 = Returned u \<and> r = Returned True \<and> w' = print (Exported c n) w2)))"
proof -
  have get: "requests_get e (records_url base_url c) w =
      (server e (requests w @ [Get (records_url base_url c)]), w1)"
    by (simp add: assms(2) requests_get_def Let_def)
  show ?thesis
  proof (cases "server e (requests w @ [Get (records_url base_url c)])")
    case (Fails x)
    with assms(1) get show ?thesis by (auto simp add: export_collection_def)
  next
    case (Response status_code body)
    show ?thesis
    proof (cases "status_code = 200")
      case False
      with assms(1) get Response show ?thesis by (auto simp add: export_collection_def)
    next
      case True
      show ?thesis
      proof (cases "loads e body")
        case None
        with assms(1) get Response True show ?thesis by (auto simp add: export_collection_def)
      next
        case (Some data)
        obtain r2 w2 where wr:
          "write_file e (joinpath (Path output_dir) (c @ ''.json'')) (dumps e data) w1 = (r2, w2)"
          by (cases "write_file e (joinpath (Path output_dir) (c @ ''.json'')) (dumps e data) w1")
        from write_file_frame(1) [OF wr] have ne: "\<And>n. r2 \<noteq> Exited n" by blast
        from assms(1) get Response True Some wr ne
        have "(\<exists>x. r = Raised x \<and> w' = w2) \<or>
           (\<exists>n u. r2 = Returned u \<and> r = Returned True \<and> w' = print (Exported c n) w2)"
          by (cases r2) (auto simp add: export_collection_def split: sum.splits)
        with wr show ?thesis by blast
      qed
    qed
  qed
qed

lemma export_collection_frame:
  assumes "export_collection e base_url c output_dir w = (r, w')"
  shows "r \<noteq> Exited n"
    and "requests w' = requests w @ [Get (records_url base_url c)]"
    and "opened w' = opened w"
    and "is_dir q w \<Longrightarrow> is_dir q w'"
    and "is_file q w \<Longrightarrow> is_file q w'"
    and "q \<noteq> joinpath (Path output_dir) (c @ ''.json'')
           \<Longrightarrow> map_of (disk w') q = map_of (disk w) q"
    and "(\<exists>x. r = Raised x \<and> stdout w' = stdout w) \<or>
         (\<exists>status_code. status_code \<noteq> 200 \<and> r = Returned False \<and>
            stdout w' = stdout w @ [ExportFailed c status_code]) \<or>
         (\<exists>n. r = Returned True \<and> stdout w' = stdout w @ [Exported c n] \<and>
            is_file (joinpath (Path output_dir) (c @ ''.json'')) w')"
    and "is_dir q w' \<Longrightarrow> is_dir q w"
proof -
  define w1 where "w1 = snd (requests_get e (records_url base_url c) w)"
  have w1: "requests w1 = requests w @ [Get (records_url base_url c)]" "opened w1 = opened w"
    "stdout w1 = stdout w" "disk w1 = disk w"
    by (simp_all add: w1_def)
  have d1: "\<And>p. is_dir p w1 = is_dir p w" "\<And>p. is_file p w1 = is_file p w"
    by (simp_all add: is_dir_def is_file_def w1)
  have pr: "\<And>m v p. is_dir p (print m v) = is_dir p v" "\<And>m v p. is_file p (print m v) = is_file p v"
    by (simp_all add: is_dir_def is_file_def)
  note sh = export_collection_shape [OF assms w1_def]
  {
    fix content r2 w2
    assume wr: "write_file e (joinpath (Path output_dir) (c @ ''.json'')) content w1 = (r2, w2)"
    note write_file_frame [OF wr]
  } note wf = this
  show "r \<noteq> Exited n" using sh by auto
  show "requests w' = requests w @ [Get (records_url base_url c)]"
    using sh w1 wf(2) by auto
  show "opened w' = opened w"
    using sh w1 wf(4) by auto
  show "is_dir q w \<Longrightarrow> is_dir q w'"
    using sh d1 pr wf(5) by (elim disjE exE conjE) auto
  show "is_file q w \<Longrightarrow> is_file q w'"
    using sh d1 pr wf(6) by (elim disjE exE conjE) auto
  show "q \<noteq> joinpath (Path output_dir) (c @ ''.json'')
           \<Longrightarrow> map_of (disk w') q = map_of (disk w) q"
    using sh w1 wf(7) by (elim disjE exE conjE) auto
  show "(\<exists>x. r = Raised x \<and> stdout w' = stdout w) \<or>
         (\<exists>status_code. status_code \<noteq> 200 \<and> r = Returned False \<and>
            stdout w' = stdout w @ [ExportFailed c status_code]) \<or>
         (\<exists>n. r = Returned True \<and> stdout w' = stdout w @ [Exported c n] \<and>
            is_file (joinpath (Path output_dir) (c @ ''.json'')) w')"
    using sh w1 wf(3) wf(8)
    by (elim disjE exE conjE) (auto simp add: is_file_def)
  show "is_dir q w' \<Longrightarrow> is_dir q w"
    using sh d1 pr wf(9) by (elim disjE exE conjE) auto
qed


lemma export_line_mono:
  assumes "export_line out cs w m" and "set cs \<subseteq> set cs'"
    and "\<And>q. is_file q w \<Longrightarrow> is_file q w'"
  shows "export_line out cs' w' m"
  using assms by (cases m) auto

lemma export_loop_frame:
  "export_loop e base_url output_dir cs cnt w = (r, w') \<Longrightarrow>
     (\<forall>n. r \<noteq> Exited n) \<and>
     (\<exists>k \<le> length cs.
        requests w' = requests w @ map (\<lambda>c. Get (records_url base_url c)) (take k cs) \<and>
        (cs \<noteq> [] \<longrightarrow> 0 < k) \<and> ((\<exists>n. r = Returned n) \<longrightarrow> k = length cs)) \<and>
     opened w' = opened w \<and>
     (\<forall>q. is_dir q w \<longrightarrow> is_dir q w') \<and>
     (\<forall>q. is_file q w \<longrightarrow> is_file q w') \<and>
     (\<forall>q. q \<notin> (\<lambda>c. joinpath (Path output_dir) (c @ ''.json'')) ` set cs
          \<longrightarrow> map_of (disk w') q = map_of (disk w) q) \<and>
     (\<exists>ms. stdout w' = stdout w @ ms \<and> list_all (export_line (Path output_dir) cs w') ms \<and>
        length ms \<le> length cs \<and>
        (\<forall>n. r = Returned n \<longrightarrow>
           n = cnt + length (filter is_exported ms) \<and> length ms = length cs))"
proof (induction cs arbitrary: cnt w)
  case Nil
  then show ?case by auto
next
  case (Cons c cs)
  let ?get = "\<lambda>c. Get (records_url base_url c)"
  let ?target = "\<lambda>c. joinpath (Path output_dir) (c @ ''.json'')"
  obtain r1 w1 where one: "export_collection e base_url c output_dir w = (r1, w1)"
    by (cases "export_collection e base_url c output_dir w")
  note fr = export_collection_frame [OF one]
  from fr(7) obtain ms1 where ms1:
    "stdout w1 = stdout w @ ms1" "list_all (export_line (Path output_dir) [c] w1) ms1"
    "length ms1 \<le> 1"
    "\<And>ok. r1 = Returned ok \<Longrightarrow> length ms1 = 1 \<and>
        length (filter is_exported ms1) = (if ok then 1 else 0)"
    by (elim disjE exE conjE) auto
  show ?case
  proof (cases r1)
    case (Exited n)
    with fr(1) show ?thesis by blast
  next
    case (Raised x)
    with Cons.prems one have res: "r = Raised x" "w' = w1" by simp_all
    have l1: "list_all (export_line (Path output_dir) (c # cs) w') ms1"
      using ms1(2) res(2) by (auto simp add: list_all_iff intro: export_line_mono)
    have a: "\<forall>n. r \<noteq> Exited n" using res(1) by simp
    have b: "\<exists>k \<le> length (c # cs).
        requests w' = requests w @ map ?get (take k (c # cs)) \<and>
        (c # cs \<noteq> [] \<longrightarrow> 0 < k) \<and> ((\<exists>n. r = Returned n) \<longrightarrow> k = length (c # cs))"
      using fr(2) res by (intro exI [of _ "Suc 0"]) simp
    have c: "opened w' = opened w" using fr(3) res(2) by simp
    have d: "\<forall>q. is_dir q w \<longrightarrow> is_dir q w'" using fr(4) res(2) by blast
    have e: "\<forall>q. is_file q w \<longrightarrow> is_file q w'" using fr(5) res(2) by blast
    have f: "\<forall>q. q \<notin> ?target ` set (c # cs) \<longrightarrow> map_of (disk w') q = map_of (disk w) q"
      using fr(6) res(2) by simp
    have g: "\<exists>ms. stdout w' = stdout w @ ms \<and>
        list_all (export_line (Path output_dir) (c # cs) w') ms \<and>
        length ms \<le> length (c # cs) \<and>
        (\<forall>n. r = Returned n \<longrightarrow>
           n = cnt + length (filter is_exported ms) \<and> length ms = length (c # cs))"
      using ms1(1,3) l1 res by (intro exI [of _ ms1]) simp
    from a b c d e f g show ?thesis by blast
  next
    case (Returned ok)
    with Cons.prems one
    have "export_loop e base_url output_dir cs (if ok then cnt + 1 else cnt) w1 = (r, w')"
      by simp
    from Cons.IH [OF this] obtain k ms where ih:
      "\<forall>n. r \<noteq> Exited n" "k \<le> length cs"
      "requests w' = requests w1 @ map ?get (take k cs)"
      "(\<exists>n. r = Returned n) \<longrightarrow> k = length cs"
      "opened w' = opened w1"
      "\<forall>q. is_dir q w1 \<longrightarrow> is_dir q w'"
      "\<forall>q. is_file q w1 \<longrightarrow> is_file q w'"
      "\<forall>q. q \<notin> ?target ` set cs \<longrightarrow> map_of (disk w') q = map_of (disk w1) q"
      "stdout w' = stdout w1 @ ms" "list_all (export_line (Path output_dir) cs w') ms"
      "length ms \<le> length cs"
      "\<forall>n. r = Returned n \<longrightarrow>
         n = (if ok then cnt + 1 else cnt) + length (filter is_exported ms) \<and>
         length ms = length cs"
      by blast
    have l1: "list_all (export_line (Path output_dir) (c # cs) w') ms1"
      using ms1(2) ih(7) by (auto simp add: list_all_iff intro: export_line_mono)
    have l2: "list_all (export_line (Path output_dir) (c # cs) w') ms"
      using ih(10) by (auto simp add: list_all_iff intro: export_line_mono)
    have a: "\<forall>n. r \<noteq> Exited n" by (rule ih(1))
    have b: "\<exists>k \<le> length (c # cs).
        requests w' = requests w @ map ?get (take k (c # cs)) \<and>
        (c # cs \<noteq> [] \<longrightarrow> 0 < k) \<and> ((\<exists>n. r = Returned n) \<longrightarrow> k = length (c # cs))"
      using ih(2-4) fr(2) by (intro exI [of _ "Suc k"]) simp
    have c: "opened w' = opened w" using ih(5) fr(3) by simp
    have d: "\<forall>q. is_dir q w \<longrightarrow> is_dir q w'" using ih(6) fr(4) by blast
    have e: "\<forall>q. is_file q w \<longrightarrow> is_file q w'" using ih(7) fr(5) by blast
    have f: "\<forall>q. q \<notin> ?target ` set (c # cs) \<longrightarrow> map_of (disk w') q = map_of (disk w) q"
      using ih(8) fr(6) by auto
    have g: "\<exists>ms. stdout w' = stdout w @ ms \<and>
        list_all (export_line (Path output_dir) (c # cs) w') ms \<and>
        length ms \<le> length (c # cs) \<and>
        (\<forall>n. r = Returned n \<longrightarrow>
           n = cnt + length (filter is_exported ms) \<and> length ms = length (c # cs))"
      using ih(9,11,12) ms1(1,3) ms1(4) [OF Returned] l1 l2
      by (intro exI [of _ "ms1 @ ms"]) (cases ok, simp_all)
    from a b c d e f g show ?thesis by blast
  qed
qed


subsection \<open>A collection exported\<close>

lemma write_file_ok:
  assumes "is_dir (parent p) w" and "\<not> is_dir p w" and "\<not> denied e p"
  shows "write_file e p content w =
           (Returned (), w\<lparr>disk := AList.update p (File content) (disk w)\<rparr>)"
  using assms by (simp add: write_file_def is_dir_def split: option.splits node.splits)

lemma export_collection_200:
  assumes "server e (requests w @ [Get (records_url base_url c)]) = Response 200 body"
    and "loads e body = Some data"
    and "dict_get data ''items'' (JArr []) = Inr items"
    and "py_len items = Inr n"
    and "joinpath (Path output_dir) (c @ ''.json'') = Path output_dir @ [c @ ''.json'']"
    and "is_dir (Path output_dir) w"
    and "\<not> is_dir (Path output_dir @ [c @ ''.json'']) w"
    and "\<not> denied e (Path output_dir @ [c @ ''.json''])"
  shows "export_collection e base_url c output_dir w =
     (Returned True,
      print (Exported c n)
        (w\<lparr>requests := requests w @ [Get (records_url base_url c)],
           disk := AList.update (Path output_dir @ [c @ ''.json'']) (File (dumps e data))
                     (disk w)\<rparr>))"
proof -
  define w1 where "w1 = w\<lparr>requests := requests w @ [Get (records_url base_url c)]\<rparr>"
  have get: "requests_get e (records_url base_url c) w = (Response 200 body, w1)"
    using assms(1) by (simp add: requests_get_def Let_def w1_def)
  have "is_dir (parent (Path output_dir @ [c @ ''.json''])) w1"
    "\<not> is_dir (Path output_dir @ [c @ ''.json'']) w1"
    using assms(6,7) by (simp_all add: parent_def is_dir_def w1_def)
  from write_file_ok [OF this assms(8), of "dumps e data"]
  have wr: "write_file e (Path output_dir @ [c @ ''.json'']) (dumps e data) w1 =
      (Returned (), w1\<lparr>disk := AList.update (Path output_dir @ [c @ ''.json''])
                                 (File (dumps e data)) (disk w1)\<rparr>)" .
  show ?thesis
    using get wr assms(2-5) by (simp add: export_collection_def w1_def)
qed

lemma export_collection_not_200:
  assumes "server e (requests w @ [Get (records_url base_url c)]) = Response status_code body"
    and "status_code \<noteq> 200"
  shows "export_collection e base_url c output_dir w =
     (Returned False,
      print (ExportFailed c status_code)
        (w\<lparr>requests := requests w @ [Get (records_url base_url c)]\<rparr>))"
  using assms by (simp add: export_collection_def requests_get_def Let_def)

subsection \<open>A collection whose request is answered with status 200\<close>

lemma write_file_writable:
  "writable e p w \<Longrightarrow>
     write_file e p content w =
       (Returned (), w\<lparr>disk := AList.update p (File content) (disk w)\<rparr>)"
  by (simp add: writable_def write_file_ok)

lemma write_file_not_writable:
  "\<not> writable e p w \<Longrightarrow> \<exists>x. write_file e p content w = (Raised x, w)"
  by (auto simp add: writable_def write_file_def is_dir_def split: option.splits node.splits)

lemma export_collection_200_run:
  assumes "server e (requests w @ [Get (records_url base_url c)]) = Response 200 body"
    and "loads e body = Some (JObj obj)"
  shows "export_collection e base_url c output_dir w =
     (let target = joinpath (Path output_dir) (c @ ''.json'');
          w1 = w\<lparr>requests := requests w @ [Get (records_url base_url c)]\<rparr> in
      case write_file e target (dumps e (JObj obj)) w1 of
        (Raised x, w2) \<Rightarrow> (Raised x, w2)
      | (Exited n, w2) \<Rightarrow> (Exited n, w2)
      | (Returned u, w2) \<Rightarrow>
          (case py_len (case map_of obj ''items'' of None \<Rightarrow> JArr [] | Some v \<Rightarrow> v) of
             Inl x \<Rightarrow> (Raised x, w2)
           | Inr n \<Rightarrow> (Returned True, print (Exported c n) w2)))"
  using assms
  by (simp add: export_collection_def requests_get_def Let_def
        split: prod.splits res.splits option.splits)

lemma export_collection_200_unwritable:
  assumes "server e (requests w @ [Get (records_url base_url c)]) = Response 200 body"
    and "loads e body = Some (JObj obj)"
    and "\<not> writable e (joinpath (Path output_dir) (c @ ''.json'')) w"
  shows "\<exists>x. export_collection e base_url c output_dir w =
     (Raised x, w\<lparr>requests := requests w @ [Get (records_url base_url c)]\<rparr>)"
proof -
  define w1 where "w1 = w\<lparr>requests := requests w @ [Get (records_url base_url c)]\<rparr>"
  have "\<not> writable e (joinpath (Path output_dir) (c @ ''.json'')) w1"
    using assms(3) by (simp add: writable_def is_dir_def w1_def)
  from write_file_not_writable [OF this, of "dumps e (JObj obj)"]
  obtain x where "write_file e (joinpath (Path output_dir) (c @ ''.json''))
      (dumps e (JObj obj)) w1 = (Raised x, w1)" by blast
  then have "export_collection e base_url c output_dir w = (Raised x, w1)"
    using export_collection_200_run [OF assms(1,2), of output_dir]
    by (simp add: Let_def w1_def)
  then show ?thesis unfolding w1_def by blast
qed

lemma export_collection_200_writable:
  assumes "server e (requests w @ [Get (records_url base_url c)]) = Response 200 body"
    and "loads e body = Some (JObj obj)"
    and "writable e (joinpath (Path output_dir) (c @ ''.json'')) w"
  shows "export_collection e base_url c output_dir w =
     (case py_len (case map_of obj ''items'' of None \<Rightarrow> JArr [] | Some v \<Rightarrow> v) of
        Inl x \<Rightarrow>
          (Raised x,
           w\<lparr>requests := requests w @ [Get (records_url base_url c)],
             disk := AList.update (joinpath (Path output_dir) (c @ ''.json''))
                       (File (dumps e (JObj obj))) (disk w)\<rparr>)
      | Inr n \<Rightarrow>
          (Returned True,
           print (Exported c n)
             (w\<lparr>requests := requests w @ [Get (records_url base_url c)],
                disk := AList.update (joinpath (Path output_dir) (c @ ''.json''))
                          (File (dumps e (JObj obj))) (disk w)\<rparr>)))"
proof -
  define w1 where "w1 = w\<lparr>requests := requests w @ [Get (records_url base_url c)]\<rparr>"
  have "writable e (joinpath (Path output_dir) (c @ ''.json'')) w1"
    using assms(3) by (simp add: writable_def is_dir_def w1_def)
  from write_file_writable [OF this, of "dumps e (JObj obj)"]
  have "write_file e (joinpath (Path output_dir) (c @ ''.json''))
      (dumps e (JObj obj)) w1 =
      (Returned (), w1\<lparr>disk := AList.update (joinpath (Path output_dir) (c @ ''.json''))
                                 (File (dumps e (JObj obj))) (disk w1)\<rparr>)" .
  then show ?thesis
    using export_collection_200_run [OF assms(1,2), of output_dir]
    by (simp add: Let_def w1_def split: sum.splits)
qed

text \<open>
  Claim C5, as the code has it. Let the server answer the retrieval request for the
  collection with status 200 and a body that parses to a JSON object. The request is
  sent, and then:

  \<^item> when \<^verbatim>\<open>{output_dir}/{name}.json\<close> cannot be opened for writing (its parent is
    not a directory, it is a directory itself, or the operating system refuses),
    \<open>export_collection\<close> raises, the disk is unchanged and nothing is printed;

  \<^item> otherwise the file is written, whatever \<^verbatim>\<open>items\<close> is, and holds the
    serialisation (indent 2) of the parsed body; where the JSON library reads back what
    it wrote for this object, the file parses to the value the body parses to;

  \<^item> when \<^verbatim>\<open>items\<close> is absent or an array, \<open>export_collection\<close> returns True and
    the count printed in the success line is the number of elements of the \<^verbatim>\<open>items\<close>
    array, 0 when it is absent; more generally, when \<^verbatim>\<open>items\<close> has a length (a
    string, an object) that length is printed;

  \<^item> when \<^verbatim>\<open>items\<close> has no length (\<^verbatim>\<open>null\<close>, a number, a boolean), the file has
    been written, \<^verbatim>\<open>len\<close> raises \<^verbatim>\<open>TypeError\<close>, which \<open>export_collection\<close>
    lets through, and no success line is printed.
\<close>

theorem export_collection_writes_body:
  assumes "server e (requests w @ [Get (records_url base_url c)]) = Response 200 body"
    and "loads e body = Some (JObj obj)"
  shows "\<exists>w' target.
     snd (export_collection e base_url c output_dir w) = w' \<and>
     target = joinpath (Path output_dir) (c @ ''.json'') \<and>
     requests w' = requests w @ [Get (records_url base_url c)] \<and>
     (\<not> writable e target w \<longrightarrow>
        (\<exists>x. fst (export_collection e base_url c output_dir w) = Raised x) \<and>
        disk w' = disk w \<and> stdout w' = stdout w) \<and>
     (writable e target w \<longrightarrow>
        (\<exists>content.
           disk w' = AList.update target (File content) (disk w) \<and>
           map_of (disk w') target = Some (File content) \<and>
           content = dumps e (JObj obj) \<and>
           (loads e (dumps e (JObj obj)) = Some (JObj obj) \<longrightarrow>
              loads e content = loads e body \<and>
              (\<exists>data. loads e content = Some data \<and>
                 items_count data = items_count (JObj obj)))) \<and>
        ((case map_of obj ''items'' of None \<Rightarrow> True | Some v \<Rightarrow> is_list v) \<longrightarrow>
           fst (export_collection e base_url c output_dir w) = Returned True \<and>
           stdout w' = stdout w @ [Exported c (items_count (JObj obj))]) \<and>
        (\<forall>v n. map_of obj ''items'' = Some v \<and> py_len v = Inr n \<longrightarrow>
           fst (export_collection e base_url c output_dir w) = Returned True \<and>
           stdout w' = stdout w @ [Exported c n]) \<and>
        (\<forall>v x. map_of obj ''items'' = Some v \<and> py_len v = Inl x \<longrightarrow>
           fst (export_collection e base_url c output_dir w) = Raised x \<and>
           stdout w' = stdout w))"
proof -
  define R where "R = export_collection e base_url c output_dir w"
  define target where "target = joinpath (Path output_dir) (c @ ''.json'')"
  define items where
    "items = (case map_of obj ''items'' of None \<Rightarrow> JArr [] | Some v \<Rightarrow> v)"
  define w1 where "w1 = w\<lparr>requests := requests w @ [Get (records_url base_url c)]\<rparr>"
  define wf where "wf = w\<lparr>requests := requests w @ [Get (records_url base_url c)],
        disk := AList.update target (File (dumps e (JObj obj))) (disk w)\<rparr>"
  have no: "\<exists>x. R = (Raised x, w1)" if "\<not> writable e target w"
    using export_collection_200_unwritable [OF assms(1,2), of output_dir] that
    by (simp add: R_def w1_def target_def)
  have ok: "R = (Returned True, print (Exported c n) wf)"
    if "writable e target w" "py_len items = Inr n" for n
    using export_collection_200_writable [OF assms(1,2), of output_dir] that
    by (simp add: R_def wf_def target_def items_def)
  have bad: "R = (Raised x, wf)" if "writable e target w" "py_len items = Inl x" for x
    using export_collection_200_writable [OF assms(1,2), of output_dir] that
    by (simp add: R_def wf_def target_def items_def)
  have wf: "map_of (disk wf) target = Some (File (dumps e (JObj obj)))" "stdout wf = stdout w"
    "disk wf = AList.update target (File (dumps e (JObj obj))) (disk w)"
    "requests wf = requests w @ [Get (records_url base_url c)]"
    by (simp_all add: wf_def AList.update_conv')
  have w1: "disk w1 = disk w" "stdout w1 = stdout w"
    "requests w1 = requests w @ [Get (records_url base_url c)]"
    by (simp_all add: w1_def)
  have rq: "requests (snd R) = requests w @ [Get (records_url base_url c)]"
  proof (cases "writable e target w")
    case True
    then show ?thesis using ok bad wf(4) by (cases "py_len items") simp_all
  next
    case False
    from no [OF this] w1(3) show ?thesis by auto
  qed
  have n: "\<not> writable e target w \<longrightarrow>
        (\<exists>x. fst R = Raised x) \<and> disk (snd R) = disk w \<and> stdout (snd R) = stdout w"
  proof
    assume "\<not> writable e target w"
    from no [OF this] w1(1,2)
    show "(\<exists>x. fst R = Raised x) \<and> disk (snd R) = disk w \<and> stdout (snd R) = stdout w"
      by auto
  qed
  have fl: "disk (snd R) = AList.update target (File (dumps e (JObj obj))) (disk w) \<and>
      map_of (disk (snd R)) target = Some (File (dumps e (JObj obj)))"
    if "writable e target w"
    using ok [OF that] bad [OF that] wf(1,3) by (cases "py_len items") simp_all
  have rt: "loads e (dumps e (JObj obj)) = Some (JObj obj) \<longrightarrow>
      loads e (dumps e (JObj obj)) = loads e body \<and>
      (\<exists>data. loads e (dumps e (JObj obj)) = Some data \<and>
         items_count data = items_count (JObj obj))"
    using assms(2) by simp
  have a: "(case map_of obj ''items'' of None \<Rightarrow> True | Some v \<Rightarrow> is_list v) \<longrightarrow>
        fst R = Returned True \<and> stdout (snd R) = stdout w @ [Exported c (items_count (JObj obj))]"
    if wr: "writable e target w"
  proof
    assume h: "case map_of obj ''items'' of None \<Rightarrow> True | Some v \<Rightarrow> is_list v"
    have "py_len items = Inr (items_count (JObj obj))"
    proof (cases "map_of obj ''items''")
      case None
      then show ?thesis by (simp add: items_def)
    next
      case (Some v)
      with h obtain xs where "v = JArr xs" by (cases v) simp_all
      with Some show ?thesis by (simp add: items_def)
    qed
    from ok [OF wr this] wf(2)
    show "fst R = Returned True \<and>
        stdout (snd R) = stdout w @ [Exported c (items_count (JObj obj))]"
      by simp
  qed
  have b: "\<forall>v n. map_of obj ''items'' = Some v \<and> py_len v = Inr n \<longrightarrow>
        fst R = Returned True \<and> stdout (snd R) = stdout w @ [Exported c n]"
    if wr: "writable e target w"
  proof (intro allI impI, elim conjE)
    fix v n assume "map_of obj ''items'' = Some v" "py_len v = Inr n"
    then have "py_len items = Inr n" by (simp add: items_def)
    from ok [OF wr this] wf(2)
    show "fst R = Returned True \<and> stdout (snd R) = stdout w @ [Exported c n]" by simp
  qed
  have d: "\<forall>v x. map_of obj ''items'' = Some v \<and> py_len v = Inl x \<longrightarrow>
        fst R = Raised x \<and> stdout (snd R) = stdout w"
    if wr: "writable e target w"
  proof (intro allI impI, elim conjE)
    fix v x assume "map_of obj ''items'' = Some v" "py_len v = Inl x"
    then have "py_len items = Inl x" by (simp add: items_def)
    from bad [OF wr this] wf(2)
    show "fst R = Raised x \<and> stdout (snd R) = stdout w" by simp
  qed
  have y: "writable e target w \<longrightarrow>
        (\<exists>content.
           disk (snd R) = AList.update target (File content) (disk w) \<and>
           map_of (disk (snd R)) target = Some (File content) \<and>
           content = dumps e (JObj obj) \<and>
           (loads e (dumps e (JObj obj)) = Some (JObj obj) \<longrightarrow>
              loads e content = loads e body \<and>
              (\<exists>data. loads e content = Some data \<and>
                 items_count data = items_count (JObj obj)))) \<and>
        ((case map_of obj ''items'' of None \<Rightarrow> True | Some v \<Rightarrow> is_list v) \<longrightarrow>
           fst R = Returned True \<and>
           stdout (snd R) = stdout w @ [Exported c (items_count (JObj obj))]) \<and>
        (\<forall>v n. map_of obj ''items'' = Some v \<and> py_len v = Inr n \<longrightarrow>
           fst R = Returned True \<and> stdout (snd R) = stdout w @ [Exported c n]) \<and>
        (\<forall>v x. map_of obj ''items'' = Some v \<and> py_len v = Inl x \<longrightarrow>
           fst R = Raised x \<and> stdout (snd R) = stdout w)"
  proof
    assume wr: "writable e target w"
    from fl [OF wr] rt
    have "\<exists>content.
           disk (snd R) = AList.update target (File content) (disk w) \<and>
           map_of (disk (snd R)) target = Some (File content) \<and>
           content = dumps e (JObj obj) \<and>
           (loads e (dumps e (JObj obj)) = Some (JObj obj) \<longrightarrow>
              loads e content = loads e body \<and>
              (\<exists>data. loads e content = Some data \<and>
                 items_count data = items_count (JObj obj)))"
      by (intro exI [of _ "dumps e (JObj obj)"] conjI) (elim conjE, assumption | rule refl)+
    with a [OF wr] b [OF wr] d [OF wr]
    show "(\<exists>content.
           disk (snd R) = AList.update target (File content) (disk w) \<and>
           map_of (disk (snd R)) target = Some (File content) \<and>
           content = dumps e (JObj obj) \<and>
           (loads e (dumps e (JObj obj)) = Some (JObj obj) \<longrightarrow>
              loads e content = loads e body \<and>
              (\<exists>data. loads e content = Some data \<and>
                 items_count data = items_count (JObj obj)))) \<and>
        ((case map_of obj ''items'' of None \<Rightarrow> True | Some v \<Rightarrow> is_list v) \<longrightarrow>
           fst R = Returned True \<and>
           stdout (snd R) = stdout w @ [Exported c (items_count (JObj obj))]) \<and>
        (\<forall>v n. map_of obj ''items'' = Some v \<and> py_len v = Inr n \<longrightarrow>
           fst R = Returned True \<and> stdout (snd R) = stdout w @ [Exported c n]) \<and>
        (\<forall>v x. map_of obj ''items'' = Some v \<and> py_len v = Inl x \<longrightarrow>
           fst R = Raised x \<and> stdout (snd R) = stdout w)"
      by (intro conjI)
  qed
  show ?thesis
    unfolding R_def [symmetric] target_def [symmetric]
    by (intro exI [of _ "snd R"] exI [of _ target] conjI refl rq n y)
qed

theorem export_collection_writes_body_witness:
  "server demo_env (requests export_world1 @ [Get (records_url ''http://pb'' ''users'')]) =
     Response 200 ''U'' \<and>
   loads demo_env ''U'' = Some (JObj [(''items'', JArr demo_records)]) \<and>
   writable demo_env (joinpath (Path ''pocketbase_export'') (''users'' @ ''.json''))
     export_world1 \<and>
   (case map_of [(''items'', JArr demo_records)] ''items'' of
      None \<Rightarrow> True | Some v \<Rightarrow> is_list v) \<and>
   loads demo_env (dumps demo_env (JObj [(''items'', JArr demo_records)])) =
     Some (JObj [(''items'', JArr demo_records)]) \<and>
   fst (export_collection demo_env ''http://pb'' ''users'' ''pocketbase_export'' export_world1) =
     Returned True \<and>
   stdout (snd (export_collection demo_env ''http://pb'' ''users'' ''pocketbase_export''
                  export_world1)) = [Exported ''users'' 2] \<and>
   map_of (disk (snd (export_collection demo_env ''http://pb'' ''users'' ''pocketbase_export''
                        export_world1)))
     [''pocketbase_export'', ''users.json''] =
     Some (File (dumps demo_env (JObj [(''items'', JArr demo_records)]))) \<and>
   server null_env (requests export_world1 @ [Get (records_url ''http://pb'' ''users'')]) =
     Response 200 ''N'' \<and>
   loads null_env ''N'' = Some (JObj [(''items'', JNull)]) \<and>
   writable null_env (joinpath (Path ''pocketbase_export'') (''users'' @ ''.json''))
     export_world1 \<and>
   map_of [(''items'', JNull)] ''items'' = Some JNull \<and> py_len JNull = Inl TypeError \<and>
   fst (export_collection null_env ''http://pb'' ''users'' ''pocketbase_export'' export_world1) =
     Raised TypeError \<and>
   \<not> writable demo_env (joinpath (Path ''missing'') (''users'' @ ''.json'')) export_world1 \<and>
   (\<exists>x. fst (export_collection demo_env ''http://pb'' ''users'' ''missing'' export_world1) =
      Raised x) \<and>
   disk (snd (export_collection demo_env ''http://pb'' ''users'' ''missing'' export_world1)) =
     disk export_world1"
proof -
  have h1: "server demo_env (requests export_world1 @ [Get (records_url ''http://pb'' ''users'')]) =
     Response 200 ''U''"
    by (simp add: demo_env_def demo_server_def export_world1_def records_url_def)
  have h2: "loads demo_env ''U'' = Some (JObj [(''items'', JArr demo_records)])"
    by (simp add: demo_env_def demo_loads_def users_json_def)
  have tg: "joinpath (Path ''pocketbase_export'') (''users'' @ ''.json'') =
      [''pocketbase_export'', ''users.json'']"
    by (simp add: joinpath_def Path_def)
  have h3: "writable demo_env (joinpath (Path ''pocketbase_export'') (''users'' @ ''.json''))
     export_world1"
    unfolding tg by (simp add: writable_def is_dir_def parent_def export_world1_def demo_env_def)
  have h4: "case map_of [(''items'', JArr demo_records)] ''items'' of
      None \<Rightarrow> True | Some v \<Rightarrow> is_list v"
    by simp
  have h5: "loads demo_env (dumps demo_env (JObj [(''items'', JArr demo_records)])) =
     Some (JObj [(''items'', JArr demo_records)])"
    by (simp add: demo_env_def demo_loads_def users_json_def)
  note t = export_collection_writes_body [OF h1 h2, of "''pocketbase_export''"]
  from t h3 h4 have r1: "fst (export_collection demo_env ''http://pb'' ''users''
      ''pocketbase_export'' export_world1) = Returned True"
    by blast
  from t h3 h4 have "stdout (snd (export_collection demo_env ''http://pb'' ''users''
      ''pocketbase_export'' export_world1)) =
      stdout export_world1 @ [Exported ''users'' (items_count (JObj [(''items'', JArr demo_records)]))]"
    by blast
  then have r2: "stdout (snd (export_collection demo_env ''http://pb'' ''users''
      ''pocketbase_export'' export_world1)) = [Exported ''users'' 2]"
    by (simp add: export_world1_def demo_records_def)
  from t h3 have "map_of (disk (snd (export_collection demo_env ''http://pb'' ''users''
      ''pocketbase_export'' export_world1)))
     (joinpath (Path ''pocketbase_export'') (''users'' @ ''.json'')) =
     Some (File (dumps demo_env (JObj [(''items'', JArr demo_records)])))"
    by blast
  then have r3: "map_of (disk (snd (export_collection demo_env ''http://pb'' ''users''
      ''pocketbase_export'' export_world1)))
     [''pocketbase_export'', ''users.json''] =
     Some (File (dumps demo_env (JObj [(''items'', JArr demo_records)])))"
    unfolding tg .
  have n1: "server null_env (requests export_world1 @ [Get (records_url ''http://pb'' ''users'')]) =
     Response 200 ''N''"
    by (simp add: null_env_def)
  have n2: "loads null_env ''N'' = Some (JObj [(''items'', JNull)])"
    by (simp add: null_env_def)
  have n3: "writable null_env (joinpath (Path ''pocketbase_export'') (''users'' @ ''.json''))
     export_world1"
    unfolding tg by (simp add: writable_def is_dir_def parent_def export_world1_def null_env_def)
  have n4: "map_of [(''items'', JNull)] ''items'' = Some JNull" by simp
  have n5: "py_len JNull = Inl TypeError" by simp
  from export_collection_writes_body [OF n1 n2, of "''pocketbase_export''"] n3 n4 n5
  have r4: "fst (export_collection null_env ''http://pb'' ''users'' ''pocketbase_export''
      export_world1) = Raised TypeError"
    by blast
  have m1: "\<not> writable demo_env (joinpath (Path ''missing'') (''users'' @ ''.json''))
      export_world1"
    by (simp add: writable_def is_dir_def parent_def export_world1_def joinpath_def Path_def)
  note u = export_collection_writes_body [OF h1 h2, of "''missing''"]
  from u m1 have r5: "\<exists>x. fst (export_collection demo_env ''http://pb'' ''users'' ''missing''
      export_world1) = Raised x"
    by blast
  from u m1 have r6: "disk (snd (export_collection demo_env ''http://pb'' ''users'' ''missing''
      export_world1)) = disk export_world1"
    by blast
  show ?thesis
    by (intro conjI h1 h2 h3 h4 h5 r1 r2 r3 n1 n2 n3 n4 n5 r4 m1 r5 r6)
qed

text \<open>
  Claim C5 as stated fails: the server answers with status 200 and the JSON object
  \<^verbatim>\<open>{"items": null}\<close>. The file is written, but \<open>export_collection\<close> raises
  \<^verbatim>\<open>TypeError\<close> and prints no success line, so no record count is reported.
\<close>

theorem export_collection_null_items:
  "server null_env (requests export_world1 @ [Get (records_url ''http://pb'' ''users'')]) =
     Response 200 ''N'' \<and>
   loads null_env ''N'' = Some (JObj [(''items'', JNull)]) \<and>
   export_collection null_env ''http://pb'' ''users'' ''pocketbase_export'' export_world1 =
     (Raised TypeError,
      export_world1\<lparr>disk := [([], Dir), ([''pocketbase_export''], Dir),
                              ([''pocketbase_export'', ''users.json''], File ''N'')],
                     requests := [Get ''http://pb/api/collections/users/records'']\<rparr>) \<and>
   stdout (snd (export_collection null_env ''http://pb'' ''users'' ''pocketbase_export''
                  export_world1)) = []"
  by (simp add: export_collection_def requests_get_def write_file_def null_env_def
        export_world1_def records_url_def joinpath_def Path_def parent_def)

subsection \<open>Runs of the exporter in which nothing raises\<close>

lemma export_collection_ok:
  assumes "server e (requests w @ [Get (records_url base_url c)]) = Response status_code body"
    and "status_code = 200 \<longrightarrow> exportable e body"
    and "joinpath (Path output_dir) (c @ ''.json'') = Path output_dir @ [c @ ''.json'']"
    and "is_dir (Path output_dir) w"
    and "\<not> is_dir (Path output_dir @ [c @ ''.json'']) w"
    and "\<not> denied e (Path output_dir @ [c @ ''.json''])"
  shows "\<exists>m w1. export_collection e base_url c output_dir w = (Returned (is_exported m), w1) \<and>
     stdout w1 = stdout w @ [m] \<and> export_report c (Response status_code body) m"
proof (cases "status_code = 200")
  case False
  define w1 where "w1 = print (ExportFailed c status_code)
        (w\<lparr>requests := requests w @ [Get (records_url base_url c)]\<rparr>)"
  from export_collection_not_200 [OF assms(1) False, of output_dir]
  have "export_collection e base_url c output_dir w =
      (Returned (is_exported (ExportFailed c status_code)), w1)"
    by (simp add: w1_def)
  moreover have "stdout w1 = stdout w @ [ExportFailed c status_code]"
    by (simp add: w1_def)
  moreover have "export_report c (Response status_code body) (ExportFailed c status_code)"
    using False by simp
  ultimately show ?thesis by blast
next
  case True
  with assms(2) have ex: "exportable e body" by simp
  then obtain obj where obj: "loads e body = Some (JObj obj)"
    by (auto simp add: exportable_def split: option.splits json.splits)
  from ex obj obtain items n where items:
    "dict_get (JObj obj) ''items'' (JArr []) = Inr items" "py_len items = Inr n"
    by (cases "map_of obj ''items''") (auto simp add: exportable_def split: sum.splits)
  from assms(1) True
  have rp: "server e (requests w @ [Get (records_url base_url c)]) = Response 200 body" by simp
  define w1 where "w1 = print (Exported c n)
        (w\<lparr>requests := requests w @ [Get (records_url base_url c)],
           disk := AList.update (Path output_dir @ [c @ ''.json'']) (File (dumps e (JObj obj)))
                     (disk w)\<rparr>)"
  from export_collection_200 [OF rp obj items assms(3-6)]
  have "export_collection e base_url c output_dir w =
      (Returned (is_exported (Exported c n)), w1)"
    by (simp add: w1_def)
  moreover have "stdout w1 = stdout w @ [Exported c n]"
    by (simp add: w1_def)
  moreover have "export_report c (Response status_code body) (Exported c n)"
    using True by simp
  ultimately show ?thesis by blast
qed

lemma export_loop_total:
  assumes "is_dir (Path output_dir) w"
    and "list_all (\<lambda>c. joinpath (Path output_dir) (c @ ''.json'') = Path output_dir @ [c @ ''.json''] \<and>
             \<not> denied e (Path output_dir @ [c @ ''.json'']) \<and>
             \<not> is_dir (Path output_dir @ [c @ ''.json'']) w) cs"
    and "\<forall>earlier url. \<exists>status_code body.
           server e (earlier @ [Get url]) = Response status_code body \<and>
           (status_code = 200 \<longrightarrow> exportable e body)"
  shows "\<exists>ms w'.
     export_loop e base_url output_dir cs cnt w =
       (Returned (cnt + length (filter is_exported ms)), w') \<and>
     stdout w' = stdout w @ ms \<and>
     list_all2 (\<lambda>(c, rp) m. export_report c rp m)
       (zip cs (replies_to e (requests w) (map (\<lambda>c. Get (records_url base_url c)) cs))) ms"
  using assms(1,2)
proof (induction cs arbitrary: cnt w)
  case Nil
  show ?case by simp
next
  case (Cons c cs)
  let ?get = "\<lambda>c. Get (records_url base_url c)"
  from assms(3) obtain status_code body where
    rp: "server e (requests w @ [?get c]) = Response status_code body"
      "status_code = 200 \<longrightarrow> exportable e body"
    by blast
  from Cons.prems have c:
    "joinpath (Path output_dir) (c @ ''.json'') = Path output_dir @ [c @ ''.json'']"
    "\<not> denied e (Path output_dir @ [c @ ''.json''])"
    "\<not> is_dir (Path output_dir @ [c @ ''.json'']) w"
    by simp_all
  from export_collection_ok [OF rp c(1) Cons.prems(1) c(3) c(2)]
  obtain m w1 where one:
    "export_collection e base_url c output_dir w = (Returned (is_exported m), w1)"
    "stdout w1 = stdout w @ [m]" "export_report c (Response status_code body) m"
    by blast
  note fr = export_collection_frame [OF one(1)]
  have dir1: "is_dir (Path output_dir) w1"
    using fr(4) Cons.prems(1) by blast
  have rest1: "list_all (\<lambda>c. joinpath (Path output_dir) (c @ ''.json'') = Path output_dir @ [c @ ''.json''] \<and>
             \<not> denied e (Path output_dir @ [c @ ''.json'']) \<and>
             \<not> is_dir (Path output_dir @ [c @ ''.json'']) w1) cs"
    using Cons.prems(2) fr(8) by (auto simp add: list_all_iff)
  from Cons.IH [OF dir1 rest1, of "if is_exported m then cnt + 1 else cnt"]
  obtain ms w' where ih:
    "export_loop e base_url output_dir cs (if is_exported m then cnt + 1 else cnt) w1 =
       (Returned ((if is_exported m then cnt + 1 else cnt) + length (filter is_exported ms)), w')"
    "stdout w' = stdout w1 @ ms"
    "list_all2 (\<lambda>(c, rp) m. export_report c rp m)
       (zip cs (replies_to e (requests w1) (map ?get cs))) ms"
    by blast
  have run: "export_loop e base_url output_dir (c # cs) cnt w =
      (Returned (cnt + length (filter is_exported (m # ms))), w')"
    using one(1) ih(1) by simp
  have out: "stdout w' = stdout w @ m # ms"
    using one(2) ih(2) by simp
  have rel: "list_all2 (\<lambda>(c, rp) m. export_report c rp m)
       (zip (c # cs) (replies_to e (requests w) (map ?get (c # cs)))) (m # ms)"
    using ih(3) one(3) rp(1) fr(2) by simp
  from run out rel show ?case by blast
qed


lemma export_main_run:
  assumes "2 \<le> length argv"
  shows "export_main e argv w =
     (case mkdir_exist_ok e (Path (output_dir_of argv)) w of
        (Raised x, w1) \<Rightarrow> (Raised x, w1)
      | (Exited n, w1) \<Rightarrow> (Exited n, w1)
      | (Returned u, w1) \<Rightarrow>
          (case export_loop e (rstrip_slash (argv ! 1)) (output_dir_of argv) collections 0
                  (print Rule
                     (print (ExportBanner (rstrip_slash (argv ! 1)) (output_dir_of argv)) w1)) of
             (Raised x, w2) \<Rightarrow> (Raised x, w2)
           | (Exited n, w2) \<Rightarrow> (Exited n, w2)
           | (Returned success_count, w2) \<Rightarrow>
               (Returned (),
                print (OutputSaved (output_dir_of argv))
                  (print (ExportComplete success_count (length collections))
                     (print Rule w2)))))"
  using assms unfolding export_main_def Let_def output_dir_of_def
  by (simp add: not_less [symmetric])

lemma export_line_summary_within:
  assumes "list_all (export_line out cs w) ms"
  shows "list_all summary_within ms"
proof -
  have "summary_within m" if "export_line out cs w m" for m
    using that by (cases m) simp_all
  with assms show ?thesis by (auto simp add: list_all_iff)
qed

lemma export_main_stdout:
  "\<exists>ms. stdout (snd (export_main e argv w)) = stdout w @ ms \<and> list_all summary_within ms"
proof (cases "length argv < 2")
  case True
  then have "stdout (snd (export_main e argv w)) = stdout w @ [ExportUsage, ExportExample]"
    by (simp add: export_main_def)
  then show ?thesis by (intro exI [of _ "[ExportUsage, ExportExample]"]) simp
next
  case False
  then have len: "2 \<le> length argv" by simp
  let ?od = "output_dir_of argv"
  let ?base = "rstrip_slash (argv ! 1)"
  obtain r0 w1 where mk: "mkdir_exist_ok e (Path ?od) w = (r0, w1)"
    by (cases "mkdir_exist_ok e (Path ?od) w")
  note mf = mkdir_frame [OF mk]
  show ?thesis
  proof (cases r0)
    case (Raised x)
    with mk mf(3) show ?thesis
      by (intro exI [of _ "[]"]) (simp add: export_main_run [OF len])
  next
    case (Exited n)
    with mf(1) show ?thesis by blast
  next
    case (Returned u)
    let ?w1 = "print Rule (print (ExportBanner ?base ?od) w1)"
    obtain r w2 where lp: "export_loop e ?base ?od collections 0 ?w1 = (r, w2)"
      by (cases "export_loop e ?base ?od collections 0 ?w1")
    from export_loop_frame [OF lp] obtain ms where fr:
      "\<forall>n. r \<noteq> Exited n"
      "stdout w2 = stdout ?w1 @ ms" "list_all (export_line (Path ?od) collections w2) ms"
      "length ms \<le> length collections"
      "\<forall>n. r = Returned n \<longrightarrow>
         n = 0 + length (filter is_exported ms) \<and> length ms = length collections"
      by blast
    have sw: "list_all summary_within ms"
      using fr(3) by (rule export_line_summary_within)
    have out2: "stdout w2 = stdout w @ [ExportBanner ?base ?od, Rule] @ ms"
      using fr(2) mf(3) by simp
    show ?thesis
    proof (cases r)
      case (Exited n)
      with fr(1) show ?thesis by blast
    next
      case (Raised x)
      with mk Returned lp out2 sw show ?thesis
        by (intro exI [of _ "[ExportBanner ?base ?od, Rule] @ ms"])
           (simp add: export_main_run [OF len])
    next
      case ret: (Returned n)
      with fr(5) have n: "n = length (filter is_exported ms)" "length ms = 5"
        by (simp_all add: collections_def)
      have "length (filter is_exported ms) \<le> length ms" by (rule length_filter_le)
      with n have "n \<le> 5" by simp
      with mk Returned lp out2 sw ret show ?thesis
        by (intro exI [of _ "[ExportBanner ?base ?od, Rule] @ ms @
               [Rule, ExportComplete n 5, OutputSaved ?od]"])
           (simp add: export_main_run [OF len] collections_def)
    qed
  qed
qed

lemma mkdir_ok:
  assumes "is_dir p w \<or> (map_of (disk w) p = None \<and> is_dir (parent p) w \<and> \<not> denied e p)"
  shows "\<exists>w1. mkdir_exist_ok e p w = (Returned (), w1)"
  using assms by (auto simp add: mkdir_exist_ok_def is_dir_def)

lemma collections_simple:
  "list_all (\<lambda>c. joinpath p (c @ ''.json'') = p @ [c @ ''.json'']) collections"
  by (simp add: collections_def joinpath_def Path_def)


text \<open>
  Claim C1, as the code has it. Whatever happens, a summary line printed by the
  exporter reports a success count of at most 5 out of 5. When the exporter is given
  its base URL, the output directory exists or can be made, none of the five target
  files is a directory or refused by the operating system, and every retrieval request
  is answered, with a body the exporter can take whenever the status is 200, then
  \<^verbatim>\<open>main\<close> returns: one request was sent for each of the five collections in list
  order, one line was printed for each collection (a success line for status 200, a
  failure line with the status for any other status), and the summary reports the
  number of success lines out of 5.
\<close>

theorem export_main_completes:
  "(\<exists>ms. stdout (snd (export_main e argv w)) = stdout w @ ms \<and> list_all summary_within ms) \<and>
   (2 \<le> length argv \<and>
    (is_dir (Path (output_dir_of argv)) w \<or>
     (map_of (disk w) (Path (output_dir_of argv)) = None \<and>
      is_dir (parent (Path (output_dir_of argv))) w \<and>
      \<not> denied e (Path (output_dir_of argv)))) \<and>
    list_all (\<lambda>c. \<not> denied e (Path (output_dir_of argv) @ [c @ ''.json'']) \<and>
                \<not> is_dir (Path (output_dir_of argv) @ [c @ ''.json'']) w) collections \<and>
    (\<forall>earlier url. \<exists>status_code body.
       server e (earlier @ [Get url]) = Response status_code body \<and>
       (status_code = 200 \<longrightarrow> exportable e body))
    \<longrightarrow>
    (\<exists>ms w'.
       export_main e argv w = (Returned (), w') \<and>
       requests w' = requests w @
         map (\<lambda>c. Get (records_url (rstrip_slash (argv ! 1)) c)) collections \<and>
       list_all2 (\<lambda>(c, rp) m. export_report c rp m)
         (zip collections
            (replies_to e (requests w)
               (map (\<lambda>c. Get (records_url (rstrip_slash (argv ! 1)) c)) collections))) ms \<and>
       length (filter is_exported ms) \<le> 5 \<and>
       stdout w' = stdout w @
         [ExportBanner (rstrip_slash (argv ! 1)) (output_dir_of argv), Rule] @ ms @
         [Rule, ExportComplete (length (filter is_exported ms)) 5,
          OutputSaved (output_dir_of argv)]))"
proof (intro conjI impI)
  show "\<exists>ms. stdout (snd (export_main e argv w)) = stdout w @ ms \<and> list_all summary_within ms"
    by (rule export_main_stdout)
next
  let ?od = "output_dir_of argv"
  let ?out = "Path ?od"
  let ?base = "rstrip_slash (argv ! 1)"
  let ?gets = "map (\<lambda>c. Get (records_url ?base c)) collections"
  assume hyp: "2 \<le> length argv \<and>
    (is_dir ?out w \<or>
     (map_of (disk w) ?out = None \<and> is_dir (parent ?out) w \<and> \<not> denied e ?out)) \<and>
    list_all (\<lambda>c. \<not> denied e (?out @ [c @ ''.json'']) \<and>
                \<not> is_dir (?out @ [c @ ''.json'']) w) collections \<and>
    (\<forall>earlier url. \<exists>status_code body.
       server e (earlier @ [Get url]) = Response status_code body \<and>
       (status_code = 200 \<longrightarrow> exportable e body))"
  then have len: "2 \<le> length argv"
    and dir: "is_dir ?out w \<or>
     (map_of (disk w) ?out = None \<and> is_dir (parent ?out) w \<and> \<not> denied e ?out)"
    and wr: "list_all (\<lambda>c. \<not> denied e (?out @ [c @ ''.json'']) \<and>
                \<not> is_dir (?out @ [c @ ''.json'']) w) collections"
    and srv: "\<forall>earlier url. \<exists>status_code body.
       server e (earlier @ [Get url]) = Response status_code body \<and>
       (status_code = 200 \<longrightarrow> exportable e body)"
    by blast+
  from mkdir_ok [OF dir] obtain w1 where mk: "mkdir_exist_ok e ?out w = (Returned (), w1)"
    by blast
  note mf = mkdir_frame [OF mk]
  define w1b where "w1b = print Rule (print (ExportBanner ?base ?od) w1)"
  have w1b: "requests w1b = requests w" "stdout w1b = stdout w @ [ExportBanner ?base ?od, Rule]"
    "disk w1b = disk w1"
    using mf(2,3) by (simp_all add: w1b_def)
  have dir1: "is_dir ?out w1b"
    using mf(8) [of "()"] w1b(3) by (simp add: is_dir_def)
  have "\<not> is_dir (?out @ [c @ ''.json'']) w1b" if "\<not> is_dir (?out @ [c @ ''.json'']) w" for c
    using that mf(7) [of "?out @ [c @ ''.json'']"] w1b(3) by (simp add: is_dir_def)
  with wr collections_simple [of ?out]
  have wr1: "list_all (\<lambda>c. joinpath ?out (c @ ''.json'') = ?out @ [c @ ''.json''] \<and>
             \<not> denied e (?out @ [c @ ''.json'']) \<and>
             \<not> is_dir (?out @ [c @ ''.json'']) w1b) collections"
    by (simp add: list_all_iff)
  from export_loop_total [OF dir1 wr1 srv, of ?base 0]
  obtain ms w2 where lp:
    "export_loop e ?base ?od collections 0 w1b = (Returned (0 + length (filter is_exported ms)), w2)"
    "stdout w2 = stdout w1b @ ms"
    "list_all2 (\<lambda>(c, rp) m. export_report c rp m)
       (zip collections (replies_to e (requests w1b) ?gets)) ms"
    by blast
  from export_loop_frame [OF lp(1)] have rq: "requests w2 = requests w1b @ ?gets"
    by auto
  define w' where "w' = print (OutputSaved ?od)
      (print (ExportComplete (length (filter is_exported ms)) (length collections))
         (print Rule w2))"
  have run: "export_main e argv w = (Returned (), w')"
    using mk lp(1) by (simp add: export_main_run [OF len] w1b_def w'_def)
  have "length ms = 5"
    using list_all2_lengthD [OF lp(3)] by (simp add: collections_def)
  moreover have "length (filter is_exported ms) \<le> length ms" by (rule length_filter_le)
  ultimately have le: "length (filter is_exported ms) \<le> 5" by simp
  have out: "stdout w' = stdout w @ [ExportBanner ?base ?od, Rule] @ ms @
         [Rule, ExportComplete (length (filter is_exported ms)) 5, OutputSaved ?od]"
    using lp(2) w1b(2) by (simp add: w'_def collections_def)
  have rq': "requests w' = requests w @ ?gets"
    using rq w1b(1) by (simp add: w'_def)
  from run rq' lp(3) le out w1b(1)
  show "\<exists>ms w'.
       export_main e argv w = (Returned (), w') \<and>
       requests w' = requests w @ ?gets \<and>
       list_all2 (\<lambda>(c, rp) m. export_report c rp m)
         (zip collections (replies_to e (requests w) ?gets)) ms \<and>
       length (filter is_exported ms) \<le> 5 \<and>
       stdout w' = stdout w @ [ExportBanner ?base ?od, Rule] @ ms @
         [Rule, ExportComplete (length (filter is_exported ms)) 5, OutputSaved ?od]"
    by (intro exI [of _ ms] exI [of _ w']) simp
qed


theorem export_main_completes_witness:
  "2 \<le> length export_argv \<and>
   (is_dir (Path (output_dir_of export_argv)) export_world \<or>
     (map_of (disk export_world) (Path (output_dir_of export_argv)) = None \<and>
      is_dir (parent (Path (output_dir_of export_argv))) export_world \<and>
      \<not> denied demo_env (Path (output_dir_of export_argv)))) \<and>
   list_all (\<lambda>c. \<not> denied demo_env (Path (output_dir_of export_argv) @ [c @ ''.json'']) \<and>
               \<not> is_dir (Path (output_dir_of export_argv) @ [c @ ''.json'']) export_world)
     collections \<and>
   (\<forall>earlier url. \<exists>status_code body.
       server demo_env (earlier @ [Get url]) = Response status_code body \<and>
       (status_code = 200 \<longrightarrow> exportable demo_env body)) \<and>
   (\<exists>ms w'.
       export_main demo_env export_argv export_world = (Returned (), w') \<and>
       requests w' = requests export_world @
         map (\<lambda>c. Get (records_url (rstrip_slash (export_argv ! 1)) c)) collections \<and>
       list_all2 (\<lambda>(c, rp) m. export_report c rp m)
         (zip collections
            (replies_to demo_env (requests export_world)
               (map (\<lambda>c. Get (records_url (rstrip_slash (export_argv ! 1)) c)) collections))) ms \<and>
       length (filter is_exported ms) \<le> 5 \<and>
       stdout w' = stdout export_world @
         [ExportBanner (rstrip_slash (export_argv ! 1)) (output_dir_of export_argv), Rule] @ ms @
         [Rule, ExportComplete (length (filter is_exported ms)) 5,
          OutputSaved (output_dir_of export_argv)])"
proof -
  have h1: "2 \<le> length export_argv" by (simp add: export_argv_def)
  have h2: "is_dir (Path (output_dir_of export_argv)) export_world \<or>
     (map_of (disk export_world) (Path (output_dir_of export_argv)) = None \<and>
      is_dir (parent (Path (output_dir_of export_argv))) export_world \<and>
      \<not> denied demo_env (Path (output_dir_of export_argv)))"
    by (simp add: export_argv_def export_world_def output_dir_of_def Path_def is_dir_def
        parent_def demo_env_def)
  have h3: "list_all (\<lambda>c. \<not> denied demo_env (Path (output_dir_of export_argv) @ [c @ ''.json'']) \<and>
               \<not> is_dir (Path (output_dir_of export_argv) @ [c @ ''.json'']) export_world)
     collections"
    by (simp add: export_argv_def export_world_def output_dir_of_def Path_def is_dir_def
        collections_def demo_env_def)
  have h4: "\<forall>earlier url. \<exists>status_code body.
       server demo_env (earlier @ [Get url]) = Response status_code body \<and>
       (status_code = 200 \<longrightarrow> exportable demo_env body)"
    by (simp add: demo_env_def demo_server_def exportable_def demo_loads_def users_json_def)
  from h1 h2 h3 h4 have h: "2 \<le> length export_argv \<and>
    (is_dir (Path (output_dir_of export_argv)) export_world \<or>
     (map_of (disk export_world) (Path (output_dir_of export_argv)) = None \<and>
      is_dir (parent (Path (output_dir_of export_argv))) export_world \<and>
      \<not> denied demo_env (Path (output_dir_of export_argv)))) \<and>
    list_all (\<lambda>c. \<not> denied demo_env (Path (output_dir_of export_argv) @ [c @ ''.json'']) \<and>
                \<not> is_dir (Path (output_dir_of export_argv) @ [c @ ''.json'']) export_world)
      collections \<and>
    (\<forall>earlier url. \<exists>status_code body.
       server demo_env (earlier @ [Get url]) = Response status_code body \<and>
       (status_code = 200 \<longrightarrow> exportable demo_env body))"
    by (intro conjI)
  show ?thesis
    by (intro conjI h1 h2 h3 h4
          export_main_completes [of demo_env export_argv export_world, THEN conjunct2,
            THEN mp, OF h])
qed

lemma export_main_demo_run:
  "export_main demo_env export_argv export_world =
     (Returned (),
      \<lparr>disk = [([], Dir), ([''pocketbase_export''], Dir),
               ([''pocketbase_export'', ''users.json''], File ''U'')],
       stdout = [ExportBanner ''http://pb'' ''pocketbase_export'', Rule, Exported ''users'' 2,
                 ExportFailed ''posts'' 404, ExportFailed ''comments'' 404,
                 ExportFailed ''products'' 404, ExportFailed ''orders'' 404, Rule,
                 ExportComplete 1 5, OutputSaved ''pocketbase_export''],
       requests = [Get ''http://pb/api/collections/users/records'',
                   Get ''http://pb/api/collections/posts/records'',
                   Get ''http://pb/api/collections/comments/records'',
                   Get ''http://pb/api/collections/products/records'',
                   Get ''http://pb/api/collections/orders/records''],
       opened = []\<rparr>)"
  by (simp add: export_main_def Let_def export_argv_def export_world_def collections_def
      mkdir_exist_ok_def parent_def Path_def joinpath_def export_collection_def requests_get_def
      write_file_def demo_env_def demo_server_def demo_loads_def users_json_def
      demo_records_def records_url_def rstrip_slash_def print_def)

lemma export_main_flaky_run:
  "export_main flaky_env export_argv export_world =
     (Raised RequestException,
      \<lparr>disk = [([], Dir), ([''pocketbase_export''], Dir),
               ([''pocketbase_export'', ''users.json''], File ''U'')],
       stdout = [ExportBanner ''http://pb'' ''pocketbase_export'', Rule, Exported ''users'' 2],
       requests = [Get ''http://pb/api/collections/users/records'',
                   Get ''http://pb/api/collections/posts/records''],
       opened = []\<rparr>)"
  by (simp add: export_main_def Let_def export_argv_def export_world_def collections_def
      mkdir_exist_ok_def parent_def Path_def joinpath_def export_collection_def requests_get_def
      write_file_def flaky_env_def flaky_server_def demo_env_def demo_server_def demo_loads_def
      users_json_def demo_records_def records_url_def rstrip_slash_def print_def)

text \<open>
  Claim C1 as stated fails: neither script catches an exception. With a server that
  refuses the connection for the collection \<^verbatim>\<open>posts\<close> only, the exporter ends with
  the uncaught exception after the second request; the remaining three collections are
  never requested and no summary is printed.
\<close>

theorem export_main_raises_on_failing_collection:
  "fst (export_main flaky_env export_argv export_world) = Raised RequestException \<and>
   requests (snd (export_main flaky_env export_argv export_world)) =
     [Get ''http://pb/api/collections/users/records'',
      Get ''http://pb/api/collections/posts/records''] \<and>
   stdout (snd (export_main flaky_env export_argv export_world)) =
     [ExportBanner ''http://pb'' ''pocketbase_export'', Rule, Exported ''users'' 2]"
  by (simp add: export_main_flaky_run)


text \<open>
  In general an exception on one collection ends the run of the exporter, whichever
  collection it is: a request the server fails on, and a body with status 200 that is
  not JSON, raise in \<open>export_collection\<close> (as does a target that cannot be written, by
  \<open>export_collection_200_unwritable\<close>); the loop stops at the first collection that
  raises; and \<^verbatim>\<open>main\<close> lets the exception through, printing no summary.
\<close>

lemma export_collection_fails:
  assumes "server e (requests w @ [Get (records_url base_url c)]) = Fails x"
  shows "export_collection e base_url c output_dir w =
     (Raised x, w\<lparr>requests := requests w @ [Get (records_url base_url c)]\<rparr>)"
  using assms by (simp add: export_collection_def requests_get_def Let_def)

lemma export_collection_not_json:
  assumes "server e (requests w @ [Get (records_url base_url c)]) = Response 200 body"
    and "loads e body = None"
  shows "export_collection e base_url c output_dir w =
     (Raised JSONDecodeError, w\<lparr>requests := requests w @ [Get (records_url base_url c)]\<rparr>)"
  using assms by (simp add: export_collection_def requests_get_def Let_def)

lemma export_loop_stops:
  assumes "export_loop e base_url output_dir before c0 w = (Returned c1, w1)"
    and "export_collection e base_url c output_dir w1 = (Raised x, w2)"
  shows "export_loop e base_url output_dir (before @ c # rest) c0 w = (Raised x, w2)"
  using assms
proof (induction before arbitrary: c0 w)
  case Nil
  then show ?case by simp
next
  case (Cons b before)
  obtain r wb where one: "export_collection e base_url b output_dir w = (r, wb)"
    by (cases "export_collection e base_url b output_dir w")
  show ?case
  proof (cases r)
    case (Returned ok)
    with Cons.prems(1) one
    have "export_loop e base_url output_dir before (if ok then c0 + 1 else c0) wb =
        (Returned c1, w1)" by simp
    from Cons.IH [OF this Cons.prems(2)] one Returned show ?thesis by simp
  next
    case (Raised y)
    with Cons.prems(1) one show ?thesis by simp
  next
    case (Exited n)
    with Cons.prems(1) one show ?thesis by simp
  qed
qed

lemma export_main_stops:
  assumes "2 \<le> length argv"
    and "mkdir_exist_ok e (Path (output_dir_of argv)) w = (Returned (), w0)"
    and "export_loop e (rstrip_slash (argv ! 1)) (output_dir_of argv) before 0
           (print Rule (print (ExportBanner (rstrip_slash (argv ! 1)) (output_dir_of argv)) w0)) =
         (Returned c1, w1)"
    and "export_collection e (rstrip_slash (argv ! 1)) c (output_dir_of argv) w1 = (Raised x, w2)"
    and "collections = before @ c # rest"
  shows "export_main e argv w = (Raised x, w2)"
  using export_loop_stops [OF assms(3,4), of rest] assms(2,5)
  by (simp add: export_main_run [OF assms(1)])

subsection \<open>Neither script leaves through \<^verbatim>\<open>sys.exit\<close> once its checks have passed\<close>

lemma import_collection_not_Exited:
  "import_collection e base_url name f w \<noteq> (Exited n, w')"
proof
  assume run: "import_collection e base_url name f w = (Exited n, w')"
  have rd: "fst (read_file e f w) \<noteq> Exited k" for k
    by (simp add: read_file_def Let_def split: option.splits node.splits)
  from run rd import_records_not_Exited show False
    by (auto simp add: import_collection_def split: prod.splits res.splits option.splits
        sum.splits if_splits)
qed

lemma import_files_not_Exited:
  "import_files e base_url files c w \<noteq> (Exited n, w')"
proof (induction files arbitrary: c w)
  case Nil
  show ?case by simp
next
  case (Cons f rest)
  show ?case
    using Cons.IH import_collection_not_Exited
    by (auto split: prod.splits res.splits)
qed



subsection \<open>The output directory\<close>

lemma export_line_file_written:
  assumes "list_all (export_line out cs w) ms"
  shows "list_all (file_written out w) ms"
proof -
  have "file_written out w m" if "export_line out cs w m" for m
    using that by (cases m) simp_all
  with assms show ?thesis by (auto simp add: list_all_iff)
qed

lemma file_written_print [simp]: "file_written out (print m' w) = file_written out w"
proof
  fix m
  show "file_written out (print m' w) m = file_written out w m"
    by (cases m) (simp_all add: is_file_def)
qed

text \<open>
  Claim C8, as the code has it. Let the exporter be given its base URL, and let the
  output directory either exist as a directory, or be absent with a parent that is a
  directory in which the operating system lets it be made. Then \<^verbatim>\<open>mkdir\<close> raises
  nothing: the run goes on to request the first collection, and whatever happens
  afterwards, the output directory is a directory at the end. For every success line
  printed, the file \<^verbatim>\<open>{output_dir}/{name}.json\<close> of that collection is on the disk,
  and no path other than the output directory and the five target files is changed.
\<close>

theorem export_main_output_dir:
  assumes "2 \<le> length argv"
    and "is_dir (Path (output_dir_of argv)) w \<or>
         (map_of (disk w) (Path (output_dir_of argv)) = None \<and>
          is_dir (parent (Path (output_dir_of argv))) w \<and>
          \<not> denied e (Path (output_dir_of argv)))"
  shows "is_dir (Path (output_dir_of argv)) (snd (export_main e argv w)) \<and>
     (\<exists>later. requests (snd (export_main e argv w)) =
        requests w @ Get (records_url (rstrip_slash (argv ! 1)) ''users'') # later) \<and>
     (\<exists>ms. stdout (snd (export_main e argv w)) = stdout w @ ms \<and>
        list_all (file_written (Path (output_dir_of argv)) (snd (export_main e argv w))) ms) \<and>
     (\<forall>q. q \<noteq> Path (output_dir_of argv) \<and>
          q \<notin> (\<lambda>c. joinpath (Path (output_dir_of argv)) (c @ ''.json'')) ` set collections
          \<longrightarrow> map_of (disk (snd (export_main e argv w))) q = map_of (disk w) q)"
proof -
  let ?od = "output_dir_of argv"
  let ?out = "Path ?od"
  let ?base = "rstrip_slash (argv ! 1)"
  let ?target = "\<lambda>c. joinpath ?out (c @ ''.json'')"
  from mkdir_ok [OF assms(2)] obtain w1 where mk: "mkdir_exist_ok e ?out w = (Returned (), w1)"
    by blast
  note mf = mkdir_frame [OF mk]
  define w1b where "w1b = print Rule (print (ExportBanner ?base ?od) w1)"
  have w1b: "requests w1b = requests w" "stdout w1b = stdout w @ [ExportBanner ?base ?od, Rule]"
    "disk w1b = disk w1"
    using mf(2,3) by (simp_all add: w1b_def)
  have dir1: "is_dir ?out w1b"
    using mf(8) [of "()"] w1b(3) by (simp add: is_dir_def)
  obtain r w2 where lp: "export_loop e ?base ?od collections 0 w1b = (r, w2)"
    by (cases "export_loop e ?base ?od collections 0 w1b")
  from export_loop_frame [OF lp] obtain k ms where fr:
    "\<forall>n. r \<noteq> Exited n"
    "requests w2 = requests w1b @ map (\<lambda>c. Get (records_url ?base c)) (take k collections)"
    "collections \<noteq> [] \<longrightarrow> 0 < k"
    "\<forall>q. is_dir q w1b \<longrightarrow> is_dir q w2"
    "\<forall>q. q \<notin> ?target ` set collections \<longrightarrow> map_of (disk w2) q = map_of (disk w1b) q"
    "stdout w2 = stdout w1b @ ms" "list_all (export_line ?out collections w2) ms"
    by blast
  from fr(3) obtain j where k: "k = Suc j" by (cases k) (simp_all add: collections_def)
  define later where "later = map (\<lambda>c. Get (records_url ?base c))
      (take j [''posts'', ''comments'', ''products'', ''orders''])"
  have rq2: "requests w2 = requests w @ Get (records_url ?base ''users'') # later"
    using fr(2) w1b(1) by (simp add: k collections_def later_def)
  have fw: "list_all (file_written ?out w2) ms"
    using fr(7) by (rule export_line_file_written)
  define w' where "w' = snd (export_main e argv w)"
  have shape: "w' = w2 \<or> (\<exists>n. w' = print (OutputSaved ?od)
      (print (ExportComplete n (length collections)) (print Rule w2)))"
    using mk lp fr(1) unfolding w'_def
    by (cases r) (auto simp add: export_main_run [OF assms(1)] w1b_def)
  have d: "disk w' = disk w2" "requests w' = requests w2"
    using shape by auto
  have a: "is_dir ?out w'"
    using fr(4) dir1 d(1) by (simp add: is_dir_def)
  have b: "\<exists>later. requests w' = requests w @ Get (records_url ?base ''users'') # later"
    using rq2 d(2) by simp
  have c: "\<exists>ms. stdout w' = stdout w @ ms \<and> list_all (file_written ?out w') ms"
    using shape
  proof
    assume "w' = w2"
    with fr(6) w1b(2) fw show ?thesis
      by (intro exI [of _ "[ExportBanner ?base ?od, Rule] @ ms"]) simp
  next
    assume "\<exists>n. w' = print (OutputSaved ?od)
      (print (ExportComplete n (length collections)) (print Rule w2))"
    then obtain n where "w' = print (OutputSaved ?od)
      (print (ExportComplete n (length collections)) (print Rule w2))" by blast
    with fr(6) w1b(2) fw show ?thesis
      by (intro exI [of _ "[ExportBanner ?base ?od, Rule] @ ms @
             [Rule, ExportComplete n (length collections), OutputSaved ?od]"]) simp
  qed
  have e: "\<forall>q. q \<noteq> ?out \<and> q \<notin> ?target ` set collections
          \<longrightarrow> map_of (disk w') q = map_of (disk w) q"
    using fr(5) mf(7) w1b(3) d(1) by simp
  from a b c e show ?thesis unfolding w'_def by blast
qed

theorem export_main_output_dir_witness:
  "2 \<le> length export_argv \<and>
   (is_dir (Path (output_dir_of export_argv)) export_world \<or>
     (map_of (disk export_world) (Path (output_dir_of export_argv)) = None \<and>
      is_dir (parent (Path (output_dir_of export_argv))) export_world \<and>
      \<not> denied demo_env (Path (output_dir_of export_argv)))) \<and>
   \<not> is_dir (Path (output_dir_of export_argv)) export_world \<and>
   is_dir (Path (output_dir_of export_argv)) (snd (export_main demo_env export_argv export_world)) \<and>
   (\<exists>later. requests (snd (export_main demo_env export_argv export_world)) =
      requests export_world @
        Get (records_url (rstrip_slash (export_argv ! 1)) ''users'') # later) \<and>
   (\<exists>ms. stdout (snd (export_main demo_env export_argv export_world)) =
      stdout export_world @ ms \<and>
      list_all (file_written (Path (output_dir_of export_argv))
                  (snd (export_main demo_env export_argv export_world))) ms) \<and>
   map_of (disk (snd (export_main demo_env export_argv export_world))) [] =
     map_of (disk export_world) []"
proof -
  have h1: "2 \<le> length export_argv" by (simp add: export_argv_def)
  have h2: "is_dir (Path (output_dir_of export_argv)) export_world \<or>
     (map_of (disk export_world) (Path (output_dir_of export_argv)) = None \<and>
      is_dir (parent (Path (output_dir_of export_argv))) export_world \<and>
      \<not> denied demo_env (Path (output_dir_of export_argv)))"
    by (simp add: export_argv_def export_world_def output_dir_of_def Path_def is_dir_def
        parent_def demo_env_def)
  have h3: "\<not> is_dir (Path (output_dir_of export_argv)) export_world"
    by (simp add: export_argv_def export_world_def output_dir_of_def Path_def is_dir_def)
  have q: "[] \<noteq> Path (output_dir_of export_argv) \<and>
     [] \<notin> (\<lambda>c. joinpath (Path (output_dir_of export_argv)) (c @ ''.json'')) ` set collections"
    by (simp add: export_argv_def output_dir_of_def Path_def joinpath_def collections_def)
  from h1 h2 h3 q export_main_output_dir [OF h1 h2, of ] show ?thesis by blast
qed

text \<open>
  Claim C8 as stated fails: when the name of the output directory is taken by a file,
  \<^verbatim>\<open>mkdir(exist_ok=True)\<close> raises \<^verbatim>\<open>FileExistsError\<close> and the exporter ends there,
  before any request.
\<close>

theorem export_main_output_dir_is_file:
  "path_exists (Path (output_dir_of export_argv)) clash_world \<and>
   export_main demo_env export_argv clash_world = (Raised FileExistsError, clash_world)"
  by (simp add: export_main_def Let_def export_argv_def clash_world_def output_dir_of_def
      path_exists_def mkdir_exist_ok_def Path_def)


text \<open>
  In general, when the name of the output directory is taken by a file, \<^verbatim>\<open>mkdir\<close>
  raises \<^verbatim>\<open>FileExistsError\<close>; when it is absent and its parent is not a directory,
  \<^verbatim>\<open>mkdir\<close> raises too. In both cases the run ends there, the world unchanged.
\<close>

lemma export_main_output_not_dir:
  assumes "2 \<le> length argv" and "is_file (Path (output_dir_of argv)) w"
  shows "export_main e argv w = (Raised FileExistsError, w)"
  using assms(2)
  by (auto simp add: export_main_run [OF assms(1)] mkdir_exist_ok_def is_file_def
        split: option.splits node.splits)

lemma export_main_output_no_parent:
  assumes "2 \<le> length argv" and "\<not> path_exists (Path (output_dir_of argv)) w"
    and "\<not> is_dir (parent (Path (output_dir_of argv))) w"
  shows "\<exists>x. export_main e argv w = (Raised x, w)"
  using assms(2,3)
  by (auto simp add: export_main_run [OF assms(1)] mkdir_exist_ok_def path_exists_def is_dir_def
        split: option.splits node.splits)

subsection \<open>Exit status\<close>

lemma export_main_not_Exited:
  assumes "2 \<le> length argv"
  shows "fst (export_main e argv w) \<noteq> Exited n"
proof -
  let ?od = "output_dir_of argv"
  let ?base = "rstrip_slash (argv ! 1)"
  obtain r0 w1 where mk: "mkdir_exist_ok e (Path ?od) w = (r0, w1)"
    by (cases "mkdir_exist_ok e (Path ?od) w")
  obtain r w2 where lp: "export_loop e ?base ?od collections 0
      (print Rule (print (ExportBanner ?base ?od) w1)) = (r, w2)"
    by (cases "export_loop e ?base ?od collections 0
      (print Rule (print (ExportBanner ?base ?od) w1))")
  from mkdir_frame(1) [OF mk] have a: "\<And>k. r0 \<noteq> Exited k" by blast
  from export_loop_frame [OF lp] have b: "\<And>k. r \<noteq> Exited k" by blast
  show ?thesis
    using mk lp a b
    by (cases r0; cases r) (auto simp add: export_main_run [OF assms])
qed

lemma import_main_not_Exited:
  assumes "3 \<le> length argv" and "path_exists (Path (argv ! 2)) w"
    and "glob_json (Path (argv ! 2)) w \<noteq> []"
  shows "fst (import_main e argv w) \<noteq> Exited n"
proof -
  obtain r w1 where lp: "import_files e (rstrip_slash (argv ! 1))
      (sort (glob_json (Path (argv ! 2)) w)) 0
      (print Rule (print (ImportBanner (rstrip_slash (argv ! 1)) (argv ! 2)) w)) = (r, w1)"
    by (cases "import_files e (rstrip_slash (argv ! 1))
      (sort (glob_json (Path (argv ! 2)) w)) 0
      (print Rule (print (ImportBanner (rstrip_slash (argv ! 1)) (argv ! 2)) w))")
  from import_files_not_Exited lp have "\<And>k. r \<noteq> Exited k" by blast
  with lp show ?thesis
    by (cases r) (auto simp add: import_main_run [OF assms])
qed

lemma exit_code_cases:
  assumes "\<And>n. r \<noteq> Exited n"
  shows "exit_code r = (if \<exists>x. r = Raised x then 1 else 0)"
  using assms by (cases r) auto

text \<open>
  Claim C6, as the code has it. The exporter given no base URL exits with status 1,
  having only printed its usage. Given one, it never calls \<^verbatim>\<open>sys.exit\<close>: its status
  is 0 when \<^verbatim>\<open>main\<close> returns, whatever the per-collection failures, and 1 when an
  exception is left uncaught. The importer exits with status 1, having only printed one
  message (so before any file is opened or any request sent), when it is given fewer
  than two arguments, when the import directory does not exist, and when the directory
  holds no file matching \<^verbatim>\<open>*.json\<close>. Otherwise its status is 0 when \<^verbatim>\<open>main\<close>
  returns, whatever the per-collection and per-record failures, and 1 when an
  exception is left uncaught.
\<close>

theorem exit_codes:
  "(length argv < 2 \<longrightarrow>
      exit_code (fst (export_main e argv w)) = 1 \<and>
      snd (export_main e argv w) = print ExportExample (print ExportUsage w)) \<and>
   (2 \<le> length argv \<longrightarrow>
      exit_code (fst (export_main e argv w)) =
        (if \<exists>x. fst (export_main e argv w) = Raised x then 1 else 0)) \<and>
   (length argv < 3 \<longrightarrow>
      exit_code (fst (import_main e argv w)) = 1 \<and>
      snd (import_main e argv w) = print ImportExample (print ImportUsage w)) \<and>
   (3 \<le> length argv \<and> \<not> path_exists (Path (argv ! 2)) w \<longrightarrow>
      exit_code (fst (import_main e argv w)) = 1 \<and>
      snd (import_main e argv w) = print (DirMissing (argv ! 2)) w) \<and>
   (3 \<le> length argv \<and> path_exists (Path (argv ! 2)) w \<and> glob_json (Path (argv ! 2)) w = [] \<longrightarrow>
      exit_code (fst (import_main e argv w)) = 1 \<and>
      snd (import_main e argv w) = print (NoJsonFiles (argv ! 2)) w) \<and>
   (3 \<le> length argv \<and> path_exists (Path (argv ! 2)) w \<and> glob_json (Path (argv ! 2)) w \<noteq> [] \<longrightarrow>
      exit_code (fst (import_main e argv w)) =
        (if \<exists>x. fst (import_main e argv w) = Raised x then 1 else 0))"
proof (intro conjI impI)
  assume "length argv < 2"
  then show "exit_code (fst (export_main e argv w)) = 1"
    and "snd (export_main e argv w) = print ExportExample (print ExportUsage w)"
    by (simp_all add: export_main_def)
next
  assume "2 \<le> length argv"
  from export_main_not_Exited [OF this]
  show "exit_code (fst (export_main e argv w)) =
        (if \<exists>x. fst (export_main e argv w) = Raised x then 1 else 0)"
    by (rule exit_code_cases)
next
  assume "length argv < 3"
  then show "exit_code (fst (import_main e argv w)) = 1"
    and "snd (import_main e argv w) = print ImportExample (print ImportUsage w)"
    by (simp_all add: import_main_def)
next
  assume "3 \<le> length argv \<and> \<not> path_exists (Path (argv ! 2)) w"
  then show "exit_code (fst (import_main e argv w)) = 1"
    and "snd (import_main e argv w) = print (DirMissing (argv ! 2)) w"
    by (simp_all add: import_main_def Let_def)
next
  assume "3 \<le> length argv \<and> path_exists (Path (argv ! 2)) w \<and> glob_json (Path (argv ! 2)) w = []"
  then show "exit_code (fst (import_main e argv w)) = 1"
    and "snd (import_main e argv w) = print (NoJsonFiles (argv ! 2)) w"
    by (simp_all add: import_main_def Let_def)
next
  assume "3 \<le> length argv \<and> path_exists (Path (argv ! 2)) w \<and> glob_json (Path (argv ! 2)) w \<noteq> []"
  then have "fst (import_main e argv w) \<noteq> Exited n" for n
    using import_main_not_Exited by blast
  then show "exit_code (fst (import_main e argv w)) =
        (if \<exists>x. fst (import_main e argv w) = Raised x then 1 else 0)"
    by (rule exit_code_cases)
qed


theorem exit_codes_witness:
  "length [''export_data.py''] < 2 \<and>
   exit_code (fst (export_main demo_env [''export_data.py''] export_world)) = 1 \<and>
   requests (snd (export_main demo_env [''export_data.py''] export_world)) = [] \<and>
   2 \<le> length export_argv \<and>
   exit_code (fst (export_main demo_env export_argv export_world)) = 0 \<and>
   length [''import_data.py'', ''http://pb/''] < 3 \<and>
   exit_code (fst (import_main demo_env [''import_data.py'', ''http://pb/''] demo_world)) = 1 \<and>
   3 \<le> length [''import_data.py'', ''http://pb/'', ''nowhere''] \<and>
   \<not> path_exists (Path ([''import_data.py'', ''http://pb/'', ''nowhere''] ! 2)) demo_world \<and>
   exit_code (fst (import_main demo_env [''import_data.py'', ''http://pb/'', ''nowhere'']
                     demo_world)) = 1 \<and>
   opened (snd (import_main demo_env [''import_data.py'', ''http://pb/'', ''nowhere'']
                  demo_world)) = [] \<and>
   3 \<le> length [''import_data.py'', ''http://pb/'', ''pocketbase_export''] \<and>
   path_exists (Path ([''import_data.py'', ''http://pb/'', ''pocketbase_export''] ! 2))
     export_world1 \<and>
   glob_json (Path ([''import_data.py'', ''http://pb/'', ''pocketbase_export''] ! 2))
     export_world1 = [] \<and>
   exit_code (fst (import_main demo_env [''import_data.py'', ''http://pb/'', ''pocketbase_export'']
                     export_world1)) = 1 \<and>
   3 \<le> length import_argv \<and>
   path_exists (Path (import_argv ! 2)) demo_world \<and>
   glob_json (Path (import_argv ! 2)) demo_world \<noteq> [] \<and>
   RecordFailed 400 ''bad'' \<in> set (stdout (snd (import_main demo_env import_argv demo_world))) \<and>
   exit_code (fst (import_main demo_env import_argv demo_world)) = 0"
proof -
  have a1: "length [''export_data.py''] < 2" by simp
  have a2: "exit_code (fst (export_main demo_env [''export_data.py''] export_world)) = 1"
    and a3: "requests (snd (export_main demo_env [''export_data.py''] export_world)) = []"
    using exit_codes [of "[''export_data.py'']" demo_env export_world]
    by (simp_all add: export_world_def)
  have b1: "2 \<le> length export_argv" by (simp add: export_argv_def)
  have b2: "exit_code (fst (export_main demo_env export_argv export_world)) = 0"
    using exit_codes [of export_argv demo_env export_world] b1 export_main_demo_run
    by simp
  have c1: "length [''import_data.py'', ''http://pb/''] < 3" by simp
  have c2: "exit_code (fst (import_main demo_env [''import_data.py'', ''http://pb/'']
      demo_world)) = 1"
    using exit_codes [of "[''import_data.py'', ''http://pb/'']" demo_env demo_world]
    by simp
  let ?nowhere = "[''import_data.py'', ''http://pb/'', ''nowhere'']"
  have d1: "3 \<le> length ?nowhere" by simp
  have d2: "\<not> path_exists (Path (?nowhere ! 2)) demo_world"
    by (simp add: path_exists_def Path_def demo_world_def)
  have d3: "exit_code (fst (import_main demo_env ?nowhere demo_world)) = 1"
    and d4: "opened (snd (import_main demo_env ?nowhere demo_world)) = []"
    using exit_codes [of ?nowhere demo_env demo_world] d1 d2
    by (simp_all add: demo_world_def)
  let ?empty = "[''import_data.py'', ''http://pb/'', ''pocketbase_export'']"
  have e1: "3 \<le> length ?empty" by simp
  have e2: "path_exists (Path (?empty ! 2)) export_world1"
    by (simp add: path_exists_def Path_def export_world1_def)
  have e3: "glob_json (Path (?empty ! 2)) export_world1 = []"
    by (simp add: glob_json_def Path_def export_world1_def parent_def)
  have e4: "exit_code (fst (import_main demo_env ?empty export_world1)) = 1"
    using exit_codes [of ?empty demo_env export_world1] e1 e2 e3
    by simp
  have f1: "3 \<le> length import_argv" by (simp add: import_argv_def)
  have f2: "path_exists (Path (import_argv ! 2)) demo_world"
    by (simp add: path_exists_def Path_def demo_world_def import_argv_def)
  have f3: "glob_json (Path (import_argv ! 2)) demo_world \<noteq> []"
    by (simp add: glob_json_def Path_def demo_world_def parent_def path_name_def
        fnmatch_json_def import_argv_def)
  have f4: "RecordFailed 400 ''bad'' \<in>
      set (stdout (snd (import_main demo_env import_argv demo_world)))"
    by (simp add: import_main_demo_run)
  have f5: "exit_code (fst (import_main demo_env import_argv demo_world)) = 0"
    using exit_codes [of import_argv demo_env demo_world] f1 f2 f3 import_main_demo_run
    by simp
  show ?thesis
    by (intro conjI a1 a2 a3 b1 b2 c1 c2 d1 d2 d3 d4 e1 e2 e3 e4 f1 f2 f3 f4 f5)
qed

text \<open>
  Claim C6 as stated fails: the exporter is given its base URL, the server refuses the
  connection for one collection, and the exit status is 1, not 0.
\<close>

theorem export_main_exit_code_on_exception:
  "2 \<le> length export_argv \<and>
   exit_code (fst (export_main flaky_env export_argv export_world)) = 1"
proof
  show "2 \<le> length export_argv" by (simp add: export_argv_def)
  show "exit_code (fst (export_main flaky_env export_argv export_world)) = 1"
    by (simp add: export_main_flaky_run)
qed


end
